(* ===== verification/Prelude.thy ===== *)
theory Prelude
  imports Main "HOL-Library.AList" "HOL-Library.Sublist" "HOL-Library.Char_ord"
    "HOL-Library.List_Lexorder"
begin

text \<open>
  What the component theories share: results of operations that may raise, keyed tables
  (the rows of a database table as an association list), Python's \<^verbatim>\<open>str\<close>/\<^verbatim>\<open>int\<close>
  conversions on decimal text, and the list lemmas that more than one component uses.

  Conventions. A Python \<^verbatim>\<open>str\<close> that the code only compares, concatenates, sorts or
  matches against an ASCII pattern is a \<^typ>\<open>string\<close> holding its UTF-8 bytes (for these
  operations bytes and code points agree). Where the code counts characters, a string is a
  list of code points (type \<open>utext\<close>). An operation that may raise returns a sum: \<open>Inl e\<close> is
  the exception, and the state it was given is then unchanged.
\<close>

section \<open>Collections of rules\<close>

named_theorems table_simps \<open>lookup after insert, update and delete on keyed tables\<close>
named_theorems result_simps \<open>stepping through operations that may raise\<close>

section \<open>Types shared by the components\<close>

type_synonym ws_name = string
type_synonym bead_id = string
type_synonym session_key = string
type_synonym generation = int
type_synonym timestamp = string
type_synonym epoch_seconds = int
type_synonym utext = "nat list"

section \<open>Operations that may raise\<close>

definition bind_result :: "'e + 'a \<Rightarrow> ('a \<Rightarrow> 'e + 'b) \<Rightarrow> 'e + 'b" where
  "bind_result r f = (case r of Inl e \<Rightarrow> Inl e | Inr x \<Rightarrow> f x)"

lemma bind_result_simps [simp, result_simps]:
  "bind_result (Inl e) f = Inl e"
  "bind_result (Inr x) f = f x"
  by (simp_all add: bind_result_def)

lemma bind_result_eq_Inr [result_simps]:
  "bind_result r f = Inr y \<longleftrightarrow> (\<exists>x. r = Inr x \<and> f x = Inr y)"
  by (cases r) auto

lemma bind_result_eq_Inl [result_simps]:
  "bind_result r f = Inl e \<longleftrightarrow> r = Inl e \<or> (\<exists>x. r = Inr x \<and> f x = Inl e)"
  by (cases r) auto

definition guard_result :: "bool \<Rightarrow> 'e \<Rightarrow> 'e + unit" where
  "guard_result b e = (if b then Inr () else Inl e)"

lemma guard_result_simps [simp, result_simps]:
  "guard_result True e = Inr ()"
  "guard_result False e = Inl e"
  "guard_result b e = Inr u \<longleftrightarrow> b"
  "guard_result b e = Inl e' \<longleftrightarrow> \<not> b \<and> e' = e"
  by (auto simp: guard_result_def)

section \<open>Keyed tables\<close>

text \<open>
  A table with a primary key is an association list from the key to the row, oldest row
  first. \<open>AList.update\<close> is \<^verbatim>\<open>INSERT ... ON CONFLICT DO UPDATE\<close>: an existing row keeps
  its position, a new one goes last. \<open>put_new\<close> is \<^verbatim>\<open>INSERT OR IGNORE\<close>.
\<close>

type_synonym ('k, 'v) table = "('k \<times> 'v) list"

definition keyed :: "('k, 'v) table \<Rightarrow> bool" where
  "keyed t \<longleftrightarrow> distinct (map fst t)"

definition put_new :: "'k \<Rightarrow> 'v \<Rightarrow> ('k, 'v) table \<Rightarrow> ('k, 'v) table" where
  "put_new k v t = (if k \<in> fst ` set t then t else t @ [(k, v)])"

lemma keyed_Nil [simp]: "keyed []"
  by (simp add: keyed_def)

lemma keyed_update [simp]: "keyed t \<Longrightarrow> keyed (AList.update k v t)"
  by (simp add: keyed_def distinct_update)

lemma keyed_delete [simp]: "keyed t \<Longrightarrow> keyed (AList.delete k t)"
  by (simp add: keyed_def distinct_delete)

lemma keyed_filter [simp]: "keyed t \<Longrightarrow> keyed (filter P t)"
  by (simp add: keyed_def distinct_map_filter)

lemma keyed_put_new [simp]: "keyed t \<Longrightarrow> keyed (put_new k v t)"
  by (auto simp: keyed_def put_new_def)

lemma map_of_update [simp, table_simps]:
  "map_of (AList.update k v t) = (map_of t)(k \<mapsto> v)"
  by (rule update_conv')

lemma map_of_delete [simp, table_simps]:
  "map_of (AList.delete k t) = (map_of t)(k := None)"
  by (rule delete_conv')

lemma map_of_append_new [table_simps]:
  "k \<notin> fst ` set t \<Longrightarrow> map_of (t @ [(k, v)]) = (map_of t)(k \<mapsto> v)"
  by (induction t) (auto simp: fun_eq_iff)

lemma map_of_put_new [simp, table_simps]:
  "map_of (put_new k v t) = (case map_of t k of None \<Rightarrow> (map_of t)(k \<mapsto> v) | Some _ \<Rightarrow> map_of t)"
proof (cases "k \<in> fst ` set t")
  case True
  then obtain v' where "map_of t k = Some v'"
    by (metis map_of_eq_None_iff not_None_eq)
  with True show ?thesis by (simp add: put_new_def)
next
  case False
  then have "map_of t k = None" by (simp add: map_of_eq_None_iff)
  with False show ?thesis by (simp add: put_new_def map_of_append_new del: map_of_append)
qed

lemma set_update_keyed:
  "keyed t \<Longrightarrow> set (AList.update k v t) = insert (k, v) {r \<in> set t. fst r \<noteq> k}"
  by (induction t) (auto simp: keyed_def image_iff)

lemma keyed_mem_iff: "keyed t \<Longrightarrow> (k, v) \<in> set t \<longleftrightarrow> map_of t k = Some v"
  by (simp add: keyed_def)

lemma length_update_ge: "length t \<le> length (AList.update k v t)"
  by (induction t) auto

text \<open>Rewriting every row in place (an \<^verbatim>\<open>UPDATE\<close> that touches no key) keeps the keys.\<close>

lemma map_fst_map_rows [simp]:
  "map fst (map (\<lambda>(k, v). (k, f k v)) t) = map fst t"
  by (induction t) auto

lemma map_of_map_rows [simp, table_simps]:
  "map_of (map (\<lambda>(k, v). (k, f k v)) t) k = map_option (f k) (map_of t k)"
  by (induction t) auto

text \<open>Every row of the old table is still there, changed only as \<open>ev\<close> allows.\<close>

definition table_evolves :: "('v \<Rightarrow> 'v \<Rightarrow> bool) \<Rightarrow> ('k, 'v) table \<Rightarrow> ('k, 'v) table \<Rightarrow> bool" where
  "table_evolves ev t t' \<longleftrightarrow> (\<forall>k r. map_of t k = Some r \<longrightarrow> (\<exists>r'. map_of t' k = Some r' \<and> ev r r'))"

lemma table_evolvesD:
  "table_evolves ev t t' \<Longrightarrow> map_of t k = Some r \<Longrightarrow> \<exists>r'. map_of t' k = Some r' \<and> ev r r'"
  by (simp add: table_evolves_def)

lemma table_evolves_refl: "(\<And>r. ev r r) \<Longrightarrow> table_evolves ev t t"
  by (auto simp: table_evolves_def)

lemma table_evolves_trans:
  "(\<And>a b c. ev a b \<Longrightarrow> ev b c \<Longrightarrow> ev a c) \<Longrightarrow>
   table_evolves ev t u \<Longrightarrow> table_evolves ev u v \<Longrightarrow> table_evolves ev t v"
  unfolding table_evolves_def by meson

lemma table_evolves_append: "(\<And>r. ev r r) \<Longrightarrow> table_evolves ev t (t @ xs)"
  by (auto simp: table_evolves_def map_add_Some_iff)

lemma table_evolves_update:
  "(\<And>r. ev r r) \<Longrightarrow> (\<And>r. map_of t k = Some r \<Longrightarrow> ev r r') \<Longrightarrow>
   table_evolves ev t (AList.update k r' t)"
  by (auto simp: table_evolves_def)

lemma table_evolves_map:
  "(\<And>k r. map_of t k = Some r \<Longrightarrow> ev r (f k r)) \<Longrightarrow>
   table_evolves ev t (map (\<lambda>(k, r). (k, f k r)) t)"
  by (auto simp: table_evolves_def)

lemma keyed_map_rows [simp]: "keyed (map (\<lambda>(k, v). (k, f k v)) t) = keyed t"
  by (simp add: keyed_def del: map_map)

lemma keyed_append_new: "keyed t \<Longrightarrow> k \<notin> fst ` set t \<Longrightarrow> keyed (t @ [(k, v)])"
  by (auto simp: keyed_def)

section \<open>Lists\<close>

definition is_prefix_of :: "'a list \<Rightarrow> 'a list \<Rightarrow> bool" where
  "is_prefix_of xs ys \<longleftrightarrow> take (length xs) ys = xs"

lemma is_prefix_of_iff: "is_prefix_of xs ys \<longleftrightarrow> prefix xs ys"
  by (metis is_prefix_of_def prefix_def append_eq_conv_conj take_is_prefix)

text \<open>Python's \<^verbatim>\<open>tuple(dict.fromkeys(xs))\<close>: duplicates removed, first occurrences kept.\<close>

fun dedup_onto :: "'a list \<Rightarrow> 'a list \<Rightarrow> 'a list" where
  "dedup_onto acc [] = acc"
| "dedup_onto acc (x # xs) = dedup_onto (if x \<in> set acc then acc else acc @ [x]) xs"

definition dict_fromkeys :: "'a list \<Rightarrow> 'a list" where
  "dict_fromkeys xs = dedup_onto [] xs"

lemma set_dedup_onto [simp]: "set (dedup_onto acc xs) = set acc \<union> set xs"
  by (induction acc xs rule: dedup_onto.induct) auto

lemma distinct_dedup_onto: "distinct acc \<Longrightarrow> distinct (dedup_onto acc xs)"
  by (induction acc xs rule: dedup_onto.induct) auto

lemma dedup_onto_distinct:
  "distinct (acc @ xs) \<Longrightarrow> dedup_onto acc xs = acc @ xs"
  by (induction acc xs rule: dedup_onto.induct) auto

lemma dict_fromkeys_simps [simp]:
  "set (dict_fromkeys xs) = set xs"
  "distinct (dict_fromkeys xs)"
  by (simp_all add: dict_fromkeys_def distinct_dedup_onto)

lemma dict_fromkeys_snoc:
  assumes "distinct xs"
  shows "dict_fromkeys (xs @ [x]) = (if x \<in> set xs then xs else xs @ [x])"
proof -
  have onto: "dedup_onto acc (ys @ [x]) = dedup_onto (dedup_onto acc ys) [x]" for acc ys
    by (induction acc ys rule: dedup_onto.induct) auto
  have "dedup_onto [] xs = xs"
    using dedup_onto_distinct [of "[]" xs] assms by simp
  then show ?thesis by (simp add: dict_fromkeys_def onto)
qed

section \<open>Invariants and histories of step relations\<close>

text \<open>
  The contract between a component's steps and what its clients rely on. \<open>step_invariant\<close>:
  every step keeps a state invariant, so every run does. \<open>step_history\<close>: every step moves
  a view of the state up a preorder (a log that is only appended to, an entry whose fields are
  only filled in), so every run does.
\<close>

locale step_invariant =
  fixes step :: "'s \<Rightarrow> 's \<Rightarrow> bool" and invar :: "'s \<Rightarrow> bool"
  assumes step_invar: "step s t \<Longrightarrow> invar s \<Longrightarrow> invar t"
begin

lemma run_invar: "step\<^sup>*\<^sup>* s t \<Longrightarrow> invar s \<Longrightarrow> invar t"
  by (induction rule: rtranclp_induct) (auto intro: step_invar)

end

locale step_history =
  fixes step :: "'s \<Rightarrow> 's \<Rightarrow> bool" and view :: "'s \<Rightarrow> 'v" and le :: "'v \<Rightarrow> 'v \<Rightarrow> bool"
  assumes le_refl: "le v v"
    and le_trans: "le u v \<Longrightarrow> le v w \<Longrightarrow> le u w"
    and step_le: "step s t \<Longrightarrow> le (view s) (view t)"
begin

lemma run_le: "step\<^sup>*\<^sup>* s t \<Longrightarrow> le (view s) (view t)"
  by (induction rule: rtranclp_induct) (auto intro: le_refl le_trans step_le)

end

end
