(* ===== verification/States.thy ===== *)
theory States
  imports Prelude
begin

text \<open>
  The bead and workstream state model, \<^verbatim>\<open>wsd/states.py\<close>: the three enumerations, the
  table of transitions wsd's own operations may make, and the one-word state of a
  workstream. The lemmas show which transitions a run of checked moves can make (a bead
  runs only after a claim, a finished bead starts again only with a claim, every bead can
  still be closed) and what each workstream state means.
\<close>

section \<open>Enumerations\<close>

datatype BeadState = CLAIMING | STARTING | RUNNING | PARKING | PARKED | WAITING_INPUT
  | HELD | STUCK | RESUMING | DEFERRED | CLOSED | DROPPED

datatype Reason = CLAIM_UNCERTAIN | CLAIM_LOST | CLAIM_ABANDONED | UNCLAIMABLE
  | ROUTING_CHANGED | WORKTREE_FAILED | LAUNCH_FAILED | CRASH_LOOP | LAUNCH_UNCERTAIN
  | LAUNCH_UNRECORDED | STOP_UNCONFIRMED | JOURNAL_LOST | SESSION_DEAD
  | RUNTIME_UNAVAILABLE | PARK_FAILED | BLOCKED_ON_BEAD | WAITING_ON_OPERATOR
  | HELD_BY_OPERATOR | NEEDS_HUMAN | BEADS_UNREACHABLE | ACTIONS_UNRECONCILED
  | CONFIG_INVALID | UNEXPECTED_STATE | ACCOUNT_CHANGED | QUOTA | ACCOUNT_REPOINTED

datatype WsState = WsRUNNING | WsIDLE | WsALL_BLOCKED | WsPAUSED | WsHELD | WsSTUCK
  | WsDEFERRED

text \<open>The enumerations' string values, as the journal stores them.\<close>

fun bead_state_value :: "BeadState \<Rightarrow> string" where
  "bead_state_value CLAIMING = ''claiming''"
| "bead_state_value STARTING = ''starting''"
| "bead_state_value RUNNING = ''running''"
| "bead_state_value PARKING = ''parking''"
| "bead_state_value PARKED = ''parked''"
| "bead_state_value WAITING_INPUT = ''waiting_input''"
| "bead_state_value HELD = ''held''"
| "bead_state_value STUCK = ''stuck''"
| "bead_state_value RESUMING = ''resuming''"
| "bead_state_value DEFERRED = ''deferred''"
| "bead_state_value CLOSED = ''closed''"
| "bead_state_value DROPPED = ''dropped''"

fun reason_value :: "Reason \<Rightarrow> string" where
  "reason_value CLAIM_UNCERTAIN = ''claim_uncertain''"
| "reason_value CLAIM_LOST = ''claim_lost''"
| "reason_value CLAIM_ABANDONED = ''claim_abandoned''"
| "reason_value UNCLAIMABLE = ''unclaimable''"
| "reason_value ROUTING_CHANGED = ''routing_changed''"
| "reason_value WORKTREE_FAILED = ''worktree_failed''"
| "reason_value LAUNCH_FAILED = ''launch_failed''"
| "reason_value CRASH_LOOP = ''crash_loop''"
| "reason_value LAUNCH_UNCERTAIN = ''launch_uncertain''"
| "reason_value LAUNCH_UNRECORDED = ''launch_unrecorded''"
| "reason_value STOP_UNCONFIRMED = ''stop_unconfirmed''"
| "reason_value JOURNAL_LOST = ''journal_lost''"
| "reason_value SESSION_DEAD = ''session_dead''"
| "reason_value RUNTIME_UNAVAILABLE = ''runtime_unavailable''"
| "reason_value PARK_FAILED = ''park_failed''"
| "reason_value BLOCKED_ON_BEAD = ''blocked_on_bead''"
| "reason_value WAITING_ON_OPERATOR = ''waiting_on_operator''"
| "reason_value HELD_BY_OPERATOR = ''held_by_operator''"
| "reason_value NEEDS_HUMAN = ''needs_human''"
| "reason_value BEADS_UNREACHABLE = ''beads_unreachable''"
| "reason_value ACTIONS_UNRECONCILED = ''actions_unreconciled''"
| "reason_value CONFIG_INVALID = ''config_invalid''"
| "reason_value UNEXPECTED_STATE = ''unexpected_state''"
| "reason_value ACCOUNT_CHANGED = ''account_changed''"
| "reason_value QUOTA = ''quota''"
| "reason_value ACCOUNT_REPOINTED = ''account_repointed''"

fun ws_state_value :: "WsState \<Rightarrow> string" where
  "ws_state_value WsRUNNING = ''running''"
| "ws_state_value WsIDLE = ''idle''"
| "ws_state_value WsALL_BLOCKED = ''all_blocked''"
| "ws_state_value WsPAUSED = ''paused''"
| "ws_state_value WsHELD = ''held''"
| "ws_state_value WsSTUCK = ''stuck''"
| "ws_state_value WsDEFERRED = ''deferred''"

section \<open>State classes and the transition table\<close>

definition TERMINAL :: "BeadState set" where
  "TERMINAL = {CLOSED, DROPPED}"

definition ACTIVE :: "BeadState set" where
  "ACTIVE = {CLAIMING, STARTING, RUNNING, PARKING, RESUMING}"

definition WAITING :: "BeadState set" where
  "WAITING = {PARKED, WAITING_INPUT, HELD}"

definition PARKED_LIKE :: "BeadState set" where
  "PARKED_LIKE = WAITING \<union> {STUCK}"

fun ALLOWED :: "BeadState option \<Rightarrow> BeadState set" where
  "ALLOWED None = {CLAIMING}"
| "ALLOWED (Some CLAIMING) = {STARTING, DROPPED, STUCK, CLOSED}"
| "ALLOWED (Some STARTING) = {RUNNING, PARKING, STUCK, CLOSED, DEFERRED} \<union> WAITING"
| "ALLOWED (Some RUNNING) = {PARKING, RESUMING, STUCK, CLOSED}"
| "ALLOWED (Some PARKING) = {PARKED, WAITING_INPUT, HELD, STUCK, CLOSED, DEFERRED}"
| "ALLOWED (Some PARKED) = PARKED_LIKE \<union> {RESUMING, CLOSED, PARKING}"
| "ALLOWED (Some WAITING_INPUT) = PARKED_LIKE \<union> {RESUMING, CLOSED}"
| "ALLOWED (Some HELD) = PARKED_LIKE \<union> {RESUMING, CLOSED, DEFERRED}"
| "ALLOWED (Some RESUMING) =
     {RUNNING, PARKING, PARKED, WAITING_INPUT, HELD, STUCK, CLOSED, DEFERRED}"
| "ALLOWED (Some STUCK) = PARKED_LIKE \<union> {RESUMING, CLOSED, DEFERRED}"
| "ALLOWED (Some DEFERRED) = {PARKING, RESUMING, HELD, STUCK, CLOSED}"
| "ALLOWED (Some CLOSED) = {CLAIMING}"
| "ALLOWED (Some DROPPED) = {CLAIMING}"

definition allowed :: "BeadState option \<Rightarrow> BeadState \<Rightarrow> bool" where
  "allowed src dst \<longleftrightarrow> src = Some dst \<or> dst \<in> ALLOWED src"

datatype illegal_transition = IllegalTransition "BeadState option" BeadState

definition check :: "BeadState option \<Rightarrow> BeadState \<Rightarrow> illegal_transition + unit" where
  "check src dst = (if \<not> allowed src dst then Inl (IllegalTransition src dst) else Inr ())"

definition ws_state :: "bool \<Rightarrow> Reason list \<Rightarrow> BeadState list \<Rightarrow> bool \<Rightarrow> WsState" where
  "ws_state paused holds beads wake =
     (let states = set beads - TERMINAL in
      if set holds \<noteq> {} then WsHELD
      else if paused then WsPAUSED
      else if states \<inter> ACTIVE \<noteq> {} then WsRUNNING
      else if STUCK \<in> states then WsSTUCK
      else if states \<noteq> {} then
        (if wake \<or> states = {DEFERRED} then WsDEFERRED else WsALL_BLOCKED)
      else if wake then WsDEFERRED else WsIDLE)"

lemmas state_class_defs = TERMINAL_def ACTIVE_def WAITING_def PARKED_LIKE_def

section \<open>Properties of the transition table\<close>

lemma check_ok_iff: "check src dst = Inr () \<longleftrightarrow> allowed src dst"
  by (simp add: check_def)

lemma bead_state_value_inj: "bead_state_value a = bead_state_value b \<longleftrightarrow> a = b"
  by (cases a; cases b) simp_all

text \<open>
  The moves of a bead, oldest first, from no row at all: each is checked against the table, or an adoption
  (marked), which replaces the row without the table.
\<close>

fun moves_ok :: "BeadState option \<Rightarrow> (bool \<times> BeadState) list \<Rightarrow> bool" where
  "moves_ok src [] = True"
| "moves_ok src ((adopted, s) # ms) = ((adopted \<or> check src s = Inr ()) \<and> moves_ok (Some s) ms)"

definition reached :: "BeadState option \<Rightarrow> (bool \<times> BeadState) list \<Rightarrow> BeadState option" where
  "reached src ms = (if ms = [] then src else Some (snd (last ms)))"

lemma moves_ok_append: "moves_ok src (xs @ ys) \<longleftrightarrow> moves_ok src xs \<and> moves_ok (reached src xs) ys"
  by (induction xs arbitrary: src) (auto simp: reached_def)

lemma allowed_None: "allowed None s \<longleftrightarrow> s = CLAIMING"
  by (simp add: allowed_def)

lemma allowed_from_terminal:
  "t \<in> TERMINAL \<Longrightarrow> allowed (Some t) s \<longleftrightarrow> s = t \<or> s = CLAIMING"
  by (auto simp: allowed_def TERMINAL_def)

lemma allowed_to_running:
  "allowed src RUNNING \<longleftrightarrow> src = Some RUNNING \<or> src = Some STARTING \<or> src = Some RESUMING"
  by (cases src rule: ALLOWED.cases) (auto simp: allowed_def state_class_defs)

lemma allowed_to_starting:
  "allowed src STARTING \<longleftrightarrow> src = Some STARTING \<or> src = Some CLAIMING"
  by (cases src rule: ALLOWED.cases) (auto simp: allowed_def state_class_defs)

lemma allowed_to_claiming:
  "allowed src CLAIMING \<longleftrightarrow> src = None \<or> src = Some CLAIMING \<or> (\<exists>t \<in> TERMINAL. src = Some t)"
  by (cases src rule: ALLOWED.cases) (auto simp: allowed_def state_class_defs)

lemma allowed_closed:
  "s \<noteq> DROPPED \<Longrightarrow> allowed (Some s) CLOSED"
  by (cases s) (auto simp: allowed_def)

text \<open>Since its last terminal state (or ever), the bead has been claimed or taken over by an adoption.\<close>

fun entered_since :: "bool \<Rightarrow> (bool \<times> BeadState) list \<Rightarrow> bool" where
  "entered_since c [] = c"
| "entered_since c ((adopted, s) # ms) =
     entered_since (if s \<in> TERMINAL then False else if adopted \<or> s = CLAIMING then True else c) ms"

lemma entered_since_snoc:
  "entered_since c (ms @ [(adopted, s)]) =
     (if s \<in> TERMINAL then False else if adopted \<or> s = CLAIMING then True else entered_since c ms)"
  by (induction c ms rule: entered_since.induct) auto

lemma live_entered:
  assumes "moves_ok None ms" and "reached None ms = Some s" and "s \<notin> TERMINAL"
  shows "entered_since False ms"
  using assms
proof (induction ms arbitrary: s rule: rev_induct)
  case Nil
  then show ?case by (simp add: reached_def)
next
  case (snoc m ms)
  obtain adopted x where m: "m = (adopted, x)" by force
  from snoc.prems have run: "moves_ok None ms" and step: "adopted \<or> allowed (reached None ms) x" and x: "x \<notin> TERMINAL"
    by (simp_all add: moves_ok_append m check_ok_iff reached_def)
  show ?case
  proof (cases "adopted \<or> x = CLAIMING")
    case True
    with x show ?thesis by (simp add: m entered_since_snoc)
  next
    case False
    then obtain y where y: "reached None ms = Some y" "allowed (Some y) x"
      using step by (cases "reached None ms") (auto simp: allowed_None)
    then have "y \<notin> TERMINAL" using False x by (auto simp: allowed_from_terminal)
    from snoc.IH [OF run y(1) this] False x show ?thesis by (simp add: m entered_since_snoc)
  qed
qed

lemma running_entered:
  assumes "moves_ok None ms" and "reached None ms = Some RUNNING"
  shows "entered_since False ms"
    and "ms = as @ [(False, RUNNING)] \<Longrightarrow> reached None as \<in> {Some RUNNING, Some STARTING, Some RESUMING}"
proof -
  show "entered_since False ms" using live_entered [OF assms] by (simp add: TERMINAL_def)
  assume "ms = as @ [(False, RUNNING)]"
  then show "reached None as \<in> {Some RUNNING, Some STARTING, Some RESUMING}"
    using assms(1) by (simp add: moves_ok_append check_ok_iff allowed_to_running)
qed

section \<open>The workstream state\<close>

lemma ws_state_held_iff: "ws_state p h b w = WsHELD \<longleftrightarrow> h \<noteq> []"
  by (auto simp: ws_state_def Let_def)

lemma ws_state_idle_iff:
  "ws_state p h b w = WsIDLE \<longleftrightarrow> h = [] \<and> \<not> p \<and> \<not> w \<and> set b \<subseteq> TERMINAL"
  by (auto simp: ws_state_def Let_def)

lemma ws_state_running_iff:
  "ws_state p h b w = WsRUNNING \<longleftrightarrow> h = [] \<and> \<not> p \<and> (\<exists>s \<in> set b. s \<in> ACTIVE)"
  by (auto simp: ws_state_def Let_def state_class_defs)

lemma ws_state_stuck_iff:
  "ws_state p h b w = WsSTUCK \<longleftrightarrow>
     h = [] \<and> \<not> p \<and> (\<forall>s \<in> set b. s \<notin> ACTIVE) \<and> STUCK \<in> set b"
  by (auto simp: ws_state_def Let_def state_class_defs)

text \<open>What the one-word workstream state means, for each of its seven values: a hold wins
  over everything, then a pause; \<open>running\<close> means some bead is in an active state,
  \<open>stuck\<close> that nothing is active and some bead needs a human; \<open>idle\<close> is reported only
  when every bead is finished and no quota wake is armed; with beads only waiting, an armed
  wake or nothing but deferrals is \<open>deferred\<close>, anything else is \<open>all_blocked\<close>.
\<close>
theorem ws_state_meaning:
  "ws_state p h b w =
     (if h \<noteq> [] then WsHELD
      else if p then WsPAUSED
      else if \<exists>s \<in> set b. s \<in> ACTIVE then WsRUNNING
      else if STUCK \<in> set b then WsSTUCK
      else if set b \<subseteq> TERMINAL then (if w then WsDEFERRED else WsIDLE)
      else if w \<or> set b \<subseteq> insert DEFERRED TERMINAL then WsDEFERRED
      else WsALL_BLOCKED)"
proof -
  have "set b - TERMINAL = {DEFERRED} \<longleftrightarrow> set b \<subseteq> insert DEFERRED TERMINAL \<and> \<not> set b \<subseteq> TERMINAL"
    by auto
  moreover have "(set b - TERMINAL) \<inter> ACTIVE \<noteq> {} \<longleftrightarrow> (\<exists>s \<in> set b. s \<in> ACTIVE)"
    by (auto simp: state_class_defs)
  moreover have "STUCK \<in> set b - TERMINAL \<longleftrightarrow> STUCK \<in> set b"
    by (simp add: TERMINAL_def)
  ultimately show ?thesis
    by (simp add: ws_state_def Let_def)
qed

end
