(* ===== verification/Decimal.thy ===== *)
theory Decimal
  imports Prelude
begin

text \<open>
  Decimal text: Python's \<^verbatim>\<open>str(n)\<close> and \<^verbatim>\<open>int(s)\<close> on integers, and SQLite's
  \<^verbatim>\<open>CAST(value AS INTEGER)\<close>. The journal keeps times and counters as decimal text, so
  what it reads back depends on these. \<open>py_int\<close> covers ASCII text: Python also accepts
  other Unicode spaces and digits, which nothing in wsd ever writes. Its limit of 4300 digits
  is Python's default.
\<close>

section \<open>Printing\<close>

definition digit_char :: "nat \<Rightarrow> char" where
  "digit_char d = char_of (48 + d)"

definition digit_val :: "char \<Rightarrow> nat" where
  "digit_val c = of_char c - 48"

definition is_digit :: "char \<Rightarrow> bool" where
  "is_digit c \<longleftrightarrow> 48 \<le> (of_char c :: nat) \<and> (of_char c :: nat) \<le> 57"

fun show_nat :: "nat \<Rightarrow> string" where
  "show_nat n = (if n < 10 then [digit_char n] else show_nat (n div 10) @ [digit_char (n mod 10)])"

declare show_nat.simps [simp del]

definition show_int :: "int \<Rightarrow> string" where
  "show_int i = (if i < 0 then CHR ''-'' # show_nat (nat (- i)) else show_nat (nat i))"

section \<open>Reading\<close>

definition is_space :: "char \<Rightarrow> bool" where
  "is_space c \<longleftrightarrow> (let n = (of_char c :: nat) in n = 32 \<or> (9 \<le> n \<and> n \<le> 13) \<or> (28 \<le> n \<and> n \<le> 31))"

definition strip_spaces :: "string \<Rightarrow> string" where
  "strip_spaces s = rev (dropWhile is_space (rev (dropWhile is_space s)))"

text \<open>Digits with single underscores between them; the value and the number of digits.\<close>

fun read_digits :: "nat \<Rightarrow> nat \<Rightarrow> string \<Rightarrow> (nat \<times> nat) option" where
  "read_digits v n [] = (if n = 0 then None else Some (v, n))"
| "read_digits v n (c # cs) =
     (if is_digit c then read_digits (10 * v + digit_val c) (Suc n) cs
      else if c = CHR ''_'' \<and> n \<noteq> 0 \<and> cs \<noteq> [] \<and> is_digit (hd cs) then read_digits v n cs
      else None)"

definition read_nat :: "string \<Rightarrow> nat option" where
  "read_nat s = (case read_digits 0 0 s of
     None \<Rightarrow> None
   | Some (v, n) \<Rightarrow> if n \<le> 4300 then Some v else None)"

definition py_int :: "string \<Rightarrow> int option" where
  "py_int s = (case strip_spaces s of
     [] \<Rightarrow> None
   | c # cs \<Rightarrow>
       if c = CHR ''-'' then map_option (\<lambda>v. - int v) (read_nat cs)
       else if c = CHR ''+'' then map_option int (read_nat cs)
       else map_option int (read_nat (c # cs)))"

text \<open>SQLite: the longest integer prefix after leading spaces, 0 if there is none, kept in 64 bits.\<close>

fun digits_value :: "nat \<Rightarrow> string \<Rightarrow> nat" where
  "digits_value v [] = v"
| "digits_value v (c # cs) = (if is_digit c then digits_value (10 * v + digit_val c) cs else v)"

definition sqlite_max :: int where
  "sqlite_max = 9223372036854775807"

definition clamp64 :: "int \<Rightarrow> int" where
  "clamp64 i = max (- sqlite_max - 1) (min sqlite_max i)"

definition sqlite_space :: "char \<Rightarrow> bool" where
  "sqlite_space c \<longleftrightarrow> (let n = (of_char c :: nat) in n = 32 \<or> (9 \<le> n \<and> n \<le> 13))"

definition cast_integer :: "string \<Rightarrow> int" where
  "cast_integer s =
     (case dropWhile sqlite_space s of
        [] \<Rightarrow> 0
      | c # cs \<Rightarrow>
          if c = CHR ''-'' then clamp64 (- int (digits_value 0 cs))
          else if c = CHR ''+'' then clamp64 (int (digits_value 0 cs))
          else clamp64 (int (digits_value 0 (c # cs))))"

section \<open>Reading back what was printed\<close>

lemma of_char_digit_char [simp]: "d < 10 \<Longrightarrow> (of_char (digit_char d) :: nat) = 48 + d"
  by (simp add: digit_char_def)

lemma digit_char_props [simp]:
  assumes "d < 10"
  shows "is_digit (digit_char d)" and "digit_val (digit_char d) = d"
    and "\<not> is_space (digit_char d)"
  using assms by (simp_all add: is_digit_def digit_val_def is_space_def Let_def)

lemma is_digit_not_sign: "is_digit c \<Longrightarrow> c \<noteq> CHR ''-'' \<and> c \<noteq> CHR ''+'' \<and> c \<noteq> CHR '':'' \<and> \<not> is_space c"
  by (auto simp: is_digit_def is_space_def Let_def)

lemma show_nat_digits: "c \<in> set (show_nat n) \<Longrightarrow> is_digit c"
proof (induction n rule: show_nat.induct)
  case (1 n)
  then show ?case
    by (cases "n < 10") (auto simp: show_nat.simps [of n])
qed

lemma show_nat_nonempty [simp]: "show_nat n \<noteq> []"
  by (simp add: show_nat.simps [of n])

lemma read_digits_show:
  "read_digits v n (show_nat m @ cs) =
     read_digits (v * 10 ^ length (show_nat m) + m) (n + length (show_nat m)) cs"
proof (induction m arbitrary: v n cs rule: show_nat.induct)
  case (1 m)
  show ?case
  proof (cases "m < 10")
    case True
    then show ?thesis by (simp add: show_nat.simps [of m] mult.commute)
  next
    case False
    let ?k = "length (show_nat (m div 10))"
    have "10 * (v * 10 ^ ?k) = v * (10 * 10 ^ ?k)"
      by simp
    with False "1.IH" [OF False] show ?thesis
      by (simp add: show_nat.simps [of m] add.commute [of m] mult.left_commute)
  qed
qed

lemma digits_value_show:
  "(\<And>c. c \<in> set cs \<Longrightarrow> \<not> is_digit c) \<Longrightarrow>
   digits_value v (show_nat m @ cs) = v * 10 ^ length (show_nat m) + m"
proof (induction m arbitrary: v cs rule: show_nat.induct)
  case (1 m)
  have stop: "digits_value w cs = w" for w
    using "1.prems" by (cases cs) auto
  have aux: "(\<And>c. c \<in> set ds \<Longrightarrow> is_digit c) \<Longrightarrow>
      digits_value w (ds @ es) = digits_value (digits_value w ds) es" for w ds es
    by (induction ds arbitrary: w) auto
  show ?case
  proof (cases "m < 10")
    case True
    then show ?thesis by (simp add: show_nat.simps [of m] stop mult.commute)
  next
    case False
    have "digits_value v (show_nat (m div 10)) = v * 10 ^ length (show_nat (m div 10)) + m div 10"
      using "1.IH" [OF False, of "[]" v] by simp
    with False show ?thesis
      by (simp add: show_nat.simps [of m] aux show_nat_digits stop algebra_simps)
  qed
qed

lemma read_nat_show: "length (show_nat m) \<le> 4300 \<Longrightarrow> read_nat (show_nat m) = Some m"
  using read_digits_show [of 0 0 m "[]"] by (simp add: read_nat_def)

lemma strip_spaces_id:
  assumes "\<And>c. c \<in> set s \<Longrightarrow> \<not> is_space c"
  shows "strip_spaces s = s"
proof -
  have id: "dropWhile is_space t = t" if "\<And>c. c \<in> set t \<Longrightarrow> \<not> is_space c" for t
    using that by (cases t) auto
  have "dropWhile is_space (rev s) = rev s"
    by (rule id) (simp add: assms)
  with id [OF assms] show ?thesis by (simp add: strip_spaces_def)
qed

lemma show_int_no_space: "c \<in> set (show_int i) \<Longrightarrow> \<not> is_space c"
  by (auto simp: show_int_def is_space_def Let_def split: if_splits
      dest!: show_nat_digits [THEN is_digit_not_sign])

text \<open>The number of decimal digits of an integer, as Python's conversion limit counts them.\<close>

definition int_digits :: "int \<Rightarrow> nat" where
  "int_digits i = length (show_nat (nat \<bar>i\<bar>))"

lemma length_show_nat_le: "m < 10 ^ k \<Longrightarrow> 0 < k \<Longrightarrow> length (show_nat m) \<le> k"
proof (induction m arbitrary: k rule: show_nat.induct)
  case (1 m)
  show ?case
  proof (cases "m < 10")
    case True
    with "1.prems" show ?thesis by (simp add: show_nat.simps [of m])
  next
    case False
    with "1.prems" have "k \<noteq> 1" by auto
    with "1.prems" obtain k' where k: "k = Suc k'" and "0 < k'"
      by (cases k) auto
    with "1.prems" have "m div 10 < 10 ^ k'"
      by (simp add: less_mult_imp_div_less mult.commute)
    with "1.IH" [OF False] \<open>0 < k'\<close> k False show ?thesis
      by (simp add: show_nat.simps [of m])
  qed
qed

lemma int_digits_le: "\<bar>i\<bar> < 10 ^ k \<Longrightarrow> 0 < k \<Longrightarrow> int_digits i \<le> k"
  by (simp add: int_digits_def length_show_nat_le nat_less_iff)

theorem py_int_show_int:
  assumes "int_digits i \<le> 4300"
  shows "py_int (show_int i) = Some i"
proof -
  have s: "strip_spaces (show_int i) = show_int i"
    by (rule strip_spaces_id) (rule show_int_no_space)
  have r: "read_nat (show_nat (nat \<bar>i\<bar>)) = Some (nat \<bar>i\<bar>)"
    using assms by (simp add: read_nat_show int_digits_def)
  show ?thesis
  proof (cases "i < 0")
    case True
    with r s show ?thesis by (simp add: py_int_def show_int_def)
  next
    case False
    then obtain c cs where c: "show_nat (nat i) = c # cs"
      by (cases "show_nat (nat i)") auto
    then have "is_digit c" using show_nat_digits [of c "nat i"] by simp
    with c False r s show ?thesis
      by (auto simp: py_int_def show_int_def dest: is_digit_not_sign)
  qed
qed

lemma cast_integer_show_int:
  assumes "- sqlite_max - 1 \<le> i" and "i \<le> sqlite_max"
  shows "cast_integer (show_int i) = i"
proof -
  have clamp: "clamp64 i = i"
    using assms by (simp add: clamp64_def)
  have val: "digits_value 0 (show_nat m) = m" for m
    using digits_value_show [of "[]" 0 m] by simp
  show ?thesis
  proof (cases "i < 0")
    case True
    with val clamp show ?thesis
      by (simp add: cast_integer_def show_int_def sqlite_space_def)
  next
    case False
    then obtain c cs where c: "show_nat (nat i) = c # cs"
      by (cases "show_nat (nat i)") auto
    then have d: "is_digit c" using show_nat_digits [of c "nat i"] by simp
    then have "c \<noteq> CHR ''-''" "c \<noteq> CHR ''+''" "\<not> sqlite_space c"
      by (auto simp: is_digit_def sqlite_space_def Let_def)
    with c False val [of "nat i"] clamp show ?thesis
      by (simp add: cast_integer_def show_int_def)
  qed
qed

lemma show_nat_inj: "show_nat a = show_nat b \<Longrightarrow> a = b"
  using digits_value_show [of "[]" 0 a] digits_value_show [of "[]" 0 b] by simp

lemma show_int_inj: "show_int a = show_int b \<Longrightarrow> a = b"
proof -
  assume eq: "show_int a = show_int b"
  have minus: "CHR ''-'' \<notin> set (show_nat n)" for n
    by (auto dest: show_nat_digits [THEN is_digit_not_sign])
  have "CHR ''-'' \<in> set (show_int i) \<longleftrightarrow> i < 0" for i
    using minus by (simp add: show_int_def)
  with eq have sign: "a < 0 \<longleftrightarrow> b < 0" by metis
  show "a = b"
  proof (cases "a < 0")
    case True
    with eq sign have "nat (- a) = nat (- b)" by (auto simp: show_int_def intro: show_nat_inj)
    with True sign show ?thesis by simp
  next
    case False
    with eq sign have "nat a = nat b" by (auto simp: show_int_def intro: show_nat_inj)
    with False sign show ?thesis by simp
  qed
qed

lemma colon_notin_show_int [simp]: "CHR '':'' \<notin> set (show_int i)"
  by (auto simp: show_int_def split: if_splits dest: show_nat_digits [THEN is_digit_not_sign])

end
