(* ===== verification/Ids.thy ===== *)
theory Ids
  imports Decimal
begin

text \<open>
  Deterministic identities, \<^verbatim>\<open>wsd/ids.py\<close>: the slug and profile name rules, the names that
  are hashed into session identities, and the profile a bead's labels choose for a role.
  \<^verbatim>\<open>uuid.uuid5(NS, name)\<close> is the argument \<open>uuid5\<close>: with \<open>id\<close> in its place the functions give the
  names they hash, and the theorems are about those names.
\<close>

datatype bad_name = BadSlug string | BadProfile | ConflictingLabels string

section \<open>Name rules\<close>

definition lower_alnum :: "char \<Rightarrow> bool" where
  "lower_alnum c \<longleftrightarrow> (CHR ''a'' \<le> c \<and> c \<le> CHR ''z'') \<or> (CHR ''0'' \<le> c \<and> c \<le> CHR ''9'')"

definition alnum :: "char \<Rightarrow> bool" where
  "alnum c \<longleftrightarrow> lower_alnum c \<or> (CHR ''A'' \<le> c \<and> c \<le> CHR ''Z'')"

definition name_mark :: "char \<Rightarrow> bool" where
  "name_mark c \<longleftrightarrow> c = CHR ''.'' \<or> c = CHR ''_'' \<or> c = CHR ''-''"

fun is_slug :: "string \<Rightarrow> bool" where
  "is_slug [] = False"
| "is_slug (c # cs) \<longleftrightarrow> lower_alnum c \<and> list_all (\<lambda>d. lower_alnum d \<or> name_mark d) cs \<and> length cs \<le> 127"

fun is_profile :: "string \<Rightarrow> bool" where
  "is_profile [] = False"
| "is_profile (c # cs) \<longleftrightarrow> alnum c \<and> list_all (\<lambda>d. alnum d \<or> name_mark d) cs \<and> length cs \<le> 63"

definition slug :: "string \<Rightarrow> string \<Rightarrow> bad_name + string" where
  "slug value what = (if \<not> is_slug value then Inl (BadSlug what) else Inr value)"

section \<open>Session identities\<close>

definition ws_session :: "(string \<Rightarrow> string) \<Rightarrow> string \<Rightarrow> bad_name + string" where
  "ws_session uuid5 ws = bind_result (slug ws ''workstream'') (\<lambda>w. Inr (uuid5 w))"

definition bead_session :: "(string \<Rightarrow> string) \<Rightarrow> string \<Rightarrow> string \<Rightarrow> bad_name + string" where
  "bead_session uuid5 ws bead =
     bind_result (slug ws ''workstream'') (\<lambda>w.
     bind_result (slug bead ''bead'') (\<lambda>b.
     Inr (uuid5 (w @ '':'' @ b))))"

definition role_session ::
    "(string \<Rightarrow> string) \<Rightarrow> string \<Rightarrow> string \<Rightarrow> string \<Rightarrow> bad_name + string" where
  "role_session uuid5 bead role profile =
     (if \<not> is_profile profile then Inl BadProfile
      else bind_result (slug bead ''bead'') (\<lambda>b.
           bind_result (slug role ''role'') (\<lambda>r.
           Inr (uuid5 (b @ '':'' @ r @ '':'' @ profile)))))"

definition handoff_session :: "(string \<Rightarrow> string) \<Rightarrow> string \<Rightarrow> int \<Rightarrow> string" where
  "handoff_session uuid5 session_key generation =
     uuid5 (session_key @ '':'' @ show_int generation)"

section \<open>The profile of a bead\<close>

definition role_chosen :: "string list \<Rightarrow> string \<Rightarrow> string set" where
  "role_chosen labels role =
     (let prefix = ''role:'' @ role @ ''='' in
      set (map (drop (length prefix)) (filter (is_prefix_of prefix) labels)))"

definition profile_for :: "string list \<Rightarrow> string \<Rightarrow> string \<Rightarrow> bad_name + string" where
  "profile_for labels role dflt =
     (let prefix = ''role:'' @ role @ ''='';
          chosen = remdups (map (drop (length prefix)) (filter (is_prefix_of prefix) labels))
      in if 1 < length chosen then Inl (ConflictingLabels role)
         else let profile = (case chosen of [] \<Rightarrow> dflt | p # _ \<Rightarrow> p)
              in if \<not> is_profile profile then Inl BadProfile else Inr profile)"

section \<open>Names have no colon\<close>

lemma slug_no_colon: "is_slug s \<Longrightarrow> CHR '':'' \<notin> set s"
proof -
  have "\<not> (lower_alnum CHR '':'' \<or> name_mark CHR '':'')"
    by (simp add: lower_alnum_def name_mark_def less_eq_char_def)
  then show "is_slug s \<Longrightarrow> CHR '':'' \<notin> set s"
    by (cases s) (auto simp: list_all_iff)
qed

lemma profile_no_colon: "is_profile s \<Longrightarrow> CHR '':'' \<notin> set s"
proof -
  have "\<not> (alnum CHR '':'' \<or> name_mark CHR '':'')"
    by (simp add: alnum_def lower_alnum_def name_mark_def less_eq_char_def)
  then show "is_profile s \<Longrightarrow> CHR '':'' \<notin> set s"
    by (cases s) (auto simp: list_all_iff)
qed

lemma colon_split:
  assumes "a @ '':'' @ b = a' @ '':'' @ b'" and "CHR '':'' \<notin> set a" and "CHR '':'' \<notin> set a'"
  shows "a = a' \<and> b = b'"
proof -
  have "takeWhile (\<lambda>c. c \<noteq> CHR '':'') (x @ '':'' @ y) = x"
    if "CHR '':'' \<notin> set x" for x y
    using that by (induction x) auto
  with assms show ?thesis by (metis append_eq_append_conv append_Cons append_Nil same_append_eq)
qed

lemma colon_count: "CHR '':'' \<notin> set s \<Longrightarrow> count_list s CHR '':'' = 0"
  by (simp add: count_list_0_iff)

lemma slug_ok_iff: "slug v w = Inr x \<longleftrightarrow> is_slug v \<and> x = v"
  by (auto simp: slug_def)

lemma role_session_ok_iff:
  "role_session u b r p = Inr k \<longleftrightarrow>
     is_profile p \<and> is_slug b \<and> is_slug r \<and> k = u (b @ '':'' @ r @ '':'' @ p)"
  by (auto simp: role_session_def result_simps slug_ok_iff)

lemma bead_session_ok_iff:
  "bead_session u w b = Inr k \<longleftrightarrow> is_slug w \<and> is_slug b \<and> k = u (w @ '':'' @ b)"
  by (auto simp: bead_session_def result_simps slug_ok_iff)

lemma bead_session_inj:
  assumes "inj u" and "bead_session u w b = Inr k" and "bead_session u w' b' = Inr k"
  shows "w = w' \<and> b = b'"
proof -
  from assms have "w @ '':'' @ b = w' @ '':'' @ b'" and "is_slug w" "is_slug w'"
    by (auto simp: bead_session_ok_iff dest: injD)
  then show ?thesis by (intro colon_split) (auto dest: slug_no_colon)
qed

lemma role_session_inj:
  assumes "inj u" and "role_session u b r p = Inr k" and "role_session u b' r' p' = Inr k"
  shows "b = b' \<and> r = r' \<and> p = p'"
proof -
  from assms have eq: "b @ '':'' @ r @ '':'' @ p = b' @ '':'' @ r' @ '':'' @ p'"
    and sl: "is_slug b" "is_slug b'" "is_slug r" "is_slug r'"
    by (auto simp: role_session_ok_iff dest: injD)
  from colon_split [OF eq] sl have "b = b'" and rest: "r @ '':'' @ p = r' @ '':'' @ p'"
    by (auto dest: slug_no_colon)
  from colon_split [OF rest] sl have "r = r' \<and> p = p'"
    by (auto dest: slug_no_colon)
  with \<open>b = b'\<close> show ?thesis by simp
qed

lemma role_handoff_disjoint:
  assumes "inj u" and "role_session u b r p = Inr k" and "CHR '':'' \<notin> set s"
  shows "handoff_session u s g \<noteq> k"
proof
  assume "handoff_session u s g = k"
  with assms have eq: "s @ '':'' @ show_int g = b @ '':'' @ r @ '':'' @ p" and "is_slug b"
    by (auto simp: role_session_ok_iff handoff_session_def dest: injD)
  from colon_split [OF eq] assms(3) \<open>is_slug b\<close> have "show_int g = r @ '':'' @ p"
    by (auto dest: slug_no_colon)
  then have "CHR '':'' \<in> set (show_int g)" by simp
  then show False by simp
qed

lemma handoff_session_inj:
  assumes "inj u" and "CHR '':'' \<notin> set s" and "CHR '':'' \<notin> set s'"
    and "handoff_session u s g = handoff_session u s' g'"
  shows "s = s' \<and> g = g'"
proof -
  from assms have "s @ '':'' @ show_int g = s' @ '':'' @ show_int g'"
    by (auto simp: handoff_session_def dest: injD)
  from colon_split [OF this assms(2,3)] show ?thesis by (auto dest: show_int_inj)
qed

lemma ws_session_ok_iff: "ws_session u w = Inr k \<longleftrightarrow> is_slug w \<and> k = u w"
  by (auto simp: ws_session_def result_simps slug_ok_iff)

lemma sessions_hash_names:
  "ws_session u w = map_sum id u (ws_session id w)" "bead_session u w b = map_sum id u (bead_session id w b)"
  "role_session u b r p = map_sum id u (role_session id b r p)" "handoff_session u s g = u (handoff_session id s g)"
  by (auto simp: ws_session_def bead_session_def role_session_def handoff_session_def slug_def)

text \<open>A workstream's name has no colon, a bead's one and a role's two.\<close>

lemma colons_of_names:
  "ws_session id w = Inr n \<Longrightarrow> count_list n CHR '':'' = 0" "bead_session id w b = Inr n \<Longrightarrow> count_list n CHR '':'' = 1"
  "role_session id b r p = Inr n \<Longrightarrow> count_list n CHR '':'' = 2" "count_list (handoff_session id s g) CHR '':'' \<ge> 1"
  by (auto simp: ws_session_ok_iff bead_session_ok_iff role_session_ok_iff handoff_session_def colon_count
      slug_no_colon profile_no_colon)

lemma bead_handoff_name:
  assumes "CHR '':'' \<notin> set s"
  shows "bead_session id w b = Inr (handoff_session id s g) \<longleftrightarrow> is_slug w \<and> is_slug b \<and> w = s \<and> b = show_int g"
proof -
  have "s = w \<and> show_int g = b" if "is_slug w" "s @ '':'' @ show_int g = w @ '':'' @ b"
    by (rule colon_split [OF that(2) assms slug_no_colon [OF that(1)]])
  then show ?thesis by (auto simp: bead_session_ok_iff handoff_session_def)
qed

text \<open>
  C21. Every session identity is the hash of a name, and the names are as distinct as the sessions: two
  workstreams, two beads of workstreams, two roles of beads under profiles never share a name, nor do sessions
  of different kinds among these three. The name of a handoff from a session whose key has no colon (every
  UUID) is that of no other handoff, of no role and of no workstream; it is a bead's name exactly when the
  workstream is called by that session key and the bead by that generation.
\<close>
theorem session_names_unique:
  "ws_session uuid5 w = map_sum id uuid5 (ws_session id w) \<and> bead_session uuid5 w b = map_sum id uuid5 (bead_session id w b) \<and>
   role_session uuid5 b r p = map_sum id uuid5 (role_session id b r p) \<and> handoff_session uuid5 s g = uuid5 (handoff_session id s g) \<and>
   (ws_session id w = Inr n \<longrightarrow> ws_session id w' = Inr n \<longrightarrow> w = w') \<and>
   (bead_session id w b = Inr n \<longrightarrow> bead_session id w' b' = Inr n \<longrightarrow> (w, b) = (w', b')) \<and>
   (role_session id b r p = Inr n \<longrightarrow> role_session id b' r' p' = Inr n \<longrightarrow> (b, r, p) = (b', r', p')) \<and>
   (ws_session id w = Inr n \<longrightarrow> bead_session id w' b' \<noteq> Inr n \<and> role_session id b' r' p' \<noteq> Inr n \<and> handoff_session id s g \<noteq> n) \<and>
   (bead_session id w b = Inr n \<longrightarrow> role_session id b' r' p' \<noteq> Inr n) \<and>
   (CHR '':'' \<notin> set s \<longrightarrow> role_session id b r p \<noteq> Inr (handoff_session id s g) \<and>
      (bead_session id w b = Inr (handoff_session id s g) \<longleftrightarrow> is_slug w \<and> is_slug b \<and> w = s \<and> b = show_int g)) \<and>
   (CHR '':'' \<notin> set s \<longrightarrow> CHR '':'' \<notin> set s' \<longrightarrow> handoff_session id s g = handoff_session id s' g' \<longrightarrow> s = s' \<and> g = g')"
proof -
  have kinds: "bead_session id w' b' \<noteq> Inr n \<and> role_session id b' r' p' \<noteq> Inr n \<and> handoff_session id s g \<noteq> n" if "ws_session id w = Inr n"
    using colons_of_names(1) [OF that] colons_of_names(2) [of w' b' n] colons_of_names(3) [of b' r' p' n] colons_of_names(4) [of s g] by auto
  have roles: "role_session id b' r' p' \<noteq> Inr n" if "bead_session id w b = Inr n"
    using colons_of_names(2) [OF that] colons_of_names(3) [of b' r' p' n] by auto
  have handoff: "role_session id b r p \<noteq> Inr (handoff_session id s g)" if "CHR '':'' \<notin> set s"
    using role_handoff_disjoint [OF inj_on_id _ that] by blast
  show ?thesis
    using bead_session_inj [OF inj_on_id, of w b n w' b'] role_session_inj [OF inj_on_id, of b r p n b' r' p']
      handoff_session_inj [OF inj_on_id, of s s' g g'] kinds roles handoff bead_handoff_name [of s w b g]
    by (intro conjI sessions_hash_names) (auto simp: ws_session_ok_iff)
qed

theorem session_names_unique_witness:
  "role_session id ''b1'' ''coder'' ''P'' = Inr ''b1:coder:P'' \<and> bead_session id ''ws'' ''b1'' = Inr ''ws:b1'' \<and>
   ws_session id ''ws'' = Inr ''ws'' \<and> handoff_session id ''k'' 2 = ''k:2'' \<and>
   role_session id ''b1'' ''coder'' ''P'' \<noteq> Inr (handoff_session id ''k'' 2) \<and>
   bead_session id ''ws'' ''b1'' \<noteq> Inr (handoff_session id ''k'' 2) \<and> bead_session id ''k'' ''2'' = Inr (handoff_session id ''k'' 2)"
proof -
  have n: "show_int 2 = ''2''" by code_simp
  have "is_slug ''b1''" "is_slug ''coder''" "is_profile ''P''" "is_slug ''ws''" "is_slug ''k''" "is_slug ''2''"
    by (simp_all add: alnum_def lower_alnum_def less_eq_char_def)
  moreover have "CHR '':'' \<notin> set ''k''" by simp
  ultimately show ?thesis
    using session_names_unique [of id "''ws''" "''b1''" "''coder''" "''P''" "''k''" 2]
      session_names_unique [of id "''k''" "''2''" "''coder''" "''P''" "''k''" 2]
    by (simp add: role_session_ok_iff bead_session_ok_iff ws_session_ok_iff handoff_session_def n)
qed

section \<open>Choosing a profile\<close>

lemma role_chosen_eq:
  "set (remdups (map (drop (length (''role:'' @ role @ ''=''))) 
        (filter (is_prefix_of (''role:'' @ role @ ''='')) labels))) = role_chosen labels role"
  by (simp add: role_chosen_def)

lemma profile_for_perm:
  assumes "set labels = set labels'"
  shows "role_chosen labels role = role_chosen labels' role"
  using assms by (auto simp: role_chosen_def Let_def)

lemma remdups_length_card: "length (remdups xs) = card (set xs)"
  by (simp add: length_remdups_card_conv)

text \<open>
  The profile of a role depends only on the set of labels, never on their order or on
  repeats: with two different overrides for the role it is refused, with exactly one override
  that override (validated) is the answer, with none the configured default is.
\<close>
theorem profile_for_spec:
  "profile_for labels role dflt =
     (if 1 < card (role_chosen labels role) then Inl (ConflictingLabels role)
      else if role_chosen labels role = {} then
        (if is_profile dflt then Inr dflt else Inl BadProfile)
      else if is_profile (the_elem (role_chosen labels role))
        then Inr (the_elem (role_chosen labels role)) else Inl BadProfile)"
proof -
  define xs where "xs = map (drop (length (''role:'' @ role @ ''='')))
    (filter (is_prefix_of (''role:'' @ role @ ''='')) labels)"
  have set: "role_chosen labels role = set xs"
    by (simp add: role_chosen_def xs_def Let_def)
  have pf: "profile_for labels role dflt =
     (if 1 < length (remdups xs) then Inl (ConflictingLabels role)
      else let profile = (case remdups xs of [] \<Rightarrow> dflt | p # _ \<Rightarrow> p)
           in if \<not> is_profile profile then Inl BadProfile else Inr profile)"
    by (simp add: profile_for_def xs_def Let_def)
  consider "xs = []" | p where "remdups xs = [p]" | "1 < length (remdups xs)"
    by (cases "remdups xs" rule: remdups_adj.cases) auto
  then show ?thesis
  proof cases
    case 1
    then show ?thesis by (simp add: pf set)
  next
    case (2 p)
    then have "set xs = {p}" by (metis empty_set list.simps(15) set_remdups)
    with 2 show ?thesis by (simp add: pf set)
  next
    case 3
    then show ?thesis by (simp add: pf set remdups_length_card)
  qed
qed

end
