(* ===== verification/Launches.thy ===== *)
theory Launches
  imports Prelude
begin

text \<open>
  Launch entries and receipts, \<^verbatim>\<open>wsd/launches.py\<close>: one entry per launched generation, never
  changed except that each set-once field may be filled while it is empty; the copy of the
  entries kept in a bead's metadata; and the receipt of a dispatched launch. The JSON codec
  (\<^verbatim>\<open>msgspec\<close>) is an argument of the functions that use it.
\<close>

section \<open>Entries\<close>

record launch_entry =
  le_session_key :: session_key
  le_generation :: generation
  le_ws :: ws_name
  le_bead :: bead_id
  le_role :: string
  le_profile :: string
  le_account :: string
  le_credential_key :: string
  le_model_passed :: string
  le_adopted :: bool
  le_journaled_at :: timestamp
  le_dispatched_at :: "string option"
  le_native_id :: "string option"
  le_model_reported :: "string option"
  le_outcome :: "string option"
  le_install :: string
  le_install_digest :: string

definition LAUNCHED :: string where "LAUNCHED = ''launched''"
definition ABANDONED :: string where "ABANDONED = ''abandoned''"

definition MAX_GENERATION :: int where
  "MAX_GENERATION = 2 ^ 63 - 1"

datatype set_once = F_dispatched_at | F_native_id | F_model_reported | F_outcome

definition SET_ONCE :: "set_once list" where
  "SET_ONCE = [F_dispatched_at, F_native_id, F_model_reported, F_outcome]"

definition set_once_of :: "string \<Rightarrow> set_once option" where
  "set_once_of name =
     (if name = ''dispatched_at'' then Some F_dispatched_at
      else if name = ''native_id'' then Some F_native_id
      else if name = ''model_reported'' then Some F_model_reported
      else if name = ''outcome'' then Some F_outcome
      else None)"

fun get_once :: "set_once \<Rightarrow> launch_entry \<Rightarrow> string option" where
  "get_once F_dispatched_at e = le_dispatched_at e"
| "get_once F_native_id e = le_native_id e"
| "get_once F_model_reported e = le_model_reported e"
| "get_once F_outcome e = le_outcome e"

fun put_once :: "set_once \<Rightarrow> string \<Rightarrow> launch_entry \<Rightarrow> launch_entry" where
  "put_once F_dispatched_at v e = e\<lparr>le_dispatched_at := Some v\<rparr>"
| "put_once F_native_id v e = e\<lparr>le_native_id := Some v\<rparr>"
| "put_once F_model_reported v e = e\<lparr>le_model_reported := Some v\<rparr>"
| "put_once F_outcome v e = e\<lparr>le_outcome := Some v\<rparr>"

text \<open>\<^verbatim>\<open>__post_init__\<close>: an entry pins both an install and its digest, or neither.\<close>

definition launch_entry_ok :: "launch_entry \<Rightarrow> bool" where
  "launch_entry_ok e \<longleftrightarrow> (le_install e \<noteq> []) = (le_install_digest e \<noteq> [])"

definition ident :: "launch_entry \<Rightarrow> session_key \<times> generation" where
  "ident e = (le_session_key e, le_generation e)"

text \<open>\<^verbatim>\<open>mergeable\<close> walks the struct's fields in order; equal values pass, and so does a
  set-once field that is still empty in \<open>current\<close>.\<close>

definition mergeable :: "launch_entry \<Rightarrow> launch_entry \<Rightarrow> bool" where
  "mergeable current wanted \<longleftrightarrow>
     le_session_key current = le_session_key wanted \<and>
     le_generation current = le_generation wanted \<and>
     le_ws current = le_ws wanted \<and>
     le_bead current = le_bead wanted \<and>
     le_role current = le_role wanted \<and>
     le_profile current = le_profile wanted \<and>
     le_account current = le_account wanted \<and>
     le_credential_key current = le_credential_key wanted \<and>
     le_model_passed current = le_model_passed wanted \<and>
     le_adopted current = le_adopted wanted \<and>
     le_journaled_at current = le_journaled_at wanted \<and>
     list_all (\<lambda>f. get_once f current = get_once f wanted \<or> get_once f current = None) SET_ONCE \<and>
     le_install current = le_install wanted \<and>
     le_install_digest current = le_install_digest wanted"

section \<open>The bead copy\<close>

datatype launches_unreadable = NotAString | DoesNotParse | DuplicateGeneration

record bead_launches =
  bl_raw :: "string list"
  bl_entries :: "launch_entry list"

fun find_from :: "nat \<Rightarrow> session_key \<times> generation \<Rightarrow> launch_entry list \<Rightarrow> nat option" where
  "find_from i k [] = None"
| "find_from i k (e # es) = (if ident e = k then Some i else find_from (Suc i) k es)"

definition find_launch :: "bead_launches \<Rightarrow> session_key \<times> generation \<Rightarrow> nat option" where
  "find_launch bl k = find_from 0 k (bl_entries bl)"

fun join_comma :: "string list \<Rightarrow> string" where
  "join_comma [] = []"
| "join_comma [r] = r"
| "join_comma (r # rs) = r @ '','' @ join_comma rs"

definition with_entry_raw :: "(launch_entry \<Rightarrow> string) \<Rightarrow> bead_launches \<Rightarrow> launch_entry \<Rightarrow> string list" where
  "with_entry_raw encode bl e =
     (case find_launch bl (ident e) of
        None \<Rightarrow> bl_raw bl @ [encode e]
      | Some i \<Rightarrow> (bl_raw bl)[i := encode e])"

definition with_entry :: "(launch_entry \<Rightarrow> string) \<Rightarrow> bead_launches \<Rightarrow> launch_entry \<Rightarrow> string" where
  "with_entry encode bl e = ''['' @ join_comma (with_entry_raw encode bl e) @ '']''"

text \<open>
  \<open>decode_raws\<close> is \<^verbatim>\<open>Decoder(list[Raw])\<close> and \<open>decode_entry\<close> is \<^verbatim>\<open>Decoder(LaunchEntry)\<close>,
  which refuses unknown fields, generations out of range and half a pin. The metadata value is
  absent, a string, or something else.
\<close>

datatype metadata_value = Absent | MetaStr string | MetaOther

definition decode_launches ::
    "(string \<Rightarrow> string list option) \<Rightarrow> (string \<Rightarrow> launch_entry option) \<Rightarrow> metadata_value \<Rightarrow>
     launches_unreadable + bead_launches" where
  "decode_launches decode_raws decode_entry value =
     (case value of
        Absent \<Rightarrow> Inr \<lparr>bl_raw = [], bl_entries = []\<rparr>
      | MetaOther \<Rightarrow> Inl NotAString
      | MetaStr s \<Rightarrow>
          (case decode_raws s of
             None \<Rightarrow> Inl DoesNotParse
           | Some raws \<Rightarrow>
               (case those (map decode_entry raws) of
                  None \<Rightarrow> Inl DoesNotParse
                | Some entries \<Rightarrow>
                    if distinct (map ident entries)
                    then Inr \<lparr>bl_raw = raws, bl_entries = entries\<rparr>
                    else Inl DuplicateGeneration)))"

section \<open>Receipts\<close>

record receipt =
  rc_session_key :: session_key
  rc_generation :: generation
  rc_kind :: string
  rc_refusal :: "string option"
  rc_tmux_session :: "string option"
  rc_tmux_pane :: "string option"
  rc_pane_pid :: "int option"
  rc_native_id :: "string option"
  rc_error :: "string option"

section \<open>Merging is a partial order\<close>

lemma get_put_once [simp]:
  "get_once f (put_once f v e) = Some v"
  "g \<noteq> f \<Longrightarrow> get_once g (put_once f v e) = get_once g e"
  by (cases f; simp) (cases f; cases g; simp)

lemma set_once_all: "f \<in> set SET_ONCE"
  by (cases f) (simp_all add: SET_ONCE_def)

lemma mergeable_refl [simp]: "mergeable e e"
  by (simp add: mergeable_def list_all_iff)

lemma mergeable_trans: "mergeable a b \<Longrightarrow> mergeable b c \<Longrightarrow> mergeable a c"
  unfolding mergeable_def list_all_iff by metis

lemma mergeable_antisym: "mergeable a b \<Longrightarrow> mergeable b a \<Longrightarrow> a = b"
  by (cases a; cases b) (auto simp: mergeable_def SET_ONCE_def)

lemma mergeable_ident: "mergeable a b \<Longrightarrow> ident a = ident b"
  by (simp add: mergeable_def ident_def)

lemma mergeable_get: "mergeable a b \<Longrightarrow> get_once f a = Some v \<Longrightarrow> get_once f b = Some v"
  using set_once_all [of f] by (auto simp: mergeable_def list_all_iff)

lemma mergeable_put:
  assumes "get_once f e = None"
  shows "mergeable e (put_once f v e)"
  using assms by (cases f) (simp_all add: mergeable_def SET_ONCE_def)

lemma ident_put_once [simp]: "ident (put_once f v e) = ident e"
  by (cases f) (simp_all add: ident_def)

lemma put_once_same: "get_once f e = Some v \<Longrightarrow> put_once f v e = e"
  by (cases f) simp_all

section \<open>Rewriting the bead copy\<close>

lemma find_from_Some:
  "find_from i k es = Some j \<Longrightarrow> i \<le> j \<and> j - i < length es \<and> ident (es ! (j - i)) = k"
proof (induction i k es rule: find_from.induct)
  case (2 i k e es)
  show ?case
  proof (cases "ident e = k")
    case False
    with 2 have "Suc i \<le> j \<and> j - Suc i < length es \<and> ident (es ! (j - Suc i)) = k" by simp
    moreover from this have "j - i = Suc (j - Suc i)" by arith
    ultimately show ?thesis by simp
  qed (use 2 in simp)
qed simp

lemma find_from_None: "find_from i k es = None \<longleftrightarrow> k \<notin> ident ` set es"
  by (induction i k es rule: find_from.induct) auto

lemma find_launch_Some:
  assumes "find_launch bl k = Some i"
  shows "i < length (bl_entries bl)" and "ident (bl_entries bl ! i) = k"
  using find_from_Some [of 0 k "bl_entries bl" i] assms by (simp_all add: find_launch_def)

lemma those_append: "those (xs @ ys) =
    (case those xs of None \<Rightarrow> None | Some a \<Rightarrow> map_option (\<lambda>b. a @ b) (those ys))"
  by (cases "those ys"; induction xs) (auto split: option.splits)

lemma those_length: "those xs = Some ys \<Longrightarrow> length ys = length xs"
  by (induction xs arbitrary: ys) (auto split: option.splits)

lemma those_update:
  "those xs = Some ys \<Longrightarrow> i < length xs \<Longrightarrow> those (xs[i := Some y]) = Some (ys[i := y])"
  by (induction xs arbitrary: ys i) (auto split: option.splits nat.splits)

lemma distinct_ident_update:
  assumes "distinct (map ident es)" and "i < length es" and "ident e = ident (es ! i)"
  shows "distinct (map ident (es[i := e]))"
proof -
  have "map ident (es[i := e]) = map ident es"
    using assms by (metis list_update_id map_update nth_map)
  with assms(1) show ?thesis by simp
qed

text \<open>The entries the rewritten copy should hold.\<close>

definition with_entry_entries :: "bead_launches \<Rightarrow> launch_entry \<Rightarrow> launch_entry list" where
  "with_entry_entries bl e =
     (case find_launch bl (ident e) of
        None \<Rightarrow> bl_entries bl @ [e]
      | Some i \<Rightarrow> (bl_entries bl)[i := e])"

lemma with_entry_entries_distinct:
  assumes "distinct (map ident (bl_entries bl))"
  shows "distinct (map ident (with_entry_entries bl e))"
proof (cases "find_launch bl (ident e)")
  case None
  then have "ident e \<notin> ident ` set (bl_entries bl)"
    by (simp add: find_launch_def find_from_None)
  with assms None show ?thesis
    by (simp add: with_entry_entries_def)
next
  case (Some i)
  from find_launch_Some [OF Some] assms Some show ?thesis
    by (simp add: with_entry_entries_def distinct_ident_update)
qed

lemma decode_launches_ok:
  "decode_launches dr de (MetaStr s) = Inr bl \<longleftrightarrow>
     dr s = Some (bl_raw bl) \<and> those (map de (bl_raw bl)) = Some (bl_entries bl) \<and>
     distinct (map ident (bl_entries bl))"
  by (cases bl) (auto simp: decode_launches_def split: option.splits if_splits)

lemma those_with_entry:
  assumes "those (map de (bl_raw bl)) = Some (bl_entries bl)" and "de (enc e) = Some e"
  shows "those (map de (with_entry_raw enc bl e)) = Some (with_entry_entries bl e)"
proof (cases "find_launch bl (ident e)")
  case None
  with assms show ?thesis
    by (simp add: with_entry_raw_def with_entry_entries_def those_append)
next
  case (Some i)
  from those_length [OF assms(1)] find_launch_Some(1) [OF Some] have "i < length (map de (bl_raw bl))"
    by simp
  from those_update [OF assms(1) this, of e] assms(2) Some show ?thesis
    by (simp add: with_entry_raw_def with_entry_entries_def map_update)
qed

lemma join_comma_Cons: "join_comma (r # rs) = r @ concat (map (\<lambda>x. CHR '','' # x) rs)"
  by (induction rs arbitrary: r) auto

lemma with_entry_entries_kept:
  assumes "x \<in> set (bl_entries bl)" and "ident x \<noteq> ident e"
  shows "x \<in> set (with_entry_entries bl e)"
proof (cases "find_launch bl (ident e)")
  case (Some i)
  from assms(1) obtain j where j: "j < length (bl_entries bl)" "bl_entries bl ! j = x"
    by (auto simp: in_set_conv_nth)
  with find_launch_Some [OF Some] assms(2) have "i \<noteq> j" by auto
  with j have "(bl_entries bl)[i := e] ! j = x" by simp
  with j Some show ?thesis
    by (metis length_list_update nth_mem option.simps(5) with_entry_entries_def)
qed (use assms in \<open>simp add: with_entry_entries_def\<close>)

lemma with_entry_entries_has: "e \<in> set (with_entry_entries bl e)"
  using find_launch_Some(1) [of bl "ident e"]
  by (auto simp: with_entry_entries_def set_update_memI split: option.splits)

lemma with_entry_raw_kept:
  assumes "i < length (bl_raw bl)" and "length (bl_raw bl) = length (bl_entries bl)" and "ident (bl_entries bl ! i) \<noteq> ident e"
  shows "with_entry_raw encode bl e ! i = bl_raw bl ! i"
  using assms find_launch_Some [of bl "ident e"]
  by (auto simp: with_entry_raw_def nth_append nth_list_update split: option.split)

lemma with_entry_raw_values:
  "list_all json_value (bl_raw bl) \<Longrightarrow> json_value (encode e) \<Longrightarrow> list_all json_value (with_entry_raw encode bl e)"
  using set_update_subset_insert [of "bl_raw bl" _ "encode e"]
  by (force simp: with_entry_raw_def list_all_iff split: option.split)

lemma with_entry_raw_nonempty: "length (bl_raw bl) = length (bl_entries bl) \<Longrightarrow> with_entry_raw encode bl e \<noteq> []"
  using find_launch_Some(1) [of bl "ident e"] by (auto simp: with_entry_raw_def split: option.split)

text \<open>
  C20. Writing an entry to the bead copy and reading the written text back gives exactly the old
  entries with this one appended, or put in place of the entry of the same generation; every
  other entry keeps its bytes, and no generation appears twice. Of the JSON library: an array read
  as raw values gives texts of JSON values, the values of a text that lists some in brackets,
  separated by commas, are those, and the encoded entry is a JSON value that decodes to the entry.
\<close>
theorem with_entry_roundtrip:
  assumes old: "decode_launches decode_raws decode_entry (MetaStr s) = Inr bl"
    and raws: "\<And>x rs. decode_raws x = Some rs \<Longrightarrow> list_all json_value rs"
    and array: "\<And>r rs. list_all json_value (r # rs) \<Longrightarrow>
      decode_raws (''['' @ r @ concat (map (\<lambda>x. CHR '','' # x) rs) @ '']'') = Some (r # rs)"
    and entry: "json_value (encode e)" "decode_entry (encode e) = Some e"
  shows "(\<exists>bl'. decode_launches decode_raws decode_entry (MetaStr (with_entry encode bl e)) = Inr bl' \<and>
           bl_entries bl' = with_entry_entries bl e \<and>
           (\<forall>i < length (bl_raw bl). ident (bl_entries bl ! i) \<noteq> ident e \<longrightarrow> bl_raw bl' ! i = bl_raw bl ! i))
       \<and> distinct (map ident (with_entry_entries bl e))
       \<and> (\<forall>x \<in> set (bl_entries bl). ident x \<noteq> ident e \<longrightarrow> x \<in> set (with_entry_entries bl e))
       \<and> e \<in> set (with_entry_entries bl e)"
proof -
  from old have those: "those (map decode_entry (bl_raw bl)) = Some (bl_entries bl)"
    and dist: "distinct (map ident (bl_entries bl))" and json: "list_all json_value (bl_raw bl)"
    by (auto simp: decode_launches_ok dest: raws)
  have len: "length (bl_raw bl) = length (bl_entries bl)" using those_length [OF those] by simp
  obtain r rs where r: "with_entry_raw encode bl e = r # rs"
    using with_entry_raw_nonempty [OF len] by (cases "with_entry_raw encode bl e") auto
  have "decode_raws (with_entry encode bl e) = Some (with_entry_raw encode bl e)"
    using array [of r rs] with_entry_raw_values [OF json, of encode e] entry(1)
    unfolding with_entry_def r join_comma_Cons by simp
  then have "decode_launches decode_raws decode_entry (MetaStr (with_entry encode bl e)) =
      Inr \<lparr>bl_raw = with_entry_raw encode bl e, bl_entries = with_entry_entries bl e\<rparr>"
    using those_with_entry [where enc = encode, OF those entry(2)] with_entry_entries_distinct [OF dist, of e]
    by (simp add: decode_launches_ok)
  then show ?thesis
    using with_entry_entries_distinct [OF dist] with_entry_entries_kept with_entry_entries_has with_entry_raw_kept [OF _ len]
    by auto
qed

definition example_entry :: "generation \<Rightarrow> launch_entry" where
  "example_entry g = \<lparr>le_session_key = ''k'', le_generation = g, le_ws = ''w'', le_bead = ''b'',
     le_role = ''coder'', le_profile = ''p'', le_account = ''default'', le_credential_key = ''c'',
     le_model_passed = ''m'', le_adopted = False, le_journaled_at = ''t'', le_dispatched_at = None,
     le_native_id = None, le_model_reported = None, le_outcome = None, le_install = [],
     le_install_digest = []\<rparr>"

text \<open>A codec of one-character values, for an example.\<close>

definition char_value :: "string \<Rightarrow> bool" where
  "char_value r \<longleftrightarrow> length r = 1"

fun chars_body :: "string \<Rightarrow> string list option" where
  "chars_body [c, d] = (if d = CHR '']'' then Some [[c]] else None)"
| "chars_body (c # d # cs) = (if d = CHR '','' then map_option (\<lambda>rs. [c] # rs) (chars_body cs) else None)"
| "chars_body cs = None"

definition chars_raws :: "string \<Rightarrow> string list option" where
  "chars_raws s = (if take 1 s = ''['' then chars_body (drop 1 s) else None)"

lemma chars_body_values: "chars_body s = Some rs \<Longrightarrow> list_all char_value rs"
  by (induction s arbitrary: rs rule: chars_body.induct) (auto simp: char_value_def split: if_split_asm)

lemma chars_body_array: "list_all char_value (r # rs) \<Longrightarrow>
    chars_body (r @ concat (map (\<lambda>x. CHR '','' # x) rs) @ '']'') = Some (r # rs)"
proof (induction rs arbitrary: r)
  case (Cons x rs)
  obtain c d where c: "r = [c]" "x = [d]" using Cons.prems by (auto simp: char_value_def length_Suc_conv)
  have "chars_body (x @ concat (map (\<lambda>x. CHR '','' # x) rs) @ '']'') = Some (x # rs)" using Cons by simp
  then show ?case by (cases rs) (simp_all add: c)
qed (auto simp: char_value_def length_Suc_conv)

theorem with_entry_roundtrip_witness:
  "let de = (\<lambda>r. if r = ''1'' then Some (example_entry 1) else Some (example_entry 2));
       bl = \<lparr>bl_raw = [''1''], bl_entries = [example_entry 1]\<rparr>
   in decode_launches chars_raws de (MetaStr ''[1]'') = Inr bl
      \<and> (\<exists>bl'. decode_launches chars_raws de (MetaStr (with_entry (\<lambda>_. ''2'') bl (example_entry 2))) = Inr bl' \<and>
           bl_entries bl' = [example_entry 1, example_entry 2])"
proof -
  let ?de = "\<lambda>r. if r = ''1'' then Some (example_entry 1) else Some (example_entry 2)"
  let ?bl = "\<lparr>bl_raw = [''1''], bl_entries = [example_entry 1]\<rparr>"
  have old: "decode_launches chars_raws ?de (MetaStr ''[1]'') = Inr ?bl"
    by (simp add: decode_launches_def chars_raws_def)
  have vals: "list_all char_value rs" if "chars_raws x = Some rs" for x rs
    using that chars_body_values by (auto simp: chars_raws_def split: if_split_asm)
  have array: "chars_raws (''['' @ r @ concat (map (\<lambda>x. CHR '','' # x) rs) @ '']'') = Some (r # rs)"
    if "list_all char_value (r # rs)" for r rs
    using chars_body_array [OF that] by (simp add: chars_raws_def)
  have "\<exists>bl'. decode_launches chars_raws ?de (MetaStr (with_entry (\<lambda>_. ''2'') ?bl (example_entry 2))) = Inr bl' \<and>
      bl_entries bl' = with_entry_entries ?bl (example_entry 2) \<and>
      (\<forall>i < length (bl_raw ?bl). ident (bl_entries ?bl ! i) \<noteq> ident (example_entry 2) \<longrightarrow> bl_raw bl' ! i = bl_raw ?bl ! i)"
  proof (rule with_entry_roundtrip [where json_value = char_value, OF old, THEN conjunct1])
    show "char_value ''2''" "?de ''2'' = Some (example_entry 2)" by (simp_all add: char_value_def)
  qed (fact vals array)+
  moreover have "with_entry_entries ?bl (example_entry 2) = [example_entry 1, example_entry 2]"
    by (simp add: with_entry_entries_def find_launch_def ident_def example_entry_def)
  ultimately show ?thesis using old by (auto simp: Let_def)
qed

end
