(* ===== verification/Accounts.thy ===== *)
theory Accounts
  imports Prelude
begin

text \<open>
  Account capabilities (\<^verbatim>\<open>config/capabilities.py\<close>) and the launch guard's view of accounts
  (\<^verbatim>\<open>wsd/accounts.py\<close>). The credential key of a login is read from the file system when it is
  asked for; here it is the argument \<open>login_key\<close>, from the account's name, its adapter and its
  configured directory to the key or a path-free configuration error.
\<close>

section \<open>Capabilities\<close>

record capabilities =
  login_binding :: bool
  cross_account_resume :: bool
  in_session_usage :: bool
  trusted_read :: bool
  limit_signal :: bool
  handoff_relaunch :: bool

definition can_switch :: "capabilities \<Rightarrow> bool" where
  "can_switch c \<longleftrightarrow> cross_account_resume c \<or> handoff_relaunch c"

record evidence =
  ev_runs :: string
  ev_version :: string

definition NO_CAPS :: capabilities where
  "NO_CAPS = \<lparr>login_binding = False, cross_account_resume = False, in_session_usage = False,
     trusted_read = False, limit_signal = False, handoff_relaunch = False\<rparr>"

definition CAP_FIELDS :: "string list" where
  "CAP_FIELDS = [''login_binding'', ''cross_account_resume'', ''in_session_usage'', ''trusted_read'',
     ''limit_signal'', ''handoff_relaunch'']"

definition cap_field :: "capabilities \<Rightarrow> string \<Rightarrow> bool" where
  "cap_field c name =
     (if name = ''login_binding'' then login_binding c
      else if name = ''cross_account_resume'' then cross_account_resume c
      else if name = ''in_session_usage'' then in_session_usage c
      else if name = ''trusted_read'' then trusted_read c
      else if name = ''limit_signal'' then limit_signal c
      else if name = ''handoff_relaunch'' then handoff_relaunch c
      else False)"

datatype cap_problem = UnknownAdapter string | NoEvidence string string
  | StaleEvidence string string | WrongVersion string string | NeedsBinding string
  | NoSource string | NoGenerator string

definition caps_on :: "capabilities \<Rightarrow> string list" where
  "caps_on c = filter (cap_field c) CAP_FIELDS"

definition get_or :: "'v \<Rightarrow> ('k, 'v) table \<Rightarrow> 'k \<Rightarrow> 'v" where
  "get_or d t k = (case map_of t k of None \<Rightarrow> d | Some v \<Rightarrow> v)"

definition adapter_problems ::
    "(string, capabilities) table \<Rightarrow> (string, (string, evidence) table) table \<Rightarrow>
     (string, string) table \<Rightarrow> string \<Rightarrow> cap_problem list" where
  "adapter_problems tbl evidence pins adapter =
     (let caps = get_or NO_CAPS tbl adapter; shown = get_or [] evidence adapter in
      case map_of pins adapter of
        None \<Rightarrow> [UnknownAdapter adapter]
      | Some pin \<Rightarrow>
          map (NoEvidence adapter) (sort (filter (\<lambda>n. n \<notin> set (map fst shown)) (caps_on caps)))
          @ map (StaleEvidence adapter) (sort (filter (\<lambda>n. n \<notin> set (caps_on caps)) (remdups (map fst shown))))
          @ map (WrongVersion adapter)
              (filter (\<lambda>n. case map_of shown n of None \<Rightarrow> False | Some e \<Rightarrow> ev_version e \<noteq> pin)
                 (sort (remdups (map fst shown))))
          @ (if caps_on caps \<noteq> [] \<and> \<not> login_binding caps then [NeedsBinding adapter] else [])
          @ (if adapter = ''claude-code'' \<and> trusted_read caps then [NoSource adapter] else [])
          @ (if handoff_relaunch caps then [NoGenerator adapter] else []))"

definition table_problems ::
    "(string, capabilities) table \<Rightarrow> (string, (string, evidence) table) table \<Rightarrow>
     (string, string) table \<Rightarrow> cap_problem list" where
  "table_problems tbl evidence pins =
     concat (map (adapter_problems tbl evidence pins)
       (sort (remdups (map fst tbl @ map fst evidence))))"

section \<open>Profiles and accounts\<close>

datatype failover = FailoverNone | FailoverNext

record candidate =
  ca_account :: string
  ca_key :: string

record profile_view =
  pv_profile :: string
  pv_adapter :: string
  pv_failover :: failover
  pv_accounts :: "candidate list"
  pv_capabilities :: capabilities

record profile_accounts =
  pa_adapter :: string
  pa_accounts :: "string list"
  pa_failover :: failover

text \<open>\<^verbatim>\<open>named\<close> maps (adapter, account) to the account's configured login directory.\<close>

record configured_accounts =
  ac_profiles :: "(string, profile_accounts) table"
  ac_named :: "(string \<times> string, string) table"
  ac_capabilities :: "(string, capabilities) table"

datatype config_error = UnknownAccount string string | UnknownProfile string
  | LoginUnresolved string string

definition DEFAULT_LOGIN_DIRS :: "(string, string) table" where
  "DEFAULT_LOGIN_DIRS = [(''claude-code'', ''~/.claude''), (''codex'', ''~/.codex'')]"

definition DEFAULT_ACCOUNT :: string where "DEFAULT_ACCOUNT = ''default''"

text \<open>\<^verbatim>\<open>ConfiguredAccounts.__init__\<close> drops every account named \<^verbatim>\<open>default\<close>.\<close>

definition make_accounts ::
    "(string, profile_accounts) table \<Rightarrow> (string \<times> string, string) table \<Rightarrow>
     (string, capabilities) table \<Rightarrow> configured_accounts" where
  "make_accounts profiles named caps =
     \<lparr>ac_profiles = profiles, ac_named = filter (\<lambda>((a, n), d). n \<noteq> DEFAULT_ACCOUNT) named,
      ac_capabilities = caps\<rparr>"

definition adapter_of :: "configured_accounts \<Rightarrow> string \<Rightarrow> string option" where
  "adapter_of ac profile = map_option pa_adapter (map_of (ac_profiles ac) profile)"

text \<open>An adapter with no default login directory is a \<^verbatim>\<open>KeyError\<close> in the source, which no
  validated configuration reaches; it is \<open>UnknownAccount\<close> here.\<close>

definition configured_dir :: "configured_accounts \<Rightarrow> string \<Rightarrow> string \<Rightarrow> config_error + string" where
  "configured_dir ac adapter account =
     (if account = DEFAULT_ACCOUNT then
        (case map_of DEFAULT_LOGIN_DIRS adapter of
           None \<Rightarrow> Inl (UnknownAccount adapter account) | Some d \<Rightarrow> Inr d)
      else case map_of (ac_named ac) (adapter, account) of
             None \<Rightarrow> Inl (UnknownAccount adapter account) | Some d \<Rightarrow> Inr d)"

definition configured :: "configured_accounts \<Rightarrow> string \<Rightarrow> string list" where
  "configured ac adapter = map (snd \<circ> fst) (filter (\<lambda>((a, n), d). a = adapter) (ac_named ac))"

definition current_key ::
    "(string \<Rightarrow> string \<Rightarrow> string \<Rightarrow> config_error + string) \<Rightarrow> configured_accounts \<Rightarrow> string \<Rightarrow> string \<Rightarrow>
     config_error + string" where
  "current_key login_key ac adapter account =
     bind_result (configured_dir ac adapter account) (\<lambda>d. login_key account adapter d)"

definition capabilities_of :: "configured_accounts \<Rightarrow> string \<Rightarrow> capabilities" where
  "capabilities_of ac profile =
     (case map_of (ac_profiles ac) profile of
        None \<Rightarrow> NO_CAPS | Some spec \<Rightarrow> get_or NO_CAPS (ac_capabilities ac) (pa_adapter spec))"

fun resolve_all ::
    "(string \<Rightarrow> config_error + string) \<Rightarrow> string list \<Rightarrow> config_error + candidate list" where
  "resolve_all key [] = Inr []"
| "resolve_all key (n # ns) =
     bind_result (key n) (\<lambda>k. bind_result (resolve_all key ns) (\<lambda>cs.
       Inr (\<lparr>ca_account = n, ca_key = k\<rparr> # cs)))"

definition view ::
    "(string \<Rightarrow> string \<Rightarrow> string \<Rightarrow> config_error + string) \<Rightarrow> configured_accounts \<Rightarrow> string \<Rightarrow>
     config_error + profile_view" where
  "view login_key ac profile =
     (case map_of (ac_profiles ac) profile of
        None \<Rightarrow> Inl (UnknownProfile profile)
      | Some spec \<Rightarrow>
          let names = (if pa_accounts spec = [] then [DEFAULT_ACCOUNT] else pa_accounts spec) in
          bind_result (resolve_all (current_key login_key ac (pa_adapter spec)) names) (\<lambda>cs.
          Inr \<lparr>pv_profile = profile, pv_adapter = pa_adapter spec, pv_failover = pa_failover spec,
               pv_accounts = cs,
               pv_capabilities = get_or NO_CAPS (ac_capabilities ac) (pa_adapter spec)\<rparr>))"

section \<open>The capability table's rules\<close>

lemma caps_on_iff: "n \<in> set (caps_on c) \<longleftrightarrow> cap_field c n"
  unfolding caps_on_def set_filter mem_Collect_eq
  by (rule iffI) (simp, simp add: CAP_FIELDS_def cap_field_def split: if_splits)

lemma mem_get_or_fst: "n \<in> fst ` set (get_or [] t k) \<longleftrightarrow> map_of (get_or [] t k) n \<noteq> None"
  by (simp add: map_of_eq_None_iff)

text \<open>What the rules say of one adapter.\<close>

definition adapter_sound ::
    "(string, capabilities) table \<Rightarrow> (string, (string, evidence) table) table \<Rightarrow>
     (string, string) table \<Rightarrow> string \<Rightarrow> bool" where
  "adapter_sound tbl evidence pins a \<longleftrightarrow>
     (\<exists>pin. map_of pins a = Some pin \<and>
        (\<forall>n. cap_field (get_or NO_CAPS tbl a) n \<longleftrightarrow> map_of (get_or [] evidence a) n \<noteq> None) \<and>
        (\<forall>n e. map_of (get_or [] evidence a) n = Some e \<longrightarrow> ev_version e = pin) \<and>
        ((\<exists>n. cap_field (get_or NO_CAPS tbl a) n) \<longrightarrow> login_binding (get_or NO_CAPS tbl a)) \<and>
        \<not> (a = ''claude-code'' \<and> trusted_read (get_or NO_CAPS tbl a)) \<and>
        \<not> handoff_relaunch (get_or NO_CAPS tbl a))"

lemma filter_empty_set: "filter P xs = [] \<longleftrightarrow> (\<forall>x \<in> set xs. \<not> P x)"
  by (simp add: filter_empty_conv)

lemma sort_Nil_iff [simp]: "sort xs = [] \<longleftrightarrow> xs = []"
  by (metis set_empty set_sort)

lemma adapter_problems_Nil:
  "adapter_problems tbl ev pins a = [] \<longleftrightarrow> adapter_sound tbl ev pins a"
proof (cases "map_of pins a")
  case None
  then show ?thesis by (simp add: adapter_problems_def adapter_sound_def Let_def)
next
  case (Some pin)
  let ?c = "get_or NO_CAPS tbl a" and ?s = "get_or [] ev a"
  have 1: "filter (\<lambda>n. n \<notin> set (map fst ?s)) (caps_on ?c) = [] \<longleftrightarrow>
      (\<forall>n. cap_field ?c n \<longrightarrow> map_of ?s n \<noteq> None)"
    by (auto simp: filter_empty_set caps_on_iff mem_get_or_fst)
  have 2: "filter (\<lambda>n. n \<notin> set (caps_on ?c)) (remdups (map fst ?s)) = [] \<longleftrightarrow>
      (\<forall>n. map_of ?s n \<noteq> None \<longrightarrow> cap_field ?c n)"
    unfolding filter_empty_set set_remdups set_map caps_on_iff
    by (metis mem_get_or_fst)
  have 3: "filter (\<lambda>n. case map_of ?s n of None \<Rightarrow> False | Some e \<Rightarrow> ev_version e \<noteq> pin)
        (sort (remdups (map fst ?s))) = [] \<longleftrightarrow>
      (\<forall>n e. map_of ?s n = Some e \<longrightarrow> ev_version e = pin)"
    unfolding filter_empty_set set_sort set_remdups set_map
    by (auto simp: split: option.splits dest: map_of_SomeD) (metis fst_conv image_eqI map_of_SomeD)
  have 4: "caps_on ?c \<noteq> [] \<longleftrightarrow> (\<exists>n. cap_field ?c n)"
    by (metis caps_on_iff list.set_intros(1) neq_Nil_conv empty_iff empty_set)
  have if_Nil: "(if b then [x] else []) = [] \<longleftrightarrow> \<not> b" for b and x :: cap_problem by simp
  show ?thesis
    unfolding adapter_problems_def adapter_sound_def Let_def Some option.case append_is_Nil_conv map_is_Nil_conv
      sort_Nil_iff if_Nil 1 2 3 4 by blast
qed

text \<open>
  The capability table passes its rules exactly when every adapter it (or its evidence)
  names is sound: the adapter is pinned, a capability is on if and only if there is evidence for
  it, every piece of evidence was taken on the pinned version, anything on requires login
  binding, \<^verbatim>\<open>claude-code\<close> claims no trusted read and nothing claims a handoff relaunch.
\<close>
theorem table_problems_none_iff:
  "table_problems tbl ev pins = [] \<longleftrightarrow>
     (\<forall>a \<in> fst ` set tbl \<union> fst ` set ev. adapter_sound tbl ev pins a)"
  unfolding table_problems_def by (auto simp: adapter_problems_Nil)

theorem table_problems_none_iff_witness:
  "table_problems [(''codex'', NO_CAPS\<lparr>login_binding := True\<rparr>)]
     [(''codex'', [(''login_binding'', \<lparr>ev_runs = ''L1'', ev_version = ''0.160.0''\<rparr>)])]
     [(''codex'', ''0.160.0'')] = []
   \<and> adapter_sound [(''codex'', NO_CAPS\<lparr>login_binding := True\<rparr>)]
     [(''codex'', [(''login_binding'', \<lparr>ev_runs = ''L1'', ev_version = ''0.160.0''\<rparr>)])]
     [(''codex'', ''0.160.0'')] ''codex''"
proof -
  let ?t = "[(''codex'', NO_CAPS\<lparr>login_binding := True\<rparr>)]"
  let ?e = "[(''codex'', [(''login_binding'', \<lparr>ev_runs = ''L1'', ev_version = ''0.160.0''\<rparr>)])]"
  have ok: "table_problems ?t ?e [(''codex'', ''0.160.0'')] = []" by code_simp
  with table_problems_none_iff [of ?t ?e "[(''codex'', ''0.160.0'')]"] show ?thesis by simp
qed

section \<open>Resolving a profile\<close>

lemma resolve_all_names: "resolve_all key ns = Inr cs \<Longrightarrow> map ca_account cs = ns"
  by (induction ns arbitrary: cs) (auto simp: result_simps)

lemma resolve_all_keys:
  "resolve_all key ns = Inr cs \<Longrightarrow> c \<in> set cs \<Longrightarrow> key (ca_account c) = Inr (ca_key c)"
  by (induction ns arbitrary: cs) (auto simp: result_simps)

lemma view_accounts_nonempty: "view lk ac p = Inr v \<Longrightarrow> pv_accounts v \<noteq> []"
  by (auto simp: view_def Let_def result_simps split: option.splits if_splits
      dest: resolve_all_names)

lemma view_keys_current:
  assumes "view lk ac p = Inr v" and "c \<in> set (pv_accounts v)"
  shows "current_key lk ac (pv_adapter v) (ca_account c) = Inr (ca_key c)"
  using assms
  by (auto simp: view_def Let_def result_simps split: option.splits dest: resolve_all_keys)

lemma view_profile: "view lk ac p = Inr v \<Longrightarrow> pv_profile v = p"
  by (auto simp: view_def Let_def result_simps split: option.splits)

end
