(* ===== verification/Journal.thy ===== *)
theory Journal
  imports States Headroom
begin

text \<open>
  wsd's journal, \<^verbatim>\<open>wsd/journal.py\<close>: the tables of the SQLite file as keyed tables of a record,
  and the methods of \<^verbatim>\<open>Journal\<close> on the inbox, the operation journals, the bead rows, the holds
  and the event log. Each method runs in one transaction, so it either returns a new state or
  raises with the state unchanged. What the code takes from its surroundings is an argument: the
  clock (\<open>ts\<close>, the text of \<^verbatim>\<open>now()\<close>) and a fresh operation id (\<open>op_id\<close>). Columns that hold
  JSON hold the encoded value itself: the \<^verbatim>\<open>data\<close> of an operation is its dictionary and the
  \<^verbatim>\<open>detail\<close> of a state event is its reason and detail.
\<close>

section \<open>Rows\<close>

datatype InboxStatus = PENDING | COMMITTED | SUPERSEDED | REJECTED | INBOX_NEEDS_HUMAN

datatype OpKind = PICKUP | PARK | RESUME | RELEASE | ESCALATE

datatype OpStatus = OP_OPEN | OP_DONE | OP_ABANDONED | OP_STUCK

record inbox_row =
  ib_surface :: string
  ib_event_id :: string
  ib_kind :: string
  ib_ws :: "ws_name option"
  ib_bead :: "bead_id option"
  ib_payload :: string
  ib_status :: InboxStatus
  ib_attempts :: int
  ib_received_at :: timestamp
  ib_updated_at :: timestamp

record op_row =
  o_kind :: OpKind
  o_ws :: ws_name
  o_bead :: bead_id
  o_step :: string
  o_data :: "(string, string) table"
  o_attempts :: int
  o_status :: OpStatus
  o_created_at :: timestamp
  o_updated_at :: timestamp

record bead_row =
  b_state :: BeadState
  b_reason :: "Reason option"
  b_detail :: string
  b_since :: timestamp

datatype event_detail = Plain string | StateDetail "Reason option" string

record event =
  e_at :: timestamp
  e_ws :: ws_name
  e_bead :: "bead_id option"
  e_kind :: string
  e_detail :: event_detail
  e_ref :: "string option"

record deferral_row =
  d_bead :: bead_id
  d_role :: string
  d_profile :: string
  d_reason :: string
  d_defer_until :: "string option"
  d_trust :: string

record adoption =
  a_session_key :: "session_key option"
  a_verdict :: string
  a_detail :: string
  a_facts :: string
  a_settled :: bool
  a_resolution :: "string option"
  a_resolved_at :: "string option"
  a_resolved_by :: "string option"

definition unresolved_hold :: "adoption \<Rightarrow> bool" where
  "unresolved_hold a \<longleftrightarrow> a_verdict a = ''held'' \<and> a_resolution a = None"

record usage_row =
  u_kind :: string
  u_used_percent :: "rat option"
  u_resets_at :: "string option"
  u_observed_at :: string
  u_receipt_seq :: int
  u_source :: string

record exhausted_row =
  x_until :: "string option"
  x_observed_at :: string
  x_receipt_seq :: int

record harness_install =
  h_adapter :: string
  h_digest :: string
  h_version :: string
  h_approval_bead :: string
  h_context_digest :: string
  h_ask_id :: string
  h_state :: string
  h_install :: string
  h_failure :: string
  h_created_at :: timestamp
  h_updated_at :: timestamp

record harness_event_row =
  he_at :: timestamp
  he_actor :: string
  he_action :: string
  he_adapter :: string
  he_install :: string
  he_detail :: string

section \<open>The journal\<close>

text \<open>
  \<open>j_inbox_seq\<close> and \<open>j_event_seq\<close> are the tables' \<^verbatim>\<open>AUTOINCREMENT\<close> counters; an ignored
  inbox insert uses one up too. A launch row carries its \<^verbatim>\<open>rebuilt_at\<close>, a receipt its time.
\<close>

record journal =
  j_meta :: "(string, string) table"
  j_inbox :: "(int, inbox_row) table"
  j_inbox_seq :: int
  j_ops :: "(string, op_row) table"
  j_beads :: "(ws_name \<times> bead_id, bead_row) table"
  j_holds :: "(ws_name \<times> Reason, string \<times> timestamp) table"
  j_workstreams :: "(ws_name, WsState \<times> timestamp) table"
  j_events :: "(int, event) table"
  j_event_seq :: int
  j_launches :: "(session_key \<times> generation, launch_entry \<times> timestamp option) table"
  j_receipts :: "(session_key \<times> generation, receipt \<times> timestamp) table"
  j_adoptions :: "(ws_name \<times> bead_id, adoption) table"
  j_deferrals :: "(session_key \<times> int, deferral_row) table"
  j_usage :: "(string \<times> string, usage_row) table"
  j_untrusted :: "((session_key \<times> generation) \<times> string, usage_row) table"
  j_exhausted :: "(string, exhausted_row) table"
  j_harness :: "(string, harness_install) table"
  j_harness_events :: "(int, harness_event_row) table"

text \<open>\<^verbatim>\<open>_create\<close>: a fresh journal at version 4, with its receipt counter at 0.\<close>

definition fresh_journal :: "timestamp \<Rightarrow> journal" where
  "fresh_journal ts = \<lparr>j_meta = [(''schema_version'', ''4''), (''created_at'', ts),
       (''usage_receipt_seq'', ''0'')],
     j_inbox = [], j_inbox_seq = 0, j_ops = [], j_beads = [], j_holds = [], j_workstreams = [],
     j_events = [], j_event_seq = 0, j_launches = [], j_receipts = [], j_adoptions = [],
     j_deferrals = [], j_usage = [], j_untrusted = [], j_exhausted = [], j_harness = [],
     j_harness_events = []\<rparr>"

datatype journal_error = OpConflict | EntryConflict | KeyError | ValueError | IntegrityError
  | Illegal illegal_transition

section \<open>Events\<close>

definition emit ::
    "timestamp \<Rightarrow> ws_name \<Rightarrow> bead_id option \<Rightarrow> string \<Rightarrow> event_detail \<Rightarrow> string option \<Rightarrow> journal \<Rightarrow>
     int \<times> journal" where
  "emit ts ws bead kind detail ref j =
     (let seq = j_event_seq j + 1 in
      (seq, j\<lparr>j_events := j_events j @ [(seq, \<lparr>e_at = ts, e_ws = ws, e_bead = bead, e_kind = kind,
                e_detail = detail, e_ref = ref\<rparr>)],
              j_event_seq := seq\<rparr>))"

definition emit_once ::
    "timestamp \<Rightarrow> ws_name \<Rightarrow> bead_id option \<Rightarrow> string \<Rightarrow> event_detail \<Rightarrow> string \<Rightarrow> journal \<Rightarrow>
     bool \<times> journal" where
  "emit_once ts ws bead kind detail ref j =
     (if list_ex (\<lambda>(_, e). e_kind e = kind \<and> e_ref e = Some ref) (j_events j) then (False, j)
      else (True, snd (emit ts ws bead kind detail (Some ref) j)))"

definition events_since :: "int \<Rightarrow> nat \<Rightarrow> journal \<Rightarrow> (int \<times> event) list" where
  "events_since seq limit j =
     take limit (sort_key fst (filter (\<lambda>(n, _). n > seq) (j_events j)))"

section \<open>Inbox\<close>

definition inbox_seen :: "string \<Rightarrow> string \<Rightarrow> journal \<Rightarrow> bool" where
  "inbox_seen surface event_id j \<longleftrightarrow>
     list_ex (\<lambda>(_, r). ib_surface r = surface \<and> ib_event_id r = event_id) (j_inbox j)"

definition inbox_add ::
    "timestamp \<Rightarrow> string \<Rightarrow> string \<Rightarrow> string \<Rightarrow> string \<Rightarrow> ws_name option \<Rightarrow> bead_id option \<Rightarrow> journal \<Rightarrow>
     int option \<times> journal" where
  "inbox_add ts surface event_id kind payload ws bead j =
     (let seq = j_inbox_seq j + 1 in
      if inbox_seen surface event_id j then (None, j\<lparr>j_inbox_seq := seq\<rparr>)
      else (Some seq,
        j\<lparr>j_inbox := j_inbox j @ [(seq, \<lparr>ib_surface = surface, ib_event_id = event_id, ib_kind = kind,
              ib_ws = ws, ib_bead = bead, ib_payload = payload, ib_status = PENDING, ib_attempts = 0,
              ib_received_at = ts, ib_updated_at = ts\<rparr>)],
          j_inbox_seq := seq\<rparr>))"

definition inbox_pending :: "journal \<Rightarrow> (int \<times> inbox_row) list" where
  "inbox_pending j = sort_key fst (filter (\<lambda>(_, r). ib_status r = PENDING) (j_inbox j))"

definition inbox_pending_count :: "journal \<Rightarrow> nat" where
  "inbox_pending_count j = length (filter (\<lambda>(_, r). ib_status r = PENDING) (j_inbox j))"

definition inbox_get :: "int \<Rightarrow> journal \<Rightarrow> inbox_row option" where
  "inbox_get seq j = map_of (j_inbox j) seq"

definition inbox_update :: "int \<Rightarrow> (inbox_row \<Rightarrow> inbox_row) \<Rightarrow> journal \<Rightarrow> journal" where
  "inbox_update seq f j = j\<lparr>j_inbox := map (\<lambda>(n, r). (n, if n = seq then f r else r)) (j_inbox j)\<rparr>"

definition inbox_failed :: "timestamp \<Rightarrow> int \<Rightarrow> int \<Rightarrow> journal \<Rightarrow> journal_error + InboxStatus \<times> journal" where
  "inbox_failed ts seq limit j =
     (let j1 = inbox_update seq (\<lambda>r. if ib_status r = PENDING
                 then r\<lparr>ib_attempts := ib_attempts r + 1, ib_updated_at := ts\<rparr> else r) j;
          j2 = inbox_update seq (\<lambda>r. if ib_status r = PENDING \<and> ib_attempts r \<ge> limit
                 then r\<lparr>ib_status := INBOX_NEEDS_HUMAN\<rparr> else r) j1
      in case inbox_get seq j2 of None \<Rightarrow> Inl KeyError | Some r \<Rightarrow> Inr (ib_status r, j2))"

definition inbox_finish :: "timestamp \<Rightarrow> int \<Rightarrow> InboxStatus \<Rightarrow> journal \<Rightarrow> journal_error + journal" where
  "inbox_finish ts seq status j =
     (if status = PENDING then Inl ValueError
      else case inbox_get seq j of
             None \<Rightarrow> Inl KeyError
           | Some r \<Rightarrow>
               if ib_status r = PENDING
               then Inr (inbox_update seq (\<lambda>r. if ib_status r = PENDING
                        then r\<lparr>ib_status := status, ib_updated_at := ts\<rparr> else r) j)
               else Inl KeyError)"

section \<open>Operation journals\<close>

definition op_get :: "string \<Rightarrow> journal \<Rightarrow> journal_error + op_row" where
  "op_get op_id j = (case map_of (j_ops j) op_id of None \<Rightarrow> Inl KeyError | Some r \<Rightarrow> Inr r)"

definition op_for :: "ws_name \<Rightarrow> bead_id \<Rightarrow> journal \<Rightarrow> (string \<times> op_row) option" where
  "op_for ws bead j =
     find (\<lambda>(_, r). o_status r = OP_OPEN \<and> o_ws r = ws \<and> o_bead r = bead) (j_ops j)"

definition ops_open :: "ws_name option \<Rightarrow> journal \<Rightarrow> (string \<times> op_row) list" where
  "ops_open ws j =
     filter (\<lambda>(_, r). o_status r = OP_OPEN \<and> (case ws of None \<Rightarrow> True | Some w \<Rightarrow> o_ws r = w)) (j_ops j)"

text \<open>The insert fails on a used id and, by the partial unique index, on a second open operation.\<close>

definition op_open ::
    "timestamp \<Rightarrow> string \<Rightarrow> OpKind \<Rightarrow> ws_name \<Rightarrow> bead_id \<Rightarrow> (string, string) table \<Rightarrow> journal \<Rightarrow>
     journal_error + op_row \<times> journal" where
  "op_open ts op_id kind ws bead data j =
     (if op_id \<in> fst ` set (j_ops j) \<or> op_for ws bead j \<noteq> None then Inl OpConflict
      else let r = \<lparr>o_kind = kind, o_ws = ws, o_bead = bead, o_step = ''intent'', o_data = data,
                    o_attempts = 0, o_status = OP_OPEN, o_created_at = ts, o_updated_at = ts\<rparr>
           in Inr (r, j\<lparr>j_ops := j_ops j @ [(op_id, r)]\<rparr>))"

definition merge_data :: "(string, string) table \<Rightarrow> (string, string) table \<Rightarrow> (string, string) table" where
  "merge_data old new = foldl (\<lambda>d (k, v). AList.update k v d) old new"

definition op_put :: "string \<Rightarrow> op_row \<Rightarrow> journal \<Rightarrow> journal" where
  "op_put op_id r j = j\<lparr>j_ops := AList.update op_id r (j_ops j)\<rparr>"

definition op_step ::
    "timestamp \<Rightarrow> string \<Rightarrow> string \<Rightarrow> (string, string) table \<Rightarrow> journal \<Rightarrow> journal_error + op_row \<times> journal" where
  "op_step ts op_id step data j =
     bind_result (op_get op_id j) (\<lambda>r.
       if o_status r \<noteq> OP_OPEN then Inl OpConflict
       else let r' = r\<lparr>o_step := step, o_data := merge_data (o_data r) data, o_updated_at := ts\<rparr>
            in Inr (r', op_put op_id r' j))"

definition op_failed :: "timestamp \<Rightarrow> string \<Rightarrow> journal \<Rightarrow> journal_error + int \<times> journal" where
  "op_failed ts op_id j =
     bind_result (op_get op_id j) (\<lambda>r.
       let r' = r\<lparr>o_attempts := o_attempts r + 1, o_updated_at := ts\<rparr>
       in Inr (o_attempts r', op_put op_id r' j))"

definition op_finish :: "timestamp \<Rightarrow> string \<Rightarrow> OpStatus \<Rightarrow> journal \<Rightarrow> journal_error + journal" where
  "op_finish ts op_id status j =
     (if status = OP_OPEN then Inl ValueError
      else Inr (case map_of (j_ops j) op_id of
                  None \<Rightarrow> j
                | Some r \<Rightarrow> if o_status r = OP_OPEN
                            then op_put op_id (r\<lparr>o_status := status, o_updated_at := ts\<rparr>) j else j))"

definition op_forget ::
    "timestamp \<Rightarrow> string \<Rightarrow> string list \<Rightarrow> journal \<Rightarrow> journal_error + op_row \<times> journal" where
  "op_forget ts op_id keys j =
     bind_result (op_get op_id j) (\<lambda>r.
       if o_status r \<noteq> OP_OPEN then Inl OpConflict
       else let r' = r\<lparr>o_data := filter (\<lambda>(k, _). k \<notin> set keys) (o_data r), o_updated_at := ts\<rparr>
            in Inr (r', op_put op_id r' j))"

section \<open>Bead rows\<close>

definition state :: "ws_name \<Rightarrow> bead_id \<Rightarrow> journal \<Rightarrow> bead_row option" where
  "state ws bead j = map_of (j_beads j) (ws, bead)"

definition states :: "ws_name \<Rightarrow> journal \<Rightarrow> (bead_id \<times> bead_row) list" where
  "states ws j =
     sort_key fst (map (\<lambda>((w, b), r). (b, r)) (filter (\<lambda>((w, b), r). w = ws) (j_beads j)))"

definition put_state ::
    "timestamp \<Rightarrow> ws_name \<Rightarrow> bead_id \<Rightarrow> bead_row option \<Rightarrow> BeadState \<Rightarrow> Reason option \<Rightarrow> string \<Rightarrow>
     string option \<Rightarrow> journal \<Rightarrow> journal" where
  "put_state ts ws bead current st reason detail ref j =
     (case current of
        Some c \<Rightarrow>
          if (b_state c, b_reason c, b_detail c) = (st, reason, detail) then j
          else snd (emit ts ws (Some bead) (''state:'' @ bead_state_value st) (StateDetail reason detail) ref
                 (j\<lparr>j_beads := AList.update (ws, bead)
                    \<lparr>b_state = st, b_reason = reason, b_detail = detail, b_since = ts\<rparr> (j_beads j)\<rparr>))
      | None \<Rightarrow>
          snd (emit ts ws (Some bead) (''state:'' @ bead_state_value st) (StateDetail reason detail) ref
                 (j\<lparr>j_beads := AList.update (ws, bead)
                    \<lparr>b_state = st, b_reason = reason, b_detail = detail, b_since = ts\<rparr> (j_beads j)\<rparr>)))"

definition set_state ::
    "timestamp \<Rightarrow> ws_name \<Rightarrow> bead_id \<Rightarrow> BeadState \<Rightarrow> Reason option \<Rightarrow> string \<Rightarrow> string option \<Rightarrow> journal \<Rightarrow>
     journal_error + journal" where
  "set_state ts ws bead st reason detail ref j =
     (let current = state ws bead j in
      case check (map_option b_state current) st of
        Inl e \<Rightarrow> Inl (Illegal e)
      | Inr _ \<Rightarrow> Inr (put_state ts ws bead current st reason detail ref j))"

definition adopt ::
    "timestamp \<Rightarrow> ws_name \<Rightarrow> bead_id \<Rightarrow> BeadState \<Rightarrow> Reason option \<Rightarrow> string \<Rightarrow> string option \<Rightarrow> journal \<Rightarrow>
     journal" where
  "adopt ts ws bead st reason detail ref j =
     put_state ts ws bead (state ws bead j) st reason detail ref j"

section \<open>Holds and workstream states\<close>

definition holds :: "ws_name \<Rightarrow> journal \<Rightarrow> (Reason \<times> string) list" where
  "holds ws j = sort_key (reason_value \<circ> fst)
     (map (\<lambda>((w, r), (d, s)). (r, d)) (filter (\<lambda>((w, r), _). w = ws) (j_holds j)))"

definition hold_since :: "timestamp \<Rightarrow> ws_name \<Rightarrow> Reason \<Rightarrow> journal \<Rightarrow> timestamp" where
  "hold_since ts ws reason j =
     (case map_of (j_holds j) (ws, reason) of None \<Rightarrow> ts | Some (_, since) \<Rightarrow> since)"

definition hold :: "timestamp \<Rightarrow> ws_name \<Rightarrow> Reason \<Rightarrow> string \<Rightarrow> journal \<Rightarrow> journal" where
  "hold ts ws reason detail j =
     (if map_option fst (map_of (j_holds j) (ws, reason)) = Some detail then j
      else snd (emit ts ws None ''hold'' (StateDetail (Some reason) detail) None
             (j\<lparr>j_holds := AList.update (ws, reason) (detail, hold_since ts ws reason j) (j_holds j)\<rparr>)))"

definition unhold :: "timestamp \<Rightarrow> ws_name \<Rightarrow> Reason \<Rightarrow> journal \<Rightarrow> journal" where
  "unhold ts ws reason j =
     (if map_of (j_holds j) (ws, reason) = None then j
      else snd (emit ts ws None ''unhold'' (Plain (reason_value reason)) None
             (j\<lparr>j_holds := AList.delete (ws, reason) (j_holds j)\<rparr>)))"

definition set_ws_state :: "timestamp \<Rightarrow> ws_name \<Rightarrow> WsState \<Rightarrow> journal \<Rightarrow> journal" where
  "set_ws_state ts ws st j =
     (if map_option fst (map_of (j_workstreams j) ws) = Some st then j
      else snd (emit ts ws None (''ws:'' @ ws_state_value st) (Plain []) None
             (j\<lparr>j_workstreams := AList.update ws (st, ts) (j_workstreams j)\<rparr>)))"

record snapshot_row =
  sn_state :: "WsState option"
  sn_holds :: "(Reason \<times> string) list"
  sn_beads :: "(bead_id \<times> bead_row) list"
  sn_ops :: "(string \<times> op_row) list"
  sn_last_event :: int

definition last_event :: "journal \<Rightarrow> int" where
  "last_event j = (if j_events j = [] then 0 else Max (set (map fst (j_events j))))"

definition snapshot :: "ws_name \<Rightarrow> journal \<Rightarrow> snapshot_row" where
  "snapshot ws j = \<lparr>sn_state = map_option fst (map_of (j_workstreams j) ws), sn_holds = holds ws j,
     sn_beads = states ws j, sn_ops = ops_open (Some ws) j, sn_last_event = last_event j\<rparr>"

end
