(* ===== verification/Journal_Launch.thy ===== *)
theory Journal_Launch
  imports Journal
begin

text \<open>
  The journal's launch entries, receipts, adoption verdicts, deferral records and crash
  accounting (\<^verbatim>\<open>wsd/journal.py\<close>). An entry is written once and only its set-once fields are
  ever filled; a receipt is written once and needs its entry; an adoption's resolution is set
  once. A crash row is keyed by the exact launch generation, so a generation is accounted once.
\<close>

section \<open>Launch entries\<close>

definition launch :: "session_key \<Rightarrow> generation \<Rightarrow> journal \<Rightarrow> launch_entry option" where
  "launch key gen j = map_option fst (map_of (j_launches j) (key, gen))"

definition rebuilt_at :: "session_key \<Rightarrow> generation \<Rightarrow> journal \<Rightarrow> timestamp option" where
  "rebuilt_at key gen j = Option.bind (map_of (j_launches j) (key, gen)) snd"

definition entry_rows :: "journal \<Rightarrow> launch_entry list" where
  "entry_rows j = map (fst \<circ> snd) (j_launches j)"

definition launches :: "session_key \<Rightarrow> journal \<Rightarrow> launch_entry list" where
  "launches key j = sort_key le_generation (filter (\<lambda>e. le_session_key e = key) (entry_rows j))"

definition launches_of :: "ws_name \<Rightarrow> bead_id \<Rightarrow> journal \<Rightarrow> launch_entry list" where
  "launches_of ws bead j =
     sort_key le_session_key (sort_key le_generation
       (filter (\<lambda>e. le_ws e = ws \<and> le_bead e = bead) (entry_rows j)))"

definition launches_naming :: "string \<Rightarrow> journal \<Rightarrow> launch_entry list" where
  "launches_naming install j =
     sort_key le_session_key (sort_key le_generation
       (filter (\<lambda>e. le_install e = install) (entry_rows j)))"

text \<open>The columns' CHECK constraints.\<close>

definition outcome_check :: "string option \<Rightarrow> bool" where
  "outcome_check v \<longleftrightarrow> v = None \<or> v = Some LAUNCHED \<or> v = Some ABANDONED"

definition launch_row_check :: "launch_entry \<Rightarrow> bool" where
  "launch_row_check e \<longleftrightarrow> le_generation e \<ge> 1 \<and> outcome_check (le_outcome e)"

definition launch_insert :: "timestamp \<Rightarrow> launch_entry \<Rightarrow> bool \<Rightarrow> journal \<Rightarrow> journal_error + journal" where
  "launch_insert ts e rebuilt j =
     (case launch (le_session_key e) (le_generation e) j of
        Some current \<Rightarrow> if current \<noteq> e then Inl EntryConflict else Inr j
      | None \<Rightarrow>
          if \<not> launch_row_check e then Inl IntegrityError
          else Inr (j\<lparr>j_launches := j_launches j @ [(ident e, (e, if rebuilt then Some ts else None))]\<rparr>))"

definition launch_put :: "session_key \<times> generation \<Rightarrow> launch_entry \<Rightarrow> journal \<Rightarrow> journal" where
  "launch_put k e j =
     j\<lparr>j_launches := map (\<lambda>(n, (x, r)). (n, (if n = k then e else x, r))) (j_launches j)\<rparr>"

definition launch_set ::
    "session_key \<Rightarrow> generation \<Rightarrow> string \<Rightarrow> string \<Rightarrow> journal \<Rightarrow> journal_error + launch_entry \<times> journal" where
  "launch_set key gen name value j =
     (case set_once_of name of
        None \<Rightarrow> Inl ValueError
      | Some f \<Rightarrow>
          (case launch key gen j of
             None \<Rightarrow> Inl KeyError
           | Some current \<Rightarrow>
               (case get_once f current of
                  None \<Rightarrow>
                    if f = F_outcome \<and> \<not> outcome_check (Some value) then Inl IntegrityError
                    else Inr (put_once f value current, launch_put (key, gen) (put_once f value current) j)
                | Some have \<Rightarrow> if have \<noteq> value then Inl EntryConflict else Inr (current, j))))"

section \<open>Receipts\<close>

text \<open>The table's CHECK constraints, its key and its foreign key; any violation is EntryConflict.\<close>

definition receipt_check :: "receipt \<Rightarrow> bool" where
  "receipt_check r \<longleftrightarrow>
     (rc_kind r = ''started'' \<or> rc_kind r = ''refused'') \<and>
     (rc_refusal r = None \<or> rc_refusal r = Some ''failed'' \<or> rc_refusal r = Some ''unavailable'') \<and>
     (rc_kind r = ''refused'') = (rc_refusal r \<noteq> None)"

definition receipt_put :: "timestamp \<Rightarrow> receipt \<Rightarrow> journal \<Rightarrow> journal_error + journal" where
  "receipt_put ts r j =
     (let k = (rc_session_key r, rc_generation r) in
      if k \<in> fst ` set (j_receipts j) \<or> k \<notin> fst ` set (j_launches j) \<or> \<not> receipt_check r
      then Inl EntryConflict
      else Inr (j\<lparr>j_receipts := j_receipts j @ [(k, (r, ts))]\<rparr>))"

definition receipt_of :: "session_key \<Rightarrow> generation \<Rightarrow> journal \<Rightarrow> receipt option" where
  "receipt_of key gen j = map_option fst (map_of (j_receipts j) (key, gen))"

definition receipts :: "journal \<Rightarrow> nat" where
  "receipts j = length (j_receipts j)"

section \<open>Adoptions\<close>

definition adoption_for :: "ws_name \<Rightarrow> bead_id \<Rightarrow> journal \<Rightarrow> adoption option" where
  "adoption_for ws bead j = map_of (j_adoptions j) (ws, bead)"

definition adoptions_unsettled :: "ws_name \<Rightarrow> journal \<Rightarrow> (bead_id \<times> adoption) list" where
  "adoptions_unsettled ws j =
     sort_key fst (map (\<lambda>((w, b), a). (b, a))
       (filter (\<lambda>((w, b), a). w = ws \<and> \<not> a_settled a) (j_adoptions j)))"

definition adoption_settle :: "ws_name \<Rightarrow> bead_id \<Rightarrow> journal \<Rightarrow> journal" where
  "adoption_settle ws bead j =
     j\<lparr>j_adoptions := map (\<lambda>(k, a). (k, if k = (ws, bead) then a\<lparr>a_settled := True\<rparr> else a)) (j_adoptions j)\<rparr>"

definition adoption_resolve ::
    "timestamp \<Rightarrow> ws_name \<Rightarrow> bead_id \<Rightarrow> string \<Rightarrow> journal \<Rightarrow> journal_error + journal" where
  "adoption_resolve ts ws bead by_whom j =
     (case adoption_for ws bead j of
        None \<Rightarrow> Inl EntryConflict
      | Some a \<Rightarrow>
          if unresolved_hold a then
            Inr (j\<lparr>j_adoptions := AList.update (ws, bead)
                   (a\<lparr>a_resolution := Some ''adopted'', a_resolved_at := Some ts,
                      a_resolved_by := Some by_whom\<rparr>) (j_adoptions j)\<rparr>)
          else Inl EntryConflict)"

section \<open>Deferral records\<close>

definition deferral_numbers :: "session_key \<Rightarrow> journal \<Rightarrow> int list" where
  "deferral_numbers key j = map (snd \<circ> fst) (filter (\<lambda>((k, n), _). k = key) (j_deferrals j))"

definition deferral_insert :: "session_key \<Rightarrow> int \<Rightarrow> deferral_row \<Rightarrow> journal \<Rightarrow> journal_error + journal" where
  "deferral_insert key number row j =
     (if (key, number) \<in> fst ` set (j_deferrals j) then Inl IntegrityError
      else Inr (j\<lparr>j_deferrals := j_deferrals j @ [((key, number), row)]\<rparr>))"

definition deferral_current :: "session_key \<Rightarrow> journal \<Rightarrow> (int \<times> deferral_row) option" where
  "deferral_current key j =
     (let ns = deferral_numbers key j in
      if ns = [] then None
      else let n = Max (set ns) in map_option (Pair n) (map_of (j_deferrals j) (key, n)))"

definition deferral_next :: "session_key \<Rightarrow> journal \<Rightarrow> int" where
  "deferral_next key j =
     (let ns = deferral_numbers key j in if ns = [] then 1 else Max (set ns) + 1)"

text \<open>\<^verbatim>\<open>_CURRENT_DEFERRALS\<close>: each session's highest-numbered record.\<close>

definition current_deferrals :: "journal \<Rightarrow> ((session_key \<times> int) \<times> deferral_row) list" where
  "current_deferrals j =
     filter (\<lambda>((k, n), _). n = Max (set (deferral_numbers k j))) (j_deferrals j)"

definition deferrals_current ::
    "ws_name \<Rightarrow> string \<Rightarrow> journal \<Rightarrow> ((session_key \<times> int) \<times> deferral_row) list" where
  "deferrals_current ws role j =
     sort_key (d_bead \<circ> snd) (sort_key (fst \<circ> fst)
       (filter (\<lambda>(_, d). d_role d = role \<and> list_ex (\<lambda>((w, b), _). w = ws \<and> b = d_bead d) (j_beads j))
         (current_deferrals j)))"

definition over_key :: "session_key \<Rightarrow> int \<Rightarrow> string" where
  "over_key key number = ''deferral_over:'' @ key @ '':'' @ show_int number"

definition mark_over :: "epoch_seconds \<Rightarrow> session_key \<Rightarrow> int \<Rightarrow> journal \<Rightarrow> bool \<times> journal" where
  "mark_over now key number j =
     (over_key key number \<notin> fst ` set (j_meta j),
      j\<lparr>j_meta := put_new (over_key key number) (show_int now) (j_meta j)\<rparr>)"

definition is_over :: "session_key \<Rightarrow> int \<Rightarrow> journal \<Rightarrow> bool" where
  "is_over key number j \<longleftrightarrow> map_of (j_meta j) (over_key key number) \<noteq> None"

definition drop_over :: "session_key \<Rightarrow> int \<Rightarrow> journal \<Rightarrow> journal" where
  "drop_over key number j = j\<lparr>j_meta := AList.delete (over_key key number) (j_meta j)\<rparr>"

section \<open>Crash accounting\<close>

definition CRASH_CLASSES :: "string list" where
  "CRASH_CLASSES = [''died'', ''stopped'', ''lifetime'', ''legacy'', ''reset'']"

definition crash_gen :: "launch_entry \<Rightarrow> string" where
  "crash_gen e = ''crash_gen:'' @ le_ws e @ '':'' @ le_bead e @ '':'' @ le_session_key e @ '':''
     @ show_int (le_generation e)"

definition crash_run :: "ws_name \<Rightarrow> bead_id \<Rightarrow> string" where
  "crash_run ws bead = ''crash_run:'' @ ws @ '':'' @ bead"

definition crash_class :: "launch_entry \<Rightarrow> journal \<Rightarrow> string option" where
  "crash_class e j = map_of (j_meta j) (crash_gen e)"

definition crash_accounted :: "launch_entry \<Rightarrow> journal \<Rightarrow> bool" where
  "crash_accounted e j \<longleftrightarrow> crash_class e j \<noteq> None"

definition crash_count :: "ws_name \<Rightarrow> bead_id \<Rightarrow> journal \<Rightarrow> journal_error + int" where
  "crash_count ws bead j =
     (case map_of (j_meta j) (crash_run ws bead) of
        None \<Rightarrow> Inr 0
      | Some v \<Rightarrow> (case py_int v of None \<Rightarrow> Inl ValueError | Some n \<Rightarrow> Inr n))"

definition crash_set :: "ws_name \<Rightarrow> bead_id \<Rightarrow> int \<Rightarrow> journal \<Rightarrow> journal" where
  "crash_set ws bead n j = j\<lparr>j_meta := AList.update (crash_run ws bead) (show_int n) (j_meta j)\<rparr>"

definition crash_account ::
    "ws_name \<Rightarrow> bead_id \<Rightarrow> launch_entry \<Rightarrow> string \<Rightarrow> journal \<Rightarrow> journal_error + int \<times> journal" where
  "crash_account ws bead e klass j =
     (if klass \<notin> set CRASH_CLASSES then Inl ValueError
      else bind_result (crash_count ws bead j) (\<lambda>n.
        let new = \<not> crash_accounted e j;
            j1 = j\<lparr>j_meta := put_new (crash_gen e) klass (j_meta j)\<rparr>
        in if new \<and> (klass = ''died'' \<or> klass = ''lifetime'')
           then let n' = (if klass = ''died'' then n + 1 else 0) in Inr (n', crash_set ws bead n' j1)
           else Inr (n, j1)))"

definition crash_reset :: "ws_name \<Rightarrow> bead_id \<Rightarrow> journal \<Rightarrow> journal" where
  "crash_reset ws bead j =
     crash_set ws bead 0
       (foldl (\<lambda>j e. if le_outcome e = Some LAUNCHED
                     then j\<lparr>j_meta := put_new (crash_gen e) ''reset'' (j_meta j)\<rparr> else j)
         j (launches_of ws bead j))"

text \<open>The end a resolve carried; the JSON text of the stored end is \<open>encode_end end\<close>.\<close>

record resolved_end =
  re_cause :: string
  re_reached_running :: bool
  re_ran_seconds :: "int option"

definition crash_end_key :: "ws_name \<Rightarrow> bead_id \<Rightarrow> session_key \<Rightarrow> generation \<Rightarrow> string" where
  "crash_end_key ws bead key gen =
     ''crash_end:'' @ ws @ '':'' @ bead @ '':'' @ key @ '':'' @ show_int gen"

definition emit_resolved ::
    "(resolved_end \<Rightarrow> string) \<Rightarrow> timestamp \<Rightarrow> ws_name \<Rightarrow> bead_id \<Rightarrow> event_detail \<Rightarrow> string \<Rightarrow> session_key \<Rightarrow>
     generation \<Rightarrow> resolved_end option \<Rightarrow> journal \<Rightarrow> bool \<times> journal" where
  "emit_resolved encode_end ts ws bead detail ref key gen ended j =
     (let (wrote, j1) = emit_once ts ws (Some bead) ''unlanded_resolved'' detail ref j in
      (wrote, case ended of
                None \<Rightarrow> j1
              | Some e \<Rightarrow> j1\<lparr>j_meta := put_new (crash_end_key ws bead key gen) (encode_end e) (j_meta j1)\<rparr>))"

definition resolved_end_of ::
    "(string \<Rightarrow> resolved_end option) \<Rightarrow> launch_entry \<Rightarrow> journal \<Rightarrow> resolved_end option" where
  "resolved_end_of decode_end e j =
     Option.bind (map_of (j_meta j)
       (crash_end_key (le_ws e) (le_bead e) (le_session_key e) (le_generation e))) decode_end"

end
