(* ===== verification/Journal_Usage.thy ===== *)
theory Journal_Usage
  imports Journal_Launch
begin

text \<open>
  The journal's usage tables (\<^verbatim>\<open>wsd/journal.py\<close>): the receipt counter, trusted and untrusted
  usage windows, exhaustion marks, the deadline clamp, and the managed installs. Times and counters
  are decimal text, as stored.
\<close>

section \<open>The receipt counter\<close>

definition SEQ_KEY :: string where "SEQ_KEY = ''usage_receipt_seq''"

text \<open>A missing counter row makes the source fail on \<^verbatim>\<open>None\<close>; a counter at SQLite's largest
  integer would be stored as a float, which no longer reads back as an integer.\<close>

definition usage_seq_next :: "journal \<Rightarrow> journal_error + int \<times> journal" where
  "usage_seq_next j =
     (case map_of (j_meta j) SEQ_KEY of
        None \<Rightarrow> Inl KeyError
      | Some v \<Rightarrow>
          let n = cast_integer v in
          if n = sqlite_max then Inl ValueError
          else Inr (n + 1, j\<lparr>j_meta := AList.update SEQ_KEY (show_int (n + 1)) (j_meta j)\<rparr>))"

section \<open>Usage windows\<close>

definition row_window :: "string \<Rightarrow> usage_row \<Rightarrow> window option" where
  "row_window window_id r =
     (case (epoch (Some (u_observed_at r)), u_used_percent r) of
        (Some observed, Some pct) \<Rightarrow>
          Some \<lparr>w_window_id = window_id, w_kind = u_kind r, w_used_percent = pct,
                w_resets_at = epoch (u_resets_at r), w_observed_at = observed,
                w_receipt_seq = u_receipt_seq r, w_source = u_source r\<rparr>
      | _ \<Rightarrow> None)"

definition window_row :: "window \<Rightarrow> int \<Rightarrow> usage_row" where
  "window_row w seq =
     \<lparr>u_kind = w_kind w, u_used_percent = Some (w_used_percent w),
      u_resets_at = map_option show_int (w_resets_at w), u_observed_at = show_int (w_observed_at w),
      u_receipt_seq = seq, u_source = w_source w\<rparr>"

text \<open>\<^verbatim>\<open>ON CONFLICT DO UPDATE ... WHERE excluded.receipt_seq > receipt_seq\<close>.\<close>

definition put_newer :: "('r \<Rightarrow> int) \<Rightarrow> 'k \<Rightarrow> 'r \<Rightarrow> ('k, 'r) table \<Rightarrow> ('k, 'r) table" where
  "put_newer seq_of k r t =
     (case map_of t k of
        None \<Rightarrow> AList.update k r t
      | Some old \<Rightarrow> if seq_of r > seq_of old then AList.update k r t else t)"

definition usage_put_trusted :: "string \<Rightarrow> window \<Rightarrow> int \<Rightarrow> journal \<Rightarrow> journal" where
  "usage_put_trusted key w seq j =
     j\<lparr>j_usage := put_newer u_receipt_seq (key, w_window_id w) (window_row w seq) (j_usage j)\<rparr>"

definition usage_put_untrusted :: "session_key \<Rightarrow> generation \<Rightarrow> window \<Rightarrow> int \<Rightarrow> journal \<Rightarrow> journal" where
  "usage_put_untrusted key gen w seq j =
     j\<lparr>j_untrusted := put_newer u_receipt_seq ((key, gen), w_window_id w) (window_row w seq) (j_untrusted j)\<rparr>"

definition clamp_exhausted_key :: "string \<Rightarrow> int \<Rightarrow> string" where
  "clamp_exhausted_key key seq = ''clamp:exhausted:'' @ key @ '':'' @ show_int seq"

definition clamp_deferral_key :: "session_key \<Rightarrow> int \<Rightarrow> string" where
  "clamp_deferral_key key number = ''clamp:deferral:'' @ key @ '':'' @ show_int number"

definition exhausted_put :: "string \<Rightarrow> mark \<Rightarrow> int \<Rightarrow> journal \<Rightarrow> journal" where
  "exhausted_put key m seq j =
     (let row = \<lparr>x_until = Some (show_int (m_until m)), x_observed_at = show_int (m_observed_at m),
                 x_receipt_seq = seq\<rparr>;
          j1 = j\<lparr>j_exhausted := put_newer x_receipt_seq key row (j_exhausted j)\<rparr>
      in case map_of (j_exhausted j) key of
           None \<Rightarrow> j1
         | Some old \<Rightarrow>
             if seq > x_receipt_seq old
             then j1\<lparr>j_meta := AList.delete (clamp_exhausted_key key (x_receipt_seq old)) (j_meta j1)\<rparr>
             else j1)"

definition key_windows :: "string \<Rightarrow> journal \<Rightarrow> window list" where
  "key_windows key j =
     List.map_filter (\<lambda>((k, wid), r). row_window wid r)
       (sort_key (snd \<circ> fst) (filter (\<lambda>((k, wid), r). k = key) (j_usage j)))"

definition row_mark :: "exhausted_row \<Rightarrow> mark option" where
  "row_mark r =
     (case (epoch (x_until r), epoch (Some (x_observed_at r))) of
        (Some u, Some obs) \<Rightarrow> Some \<lparr>m_until = u, m_observed_at = obs, m_receipt_seq = x_receipt_seq r\<rparr>
      | _ \<Rightarrow> None)"

text \<open>A key with no readable window has no entry, as in \<^verbatim>\<open>windows.setdefault(...).append(...)\<close>.\<close>

definition usage_cache_of :: "string list \<Rightarrow> journal \<Rightarrow> usage_cache" where
  "usage_cache_of keys j =
     (let wanted = sort (remdups keys) in
      \<lparr>uc_windows = filter (\<lambda>(k, ws). ws \<noteq> []) (map (\<lambda>k. (k, key_windows k j)) wanted),
       uc_marks = List.map_filter (\<lambda>(k, r). if k \<in> set wanted then map_option (Pair k) (row_mark r) else None)
                    (j_exhausted j)\<rparr>)"

definition usage_untrusted :: "session_key \<Rightarrow> generation \<Rightarrow> journal \<Rightarrow> window list" where
  "usage_untrusted key gen j =
     List.map_filter (\<lambda>((k, wid), r). row_window wid r)
       (sort_key (snd \<circ> fst) (filter (\<lambda>((k, wid), r). k = (key, gen)) (j_untrusted j)))"

section \<open>Clamping deadlines\<close>

text \<open>SQLite's \<^verbatim>\<open>LIKE 'clamp:%'\<close> ignores the case of ASCII letters.\<close>

definition ascii_lower :: "char \<Rightarrow> char" where
  "ascii_lower c = (if CHR ''A'' \<le> c \<and> c \<le> CHR ''Z'' then char_of (of_char c + 32 :: nat) else c)"

definition is_clamp_key :: "string \<Rightarrow> bool" where
  "is_clamp_key k \<longleftrightarrow> is_prefix_of ''clamp:'' (map ascii_lower k)"

definition clamp_wanted :: "string \<Rightarrow> string option \<Rightarrow> int \<Rightarrow> (string, string) table \<Rightarrow> bool" where
  "clamp_wanted marker value bound markers =
     (case epoch value of
        None \<Rightarrow> False
      | Some due \<Rightarrow> \<not> due \<le> bound \<and> map_of markers marker \<noteq> value)"

definition clamp_exhausted_row ::
    "int \<Rightarrow> (string, string) table \<Rightarrow> string \<Rightarrow> exhausted_row \<Rightarrow> exhausted_row" where
  "clamp_exhausted_row bound markers key r =
     (if clamp_wanted (clamp_exhausted_key key (x_receipt_seq r)) (x_until r) bound markers
      then r\<lparr>x_until := Some (show_int bound)\<rparr> else r)"

definition clamp_deferral_row ::
    "int \<Rightarrow> (string, string) table \<Rightarrow> (session_key \<times> int) set \<Rightarrow> session_key \<times> int \<Rightarrow> deferral_row \<Rightarrow>
     deferral_row" where
  "clamp_deferral_row bound markers current k r =
     (if k \<in> current \<and> clamp_wanted (clamp_deferral_key (fst k) (snd k)) (d_defer_until r) bound markers
      then r\<lparr>d_defer_until := Some (show_int bound)\<rparr> else r)"

definition clamp_deadlines :: "int \<Rightarrow> journal \<Rightarrow> nat \<times> journal" where
  "clamp_deadlines bound j =
     (let markers = filter (is_clamp_key \<circ> fst) (j_meta j);
          current = current_deferrals j;
          hit_x = filter (\<lambda>(k, r). clamp_wanted (clamp_exhausted_key k (x_receipt_seq r)) (x_until r)
                             bound markers) (j_exhausted j);
          hit_d = filter (\<lambda>(k, r). clamp_wanted (clamp_deferral_key (fst k) (snd k)) (d_defer_until r)
                             bound markers) current;
          hits = map (\<lambda>(k, r). clamp_exhausted_key k (x_receipt_seq r)) hit_x
                 @ map (\<lambda>(k, r). clamp_deferral_key (fst k) (snd k)) hit_d;
          live = map (\<lambda>(k, r). clamp_exhausted_key k (x_receipt_seq r)) (j_exhausted j)
                 @ map (\<lambda>(k, r). clamp_deferral_key (fst k) (snd k)) current;
          meta1 = foldl (\<lambda>t m. AList.update m (show_int bound) t) (j_meta j) hits;
          meta2 = filter (\<lambda>(k, v). \<not> (k \<in> fst ` set markers \<and> k \<notin> set live)) meta1
      in (length hits,
          j\<lparr>j_meta := meta2,
            j_exhausted := map (\<lambda>(k, r). (k, clamp_exhausted_row bound markers k r)) (j_exhausted j),
            j_deferrals := map (\<lambda>(k, r). (k, clamp_deferral_row bound markers (fst ` set current) k r))
                             (j_deferrals j)\<rparr>))"

section \<open>Managed installs\<close>

definition HARNESS_STATES :: "string list" where
  "HARNESS_STATES = [''staged'', ''posted'', ''approved'', ''published'', ''denied'', ''expired'', ''failed'']"

definition harness_insert :: "string \<Rightarrow> harness_install \<Rightarrow> journal \<Rightarrow> journal_error + journal" where
  "harness_insert staging_id row j =
     (if staging_id \<in> fst ` set (j_harness j) \<or> h_state row \<notin> set HARNESS_STATES then Inl IntegrityError
      else Inr (j\<lparr>j_harness := j_harness j @ [(staging_id, row)]\<rparr>))"

definition HARNESS_SET :: "string list" where
  "HARNESS_SET = [''approval_bead'', ''context_digest'', ''ask_id'', ''state'', ''install'', ''failure'']"

definition harness_field :: "string \<Rightarrow> string \<Rightarrow> harness_install \<Rightarrow> harness_install" where
  "harness_field name v r =
     (if name = ''approval_bead'' then r\<lparr>h_approval_bead := v\<rparr>
      else if name = ''context_digest'' then r\<lparr>h_context_digest := v\<rparr>
      else if name = ''ask_id'' then r\<lparr>h_ask_id := v\<rparr>
      else if name = ''state'' then r\<lparr>h_state := v\<rparr>
      else if name = ''install'' then r\<lparr>h_install := v\<rparr>
      else if name = ''failure'' then r\<lparr>h_failure := v\<rparr>
      else r)"

definition harness_set ::
    "string \<Rightarrow> timestamp \<Rightarrow> (string, string) table \<Rightarrow> journal \<Rightarrow> journal_error + harness_install \<times> journal" where
  "harness_set staging_id ts flds j =
     (if flds = [] \<or> \<not> set (map fst flds) \<subseteq> set HARNESS_SET then Inl ValueError
      else case map_of (j_harness j) staging_id of
             None \<Rightarrow> Inl KeyError
           | Some r \<Rightarrow>
               let r' = (foldl (\<lambda>r (k, v). harness_field k v r) r flds)\<lparr>h_updated_at := ts\<rparr> in
               if h_state r' \<notin> set HARNESS_STATES then Inl IntegrityError
               else Inr (r', j\<lparr>j_harness := AList.update staging_id r' (j_harness j)\<rparr>))"

definition harness_installs :: "string list \<Rightarrow> journal \<Rightarrow> (string \<times> harness_install) list" where
  "harness_installs sts j =
     sort_key (h_created_at \<circ> snd) (sort_key fst
       (filter (\<lambda>(_, r). sts = [] \<or> h_state r \<in> set sts) (j_harness j)))"

text \<open>\<^verbatim>\<open>id INTEGER PRIMARY KEY\<close>: one more than the largest id in the table.\<close>

definition harness_event ::
    "timestamp \<Rightarrow> string \<Rightarrow> string \<Rightarrow> string \<Rightarrow> string \<Rightarrow> string \<Rightarrow> journal \<Rightarrow> journal" where
  "harness_event ts actor action adapter install detail j =
     (let n = (if j_harness_events j = [] then 1 else Max (set (map fst (j_harness_events j))) + 1) in
      j\<lparr>j_harness_events := j_harness_events j @ [(n, \<lparr>he_at = ts, he_actor = actor, he_action = action,
          he_adapter = adapter, he_install = install, he_detail = detail\<rparr>)]\<rparr>)"

definition harness_events :: "journal \<Rightarrow> (int \<times> harness_event_row) list" where
  "harness_events j = sort_key fst (j_harness_events j)"

definition HARNESS_OPEN :: string where "HARNESS_OPEN = ''harness_open:''"

definition harness_key :: "string \<Rightarrow> string \<Rightarrow> string \<Rightarrow> string" where
  "harness_key kind adapter install = kind @ adapter @ '':'' @ install"

definition harness_open :: "string \<Rightarrow> string \<Rightarrow> timestamp \<Rightarrow> journal \<Rightarrow> journal" where
  "harness_open adapter install ts j =
     j\<lparr>j_meta := AList.update (harness_key HARNESS_OPEN adapter install) ts (j_meta j)\<rparr>"

definition harness_close :: "string \<Rightarrow> string \<Rightarrow> journal \<Rightarrow> journal" where
  "harness_close adapter install j =
     j\<lparr>j_meta := AList.delete (harness_key HARNESS_OPEN adapter install) (j_meta j)\<rparr>"

definition harness_close_all :: "journal \<Rightarrow> nat \<times> journal" where
  "harness_close_all j =
     (length (filter (\<lambda>(k, _). is_prefix_of HARNESS_OPEN k) (j_meta j)),
      j\<lparr>j_meta := filter (\<lambda>(k, _). \<not> is_prefix_of HARNESS_OPEN k) (j_meta j)\<rparr>)"

text \<open>The adapter and install of every open \<^verbatim>\<open>use\<close>: the rest of the key, split at its first colon.\<close>

definition split_colon :: "string \<Rightarrow> (string \<times> string) option" where
  "split_colon s =
     (if CHR '':'' \<in> set s
      then Some (takeWhile (\<lambda>c. c \<noteq> CHR '':'') s, tl (dropWhile (\<lambda>c. c \<noteq> CHR '':'') s)) else None)"

definition harness_opened :: "journal \<Rightarrow> (string \<times> string) list" where
  "harness_opened j =
     List.map_filter (\<lambda>(k, _). if is_prefix_of HARNESS_OPEN k
                               then split_colon (drop (length HARNESS_OPEN) k) else None) (j_meta j)"

definition HARNESS_TAINTS :: string where "HARNESS_TAINTS = ''harness_taints:''"

definition harness_taints :: "string \<Rightarrow> string \<Rightarrow> journal \<Rightarrow> journal_error + int" where
  "harness_taints adapter install j =
     (case map_of (j_meta j) (harness_key HARNESS_TAINTS adapter install) of
        None \<Rightarrow> Inr 0
      | Some v \<Rightarrow> (case py_int v of None \<Rightarrow> Inl ValueError | Some n \<Rightarrow> Inr n))"

definition harness_taint_cleared :: "string \<Rightarrow> string \<Rightarrow> journal \<Rightarrow> journal" where
  "harness_taint_cleared adapter install j =
     (let k = harness_key HARNESS_TAINTS adapter install in
      j\<lparr>j_meta := (case map_of (j_meta j) k of
                      None \<Rightarrow> AList.update k ''1'' (j_meta j)
                    | Some v \<Rightarrow> AList.update k (show_int (cast_integer v + 1)) (j_meta j))\<rparr>)"

end
