(* ===== verification/Journal_Steps.thy ===== *)
theory Journal_Steps
  imports Journal_Usage
begin

text \<open>
  The journal as a state machine: one step per method of \<^verbatim>\<open>Journal\<close> that writes. Every method is
  atomic (one transaction under the journal's lock), so any run of wsd, whatever threads it uses,
  is a sequence of these steps. The lemmas show what every reachable journal satisfies, and what
  no step ever takes back.
\<close>

section \<open>Steps\<close>

inductive jstep :: "journal \<Rightarrow> journal \<Rightarrow> bool" where
  s_emit: "emit ts ws b k d r j = (n, j') \<Longrightarrow> jstep j j'"
| s_emit_once: "emit_once ts ws b k d rf j = (w, j') \<Longrightarrow> jstep j j'"
| s_inbox_add: "inbox_add ts su ev k pl wo bo j = (so, j') \<Longrightarrow> jstep j j'"
| s_inbox_failed: "inbox_failed ts seq lm j = Inr (st, j') \<Longrightarrow> jstep j j'"
| s_inbox_finish: "inbox_finish ts seq st j = Inr j' \<Longrightarrow> jstep j j'"
| s_op_open: "op_open ts oid kind ws bd data j = Inr (row, j') \<Longrightarrow> jstep j j'"
| s_op_step: "op_step ts oid step data j = Inr (row, j') \<Longrightarrow> jstep j j'"
| s_op_failed: "op_failed ts oid j = Inr (n, j') \<Longrightarrow> jstep j j'"
| s_op_finish: "op_finish ts oid ost j = Inr j' \<Longrightarrow> jstep j j'"
| s_op_forget: "op_forget ts oid keys j = Inr (row, j') \<Longrightarrow> jstep j j'"
| s_set_state: "set_state ts ws bd bst re dt rfo j = Inr j' \<Longrightarrow> jstep j j'"
| s_adopt: "adopt ts ws bd bst re dt rfo j = j' \<Longrightarrow> jstep j j'"
| s_hold: "hold ts ws rs dt j = j' \<Longrightarrow> jstep j j'"
| s_unhold: "unhold ts ws rs j = j' \<Longrightarrow> jstep j j'"
| s_set_ws_state: "set_ws_state ts ws wst j = j' \<Longrightarrow> jstep j j'"
| s_launch_insert: "launch_insert ts le rb j = Inr j' \<Longrightarrow> jstep j j'"
| s_launch_set: "launch_set key gen name v j = Inr (le, j') \<Longrightarrow> jstep j j'"
| s_receipt_put: "receipt_put ts rc j = Inr j' \<Longrightarrow> jstep j j'"
| s_adoption_settle: "adoption_settle ws bd j = j' \<Longrightarrow> jstep j j'"
| s_adoption_resolve: "adoption_resolve ts ws bd who j = Inr j' \<Longrightarrow> jstep j j'"
| s_deferral_insert: "deferral_insert key n drow j = Inr j' \<Longrightarrow> jstep j j'"
| s_mark_over: "mark_over now key n j = (w, j') \<Longrightarrow> jstep j j'"
| s_drop_over: "drop_over key n j = j' \<Longrightarrow> jstep j j'"
| s_crash_account: "crash_account ws bd le klass j = Inr (n, j') \<Longrightarrow> jstep j j'"
| s_crash_reset: "crash_reset ws bd j = j' \<Longrightarrow> jstep j j'"
| s_emit_resolved: "emit_resolved enc ts ws bd d rf key gen en j = (w, j') \<Longrightarrow> jstep j j'"
| s_usage_seq: "usage_seq_next j = Inr (n, j') \<Longrightarrow> jstep j j'"
| s_usage_trusted: "usage_put_trusted key wi n j = j' \<Longrightarrow> jstep j j'"
| s_usage_untrusted: "usage_put_untrusted key gen wi n j = j' \<Longrightarrow> jstep j j'"
| s_exhausted: "exhausted_put key mk n j = j' \<Longrightarrow> jstep j j'"
| s_clamp: "clamp_deadlines n j = (c, j') \<Longrightarrow> jstep j j'"
| s_harness_insert: "harness_insert sid hrow j = Inr j' \<Longrightarrow> jstep j j'"
| s_harness_set: "harness_set sid ts flds j = Inr (hrow, j') \<Longrightarrow> jstep j j'"
| s_harness_event: "harness_event ts a b c d e j = j' \<Longrightarrow> jstep j j'"
| s_harness_open: "harness_open a b ts j = j' \<Longrightarrow> jstep j j'"
| s_harness_close: "harness_close a b j = j' \<Longrightarrow> jstep j j'"
| s_harness_close_all: "harness_close_all j = (c, j') \<Longrightarrow> jstep j j'"
| s_harness_taint: "harness_taint_cleared a b j = j' \<Longrightarrow> jstep j j'"


lemmas op_defs = emit_def emit_once_def inbox_add_def inbox_failed_def inbox_finish_def
  inbox_update_def inbox_get_def op_open_def op_step_def op_failed_def op_finish_def op_forget_def
  op_get_def op_put_def set_state_def adopt_def put_state_def hold_def unhold_def set_ws_state_def
  launch_insert_def launch_set_def launch_put_def receipt_put_def adoption_settle_def
  adoption_resolve_def deferral_insert_def mark_over_def drop_over_def crash_account_def
  crash_set_def emit_resolved_def usage_seq_next_def
  usage_put_trusted_def usage_put_untrusted_def exhausted_put_def clamp_deadlines_def
  harness_insert_def harness_set_def harness_event_def harness_open_def harness_close_def
  harness_close_all_def harness_taint_cleared_def

lemmas op_splits = if_splits option.splits sum.splits prod.splits

section \<open>What one step does to each table\<close>

text \<open>\<open>crash_reset\<close> walks the bead's entries and writes only crash rows.\<close>

definition reset_entry :: "journal \<Rightarrow> launch_entry \<Rightarrow> journal" where
  "reset_entry j e =
     (if le_outcome e = Some LAUNCHED
      then j\<lparr>j_meta := put_new (crash_gen e) ''reset'' (j_meta j)\<rparr> else j)"

definition crash_rows :: "(string, string) table \<Rightarrow> launch_entry list \<Rightarrow> (string, string) table" where
  "crash_rows t es =
     foldl (\<lambda>t e. if le_outcome e = Some LAUNCHED then put_new (crash_gen e) ''reset'' t else t) t es"

lemma fold_reset_entry:
  "foldl reset_entry j es = j\<lparr>j_meta := crash_rows (j_meta j) es\<rparr>"
proof (induction es arbitrary: j)
  case (Cons e es)
  then show ?case by (simp add: reset_entry_def crash_rows_def)
qed (simp add: crash_rows_def)

lemma crash_reset_eq:
  "crash_reset ws bead j =
     j\<lparr>j_meta := AList.update (crash_run ws bead) (show_int 0) (crash_rows (j_meta j) (launches_of ws bead j))\<rparr>"
proof -
  have "crash_reset ws bead j = crash_set ws bead 0 (foldl reset_entry j (launches_of ws bead j))"
    unfolding crash_reset_def reset_entry_def ..
  then show ?thesis by (simp add: crash_set_def fold_reset_entry)
qed

lemma clamp_frame:
  assumes "clamp_deadlines n j = (c, j')"
  shows "j_events j' = j_events j" "j_event_seq j' = j_event_seq j" "j_inbox j' = j_inbox j" "j_inbox_seq j' = j_inbox_seq j"
proof -
  have "j' = snd (clamp_deadlines n j)" using assms by simp
  then show "j_events j' = j_events j" "j_event_seq j' = j_event_seq j" "j_inbox j' = j_inbox j" "j_inbox_seq j' = j_inbox_seq j"
    by (simp_all add: clamp_deadlines_def Let_def)
qed

lemma jstep_events:
  assumes "jstep j j'"
  shows "j_events j' = j_events j \<and> j_event_seq j' = j_event_seq j \<or>
    (\<exists>e. j_events j' = j_events j @ [(j_event_seq j + 1, e)] \<and> j_event_seq j' = j_event_seq j + 1)"
  using assms
  apply cases
  apply (auto simp: op_defs crash_reset_eq Let_def result_simps split: op_splits)[15]
  apply (auto simp: op_defs crash_reset_eq Let_def result_simps split: op_splits)[15]
  apply (simp add: clamp_frame)
  apply (auto simp: op_defs crash_reset_eq Let_def result_simps split: op_splits)
  done

subsection \<open>Operations\<close>

text \<open>How a row of the operation journal may change: never its bead, and nothing but its
  attempt count once it is finished.\<close>

definition op_evolves :: "op_row \<Rightarrow> op_row \<Rightarrow> bool" where
  "op_evolves r r' \<longleftrightarrow> o_kind r' = o_kind r \<and> o_ws r' = o_ws r \<and> o_bead r' = o_bead r \<and>
     o_attempts r \<le> o_attempts r' \<and>
     (o_status r \<noteq> OP_OPEN \<longrightarrow>
        o_status r' = o_status r \<and> o_step r' = o_step r \<and> o_data r' = o_data r)"

lemma op_evolves_refl [simp]: "op_evolves r r"
  by (simp add: op_evolves_def)

lemma op_evolves_trans: "op_evolves a b \<Longrightarrow> op_evolves b c \<Longrightarrow> op_evolves a c"
  by (auto simp: op_evolves_def)

definition op_updated :: "journal \<Rightarrow> journal \<Rightarrow> bool" where
  "op_updated j j' \<longleftrightarrow>
     (\<exists>oid r r'. map_of (j_ops j) oid = Some r \<and> op_evolves r r' \<and> j' = op_put oid r' j)"

lemma op_updatedI:
  "map_of (j_ops j) oid = Some r \<Longrightarrow> op_evolves r r' \<Longrightarrow> op_updated j (op_put oid r' j)"
  by (auto simp: op_updated_def)

lemma op_step_updates: "op_step ts oid st data j = Inr (r', j') \<Longrightarrow> op_updated j j'"
  by (auto simp: op_step_def op_get_def op_evolves_def Let_def
      split: option.splits if_splits intro!: op_updatedI)

lemma op_failed_updates: "op_failed ts oid j = Inr (n, j') \<Longrightarrow> op_updated j j'"
  by (auto simp: op_failed_def op_get_def op_evolves_def Let_def
      split: option.splits intro!: op_updatedI)

lemma op_forget_updates: "op_forget ts oid ks j = Inr (r', j') \<Longrightarrow> op_updated j j'"
  by (auto simp: op_forget_def op_get_def op_evolves_def Let_def
      split: option.splits if_splits intro!: op_updatedI)

lemma op_finish_updates: "op_finish ts oid st j = Inr j' \<Longrightarrow> j' = j \<or> op_updated j j'"
  by (auto simp: op_finish_def op_evolves_def split: option.splits if_splits intro!: op_updatedI)

lemma jstep_ops:
  assumes "jstep j j'"
  shows "j_ops j' = j_ops j \<or> op_updated j j' \<or>
   (\<exists>oid r. oid \<notin> fst ` set (j_ops j) \<and> op_for (o_ws r) (o_bead r) j = None \<and>
      o_status r = OP_OPEN \<and> j_ops j' = j_ops j @ [(oid, r)])"
  using assms
proof cases
  case s_op_open
  then show ?thesis by (auto simp: op_open_def Let_def split: if_splits)
next
  case s_op_step
  then show ?thesis by (auto dest: op_step_updates)
next
  case s_op_failed
  then show ?thesis by (auto dest: op_failed_updates)
next
  case s_op_finish
  then show ?thesis by (auto dest: op_finish_updates)
next
  case s_op_forget
  then show ?thesis by (auto dest: op_forget_updates)
qed (auto simp: op_defs crash_reset_eq Let_def result_simps split: op_splits)

subsection \<open>Inbox\<close>

text \<open>How an inbox row may change: never its identity or payload, and nothing once it is final.\<close>

definition inbox_evolves :: "inbox_row \<Rightarrow> inbox_row \<Rightarrow> bool" where
  "inbox_evolves r r' \<longleftrightarrow>
     ib_surface r' = ib_surface r \<and> ib_event_id r' = ib_event_id r \<and> ib_kind r' = ib_kind r \<and>
     ib_ws r' = ib_ws r \<and> ib_bead r' = ib_bead r \<and> ib_payload r' = ib_payload r \<and>
     ib_attempts r \<le> ib_attempts r' \<and> (ib_status r \<noteq> PENDING \<longrightarrow> r' = r)"

lemma inbox_evolves_refl [simp]: "inbox_evolves r r"
  by (simp add: inbox_evolves_def)

lemma inbox_evolves_trans: "inbox_evolves a b \<Longrightarrow> inbox_evolves b c \<Longrightarrow> inbox_evolves a c"
  by (auto simp: inbox_evolves_def)

definition inbox_rewritten :: "journal \<Rightarrow> journal \<Rightarrow> bool" where
  "inbox_rewritten j j' \<longleftrightarrow> j_inbox_seq j' = j_inbox_seq j \<and>
     (\<exists>f. (\<forall>n r. inbox_evolves r (f n r)) \<and> j_inbox j' = map (\<lambda>(n, r). (n, f n r)) (j_inbox j))"

lemma inbox_rewritten_update:
  assumes "inbox_rewritten j j'" and "\<And>r. inbox_evolves r (g r)"
  shows "inbox_rewritten j (inbox_update seq g j')"
proof -
  from assms(1) obtain f where f: "\<And>n r. inbox_evolves r (f n r)"
    "j_inbox j' = map (\<lambda>(n, r). (n, f n r)) (j_inbox j)" and s: "j_inbox_seq j' = j_inbox_seq j"
    by (auto simp: inbox_rewritten_def)
  let ?h = "\<lambda>n r. if n = seq then g (f n r) else f n r"
  have "inbox_evolves r (?h n r)" for n r
    using f(1) assms(2) by (auto intro: inbox_evolves_trans)
  moreover have "j_inbox (inbox_update seq g j') = map (\<lambda>(n, r). (n, ?h n r)) (j_inbox j)"
    by (auto simp: inbox_update_def f(2))
  ultimately show ?thesis
    using s unfolding inbox_rewritten_def by (auto simp: inbox_update_def intro!: exI [of _ ?h])
qed

lemma inbox_rewritten_refl [simp]: "inbox_rewritten j j"
  by (auto simp: inbox_rewritten_def intro!: exI [of _ "\<lambda>n r. r"])

lemma inbox_failed_rewrites: "inbox_failed ts seq lm j = Inr (st, j') \<Longrightarrow> inbox_rewritten j j'"
  by (auto simp: inbox_failed_def Let_def inbox_evolves_def split: option.splits
      intro!: inbox_rewritten_update)

lemma inbox_finish_rewrites: "inbox_finish ts seq st j = Inr j' \<Longrightarrow> inbox_rewritten j j'"
  by (auto simp: inbox_finish_def inbox_evolves_def split: option.splits if_splits
      intro!: inbox_rewritten_update)

lemma jstep_inbox:
  assumes "jstep j j'"
  shows "j_inbox j' = j_inbox j \<and> j_inbox_seq j \<le> j_inbox_seq j' \<or> inbox_rewritten j j' \<or>
     (\<exists>r. \<not> inbox_seen (ib_surface r) (ib_event_id r) j \<and> j_inbox_seq j' = j_inbox_seq j + 1 \<and>
          j_inbox j' = j_inbox j @ [(j_inbox_seq j + 1, r)])"
  using assms
  apply cases
  apply (auto simp: op_defs crash_reset_eq Let_def result_simps split: op_splits)[3]
  apply (auto dest: inbox_failed_rewrites)[1]
  apply (auto dest: inbox_finish_rewrites)[1]
  apply (auto simp: op_defs crash_reset_eq Let_def result_simps split: op_splits)[10]
  apply (auto simp: op_defs crash_reset_eq Let_def result_simps split: op_splits)[15]
  apply (simp add: clamp_frame)
  apply (auto simp: op_defs crash_reset_eq Let_def result_simps split: op_splits)
  done

subsection \<open>Launch entries and receipts\<close>

definition launch_written :: "journal \<Rightarrow> journal \<Rightarrow> bool" where
  "launch_written j j' \<longleftrightarrow>
     (\<exists>k e r f v. map_of (j_launches j) k = Some (e, r) \<and> get_once f e = None \<and>
        (f = F_outcome \<longrightarrow> outcome_check (Some v)) \<and> j' = launch_put k (put_once f v e) j)"

lemma launch_set_writes:
  assumes "launch_set key gen name v j = Inr (e', j')"
  shows "j' = j \<or> launch_written j j'"
proof -
  from assms obtain f e r where f: "set_once_of name = Some f"
    and e: "map_of (j_launches j) (key, gen) = Some (e, r)"
    by (auto simp: launch_set_def launch_def split: option.splits)
  show ?thesis
  proof (cases "get_once f e")
    case None
    with assms f e have "j' = launch_put (key, gen) (put_once f v e) j"
      and "f = F_outcome \<longrightarrow> outcome_check (Some v)"
      by (auto simp: launch_set_def launch_def split: if_splits)
    with None e show ?thesis unfolding launch_written_def by blast
  next
    case (Some h)
    with assms f e show ?thesis by (auto simp: launch_set_def launch_def split: if_splits)
  qed
qed

lemma jstep_launches:
  assumes "jstep j j'"
  shows "j_launches j' = j_launches j \<or> launch_written j j' \<or>
    (\<exists>e r. ident e \<notin> fst ` set (j_launches j) \<and> launch_row_check e \<and>
       j_launches j' = j_launches j @ [(ident e, (e, r))])"
  using assms
proof cases
  case (s_launch_insert ts le rb)
  then show ?thesis
    by (auto simp: launch_insert_def launch_def ident_def map_of_eq_None_iff
        split: option.splits if_splits)
next
  case s_launch_set
  then show ?thesis by (auto dest: launch_set_writes)
qed (auto simp: op_defs crash_reset_eq Let_def result_simps split: op_splits)

lemma jstep_receipts:
  assumes "jstep j j'"
  shows "j_receipts j' = j_receipts j \<or>
    (\<exists>r ts. (rc_session_key r, rc_generation r) \<notin> fst ` set (j_receipts j) \<and>
       (rc_session_key r, rc_generation r) \<in> fst ` set (j_launches j) \<and> receipt_check r \<and>
       j_launches j' = j_launches j \<and>
       j_receipts j' = j_receipts j @ [((rc_session_key r, rc_generation r), (r, ts))])"
  using assms
proof cases
  case s_receipt_put
  then show ?thesis by (auto simp: receipt_put_def Let_def split: if_splits)
qed (auto simp: op_defs crash_reset_eq Let_def result_simps split: op_splits)

subsection \<open>The other tables and the meta rows\<close>

definition tables_keyed :: "journal \<Rightarrow> bool" where
  "tables_keyed j \<longleftrightarrow> keyed (j_meta j) \<and> keyed (j_beads j) \<and> keyed (j_holds j) \<and>
     keyed (j_workstreams j) \<and> keyed (j_adoptions j) \<and> keyed (j_deferrals j) \<and> keyed (j_usage j) \<and>
     keyed (j_untrusted j) \<and> keyed (j_exhausted j) \<and> keyed (j_harness j)"

lemma keyed_put_newer [simp]: "keyed t \<Longrightarrow> keyed (put_newer f k r t)"
  by (simp add: put_newer_def split: option.splits)

lemma keyed_crash_rows [simp]: "keyed t \<Longrightarrow> keyed (crash_rows t es)"
  unfolding crash_rows_def by (induction es arbitrary: t) auto

lemma keyed_fold_update [simp]: "keyed t \<Longrightarrow> keyed (foldl (\<lambda>t m. AList.update m v t) t ms)"
  by (induction ms arbitrary: t) auto

lemma clamp_keyed:
  assumes "tables_keyed j"
  shows "tables_keyed (snd (clamp_deadlines n j))"
  using assms unfolding clamp_deadlines_def Let_def tables_keyed_def
  by (simp del: foldl_append)

lemma clamp_keyed_step: "tables_keyed j \<Longrightarrow> clamp_deadlines n j = (c, j') \<Longrightarrow> tables_keyed j'"
  using clamp_keyed [of j n] by simp

lemma jstep_keyed:
  assumes "jstep j j'" and "tables_keyed j"
  shows "tables_keyed j'"
  using assms
  apply cases
  apply (auto simp: op_defs crash_reset_eq tables_keyed_def Let_def result_simps keyed_append_new split: op_splits)[15]
  apply (auto simp: op_defs crash_reset_eq tables_keyed_def Let_def result_simps keyed_append_new split: op_splits)[15]
  apply (erule (1) clamp_keyed_step)
  apply (auto simp: op_defs crash_reset_eq tables_keyed_def Let_def result_simps keyed_append_new split: op_splits)
  done

text \<open>No method but \<open>usage_seq_next\<close> writes or removes the receipt counter.\<close>

lemma SEQ_KEY_distinct [simp]:
  "over_key k n \<noteq> SEQ_KEY" "SEQ_KEY \<noteq> over_key k n" "crash_gen e \<noteq> SEQ_KEY" "SEQ_KEY \<noteq> crash_gen e"
  "crash_run w b \<noteq> SEQ_KEY" "SEQ_KEY \<noteq> crash_run w b" "crash_end_key w b k n \<noteq> SEQ_KEY"
  "SEQ_KEY \<noteq> crash_end_key w b k n" "clamp_exhausted_key k n \<noteq> SEQ_KEY"
  "SEQ_KEY \<noteq> clamp_exhausted_key k n" "clamp_deferral_key k n \<noteq> SEQ_KEY"
  "SEQ_KEY \<noteq> clamp_deferral_key k n" "harness_key HARNESS_OPEN a i \<noteq> SEQ_KEY"
  "SEQ_KEY \<noteq> harness_key HARNESS_OPEN a i" "harness_key HARNESS_TAINTS a i \<noteq> SEQ_KEY"
  "SEQ_KEY \<noteq> harness_key HARNESS_TAINTS a i" "\<not> is_clamp_key SEQ_KEY"
  "\<not> is_prefix_of HARNESS_OPEN SEQ_KEY"
  by (simp_all add: SEQ_KEY_def over_key_def crash_gen_def crash_run_def crash_end_key_def
      clamp_exhausted_key_def clamp_deferral_key_def harness_key_def HARNESS_OPEN_def HARNESS_TAINTS_def
      is_clamp_key_def is_prefix_of_def ascii_lower_def less_eq_char_def)

lemma map_of_filter_key:
  assumes "\<And>v. P (k, v)"
  shows "map_of (filter P t) k = map_of t k"
  using assms by (induction t) auto

lemma crash_rows_SEQ [simp]: "map_of (crash_rows t es) SEQ_KEY = map_of t SEQ_KEY"
  unfolding crash_rows_def by (induction es arbitrary: t) (auto split: option.splits)

lemma fold_update_other [simp]:
  "k \<notin> set ms \<Longrightarrow> map_of (foldl (\<lambda>t m. AList.update m v t) t ms) k = map_of t k"
  by (induction ms arbitrary: t) auto

lemma map_of_remarked:
  assumes "k \<notin> set ms" and "k \<notin> M"
  shows "map_of (filter (\<lambda>(k, v). \<not> (k \<in> M \<and> k \<notin> L)) (foldl (\<lambda>t m. AList.update m v t) t ms)) k = map_of t k"
  using assms by (simp add: map_of_filter_key)

definition clamp_hits :: "int \<Rightarrow> journal \<Rightarrow> string list" where
  "clamp_hits bound j =
     (let markers = filter (is_clamp_key \<circ> fst) (j_meta j) in
      map (\<lambda>(k, r). clamp_exhausted_key k (x_receipt_seq r))
        (filter (\<lambda>(k, r). clamp_wanted (clamp_exhausted_key k (x_receipt_seq r)) (x_until r) bound markers)
           (j_exhausted j))
      @ map (\<lambda>(k, r). clamp_deferral_key (fst k) (snd k))
        (filter (\<lambda>(k, r). clamp_wanted (clamp_deferral_key (fst k) (snd k)) (d_defer_until r) bound markers)
           (current_deferrals j)))"

definition clamp_live :: "journal \<Rightarrow> string list" where
  "clamp_live j =
     map (\<lambda>(k, r). clamp_exhausted_key k (x_receipt_seq r)) (j_exhausted j)
     @ map (\<lambda>(k, r). clamp_deferral_key (fst k) (snd k)) (current_deferrals j)"

lemma clamp_deadlines_meta:
  "j_meta (snd (clamp_deadlines bound j)) =
     filter (\<lambda>(k, v). \<not> (k \<in> fst ` set (filter (is_clamp_key \<circ> fst) (j_meta j)) \<and> k \<notin> set (clamp_live j)))
       (foldl (\<lambda>t m. AList.update m (show_int bound) t) (j_meta j) (clamp_hits bound j))"
  by (simp add: clamp_deadlines_def clamp_hits_def clamp_live_def Let_def del: foldl_append)

lemma clamp_deadlines_SEQ:
  "map_of (j_meta (snd (clamp_deadlines n j))) SEQ_KEY = map_of (j_meta j) SEQ_KEY"
proof -
  have "SEQ_KEY \<notin> set (clamp_hits n j)" by (auto simp: clamp_hits_def Let_def)
  moreover have "SEQ_KEY \<notin> fst ` set (filter (is_clamp_key \<circ> fst) (j_meta j))" by auto
  ultimately show ?thesis unfolding clamp_deadlines_meta by (rule map_of_remarked)
qed

lemma jstep_seq:
  assumes "jstep j j'"
  shows "map_of (j_meta j') SEQ_KEY = map_of (j_meta j) SEQ_KEY \<or> (\<exists>n. usage_seq_next j = Inr (n, j'))"
  using assms
proof cases
  case (s_clamp n c)
  then show ?thesis using clamp_deadlines_SEQ [of n j] by simp
next
  case (s_harness_close_all c)
  then show ?thesis by (auto simp: harness_close_all_def map_of_filter_key)
qed (auto simp: emit_def emit_once_def inbox_add_def inbox_failed_def inbox_finish_def
  inbox_update_def inbox_get_def op_open_def op_step_def op_failed_def op_finish_def op_forget_def
  op_get_def op_put_def set_state_def adopt_def put_state_def hold_def unhold_def set_ws_state_def
  launch_insert_def launch_set_def launch_put_def receipt_put_def adoption_settle_def
  adoption_resolve_def deferral_insert_def mark_over_def drop_over_def crash_account_def
  crash_set_def emit_resolved_def
  usage_put_trusted_def usage_put_untrusted_def exhausted_put_def
  harness_insert_def harness_set_def harness_event_def harness_open_def harness_close_def
  harness_taint_cleared_def crash_reset_eq Let_def result_simps split: op_splits)

section \<open>The invariant\<close>

definition events_wf :: "journal \<Rightarrow> bool" where
  "events_wf j \<longleftrightarrow> 0 \<le> j_event_seq j \<and> map fst (j_events j) = [1..j_event_seq j]"

definition ops_wf :: "journal \<Rightarrow> bool" where
  "ops_wf j \<longleftrightarrow> keyed (j_ops j) \<and>
     (\<forall>a r b s. map_of (j_ops j) a = Some r \<longrightarrow> map_of (j_ops j) b = Some s \<longrightarrow>
        o_status r = OP_OPEN \<longrightarrow> o_status s = OP_OPEN \<longrightarrow> (o_ws r, o_bead r) = (o_ws s, o_bead s) \<longrightarrow> a = b)"

definition inbox_wf :: "journal \<Rightarrow> bool" where
  "inbox_wf j \<longleftrightarrow> sorted_wrt (<) (map fst (j_inbox j)) \<and> (\<forall>n \<in> fst ` set (j_inbox j). n \<le> j_inbox_seq j) \<and>
     distinct (map (\<lambda>(_, r). (ib_surface r, ib_event_id r)) (j_inbox j))"

definition launches_wf :: "journal \<Rightarrow> bool" where
  "launches_wf j \<longleftrightarrow> keyed (j_launches j) \<and>
     (\<forall>k e r. map_of (j_launches j) k = Some (e, r) \<longrightarrow> k = ident e \<and> launch_row_check e)"

definition receipts_wf :: "journal \<Rightarrow> bool" where
  "receipts_wf j \<longleftrightarrow> keyed (j_receipts j) \<and> fst ` set (j_receipts j) \<subseteq> fst ` set (j_launches j) \<and>
     (\<forall>k r ts. map_of (j_receipts j) k = Some (r, ts) \<longrightarrow>
        k = (rc_session_key r, rc_generation r) \<and> receipt_check r)"

definition seq_wf :: "journal \<Rightarrow> bool" where
  "seq_wf j \<longleftrightarrow> (\<exists>n. map_of (j_meta j) SEQ_KEY = Some (show_int n) \<and> 0 \<le> n \<and> n \<le> sqlite_max)"

definition journal_wf :: "journal \<Rightarrow> bool" where
  "journal_wf j \<longleftrightarrow> tables_keyed j \<and> events_wf j \<and> ops_wf j \<and> inbox_wf j \<and> launches_wf j \<and>
     receipts_wf j \<and> seq_wf j"

lemma fresh_journal_wf: "journal_wf (fresh_journal ts)"
proof -
  have "show_int 0 = ''0''"
    by code_simp
  then show ?thesis
    by (auto simp: journal_wf_def tables_keyed_def events_wf_def ops_wf_def inbox_wf_def launches_wf_def
        receipts_wf_def seq_wf_def fresh_journal_def keyed_def SEQ_KEY_def sqlite_max_def
        intro!: exI [of _ 0])
qed

lemma jstep_events_wf: "jstep j j' \<Longrightarrow> events_wf j \<Longrightarrow> events_wf j'"
  using jstep_events [of j j'] by (auto simp: events_wf_def upto_rec2)

lemma op_for_None:
  assumes "op_for ws b j = None" and "(k, r) \<in> set (j_ops j)" and "o_status r = OP_OPEN"
  shows "(o_ws r, o_bead r) \<noteq> (ws, b)"
  using assms by (fastforce simp: op_for_def find_None_iff)

lemma jstep_ops_wf:
  assumes "jstep j j'" and wf: "ops_wf j"
  shows "ops_wf j'"
  using jstep_ops [OF assms(1)]
proof (elim disjE)
  assume "j_ops j' = j_ops j"
  with wf show ?thesis by (simp add: ops_wf_def)
next
  assume "op_updated j j'"
  then obtain oid r r' where r: "map_of (j_ops j) oid = Some r" "op_evolves r r'" "j' = op_put oid r' j"
    by (auto simp: op_updated_def)
  then have "o_status r' = OP_OPEN \<Longrightarrow> o_status r = OP_OPEN" "o_ws r' = o_ws r" "o_bead r' = o_bead r"
    by (auto simp: op_evolves_def)
  with wf r show ?thesis
    by (simp add: ops_wf_def op_put_def) (metis option.inject)
next
  assume "\<exists>oid r. oid \<notin> fst ` set (j_ops j) \<and> op_for (o_ws r) (o_bead r) j = None \<and>
      o_status r = OP_OPEN \<and> j_ops j' = j_ops j @ [(oid, r)]"
  then obtain oid r where new: "oid \<notin> fst ` set (j_ops j)" "op_for (o_ws r) (o_bead r) j = None"
    and j': "j_ops j' = j_ops j @ [(oid, r)]" by blast
  have other: "(o_ws s, o_bead s) \<noteq> (o_ws r, o_bead r)"
    if "map_of (j_ops j) b = Some s" "o_status s = OP_OPEN" for b s
    using op_for_None [OF new(2) map_of_SomeD [OF that(1)] that(2)] .
  show ?thesis
    using wf other new(1)
    by (auto simp: ops_wf_def j' keyed_append_new map_of_append_new simp del: map_of_append
        split: if_splits) metis+
qed

lemma inbox_seen_iff:
  "inbox_seen s e j \<longleftrightarrow> (s, e) \<in> set (map (\<lambda>(_, r). (ib_surface r, ib_event_id r)) (j_inbox j))"
  by (force simp: inbox_seen_def list_ex_iff)

lemma jstep_inbox_wf:
  assumes "jstep j j'" and wf: "inbox_wf j"
  shows "inbox_wf j'"
  using jstep_inbox [OF assms(1)]
proof (elim disjE conjE exE)
  assume "j_inbox j' = j_inbox j" "j_inbox_seq j \<le> j_inbox_seq j'"
  with wf show ?thesis by (fastforce simp: inbox_wf_def)
next
  assume "inbox_rewritten j j'"
  then obtain f where f: "\<And>n r. inbox_evolves r (f n r)" "j_inbox_seq j' = j_inbox_seq j"
    and j': "j_inbox j' = map (\<lambda>(n, r). (n, f n r)) (j_inbox j)"
    by (auto simp: inbox_rewritten_def)
  have "map (\<lambda>(_, r). (ib_surface r, ib_event_id r)) (j_inbox j') =
      map (\<lambda>(_, r). (ib_surface r, ib_event_id r)) (j_inbox j)"
    using f(1) by (auto simp: j' inbox_evolves_def)
  moreover have "map fst (j_inbox j') = map fst (j_inbox j)"
    unfolding j' by (rule map_fst_map_rows)
  moreover from this have "fst ` set (j_inbox j') = fst ` set (j_inbox j)"
    by (metis list.set_map)
  ultimately show ?thesis using wf f(2) by (simp add: inbox_wf_def)
next
  fix r
  assume "\<not> inbox_seen (ib_surface r) (ib_event_id r) j" "j_inbox_seq j' = j_inbox_seq j + 1"
    "j_inbox j' = j_inbox j @ [(j_inbox_seq j + 1, r)]"
  with wf show ?thesis
    by (fastforce simp: inbox_wf_def inbox_seen_iff sorted_wrt_append)
qed

lemma launch_written_map:
  assumes "launch_written j j'"
  obtains k e r f v where "map_of (j_launches j) k = Some (e, r)" "get_once f e = None"
    "f = F_outcome \<longrightarrow> outcome_check (Some v)"
    "map_of (j_launches j') = (map_of (j_launches j))(k \<mapsto> (put_once f v e, r))"
    "map fst (j_launches j') = map fst (j_launches j)" "j_receipts j' = j_receipts j"
proof -
  from assms obtain k e r f v where k: "map_of (j_launches j) k = Some (e, r)" "get_once f e = None"
    "f = F_outcome \<longrightarrow> outcome_check (Some v)" and j': "j' = launch_put k (put_once f v e) j"
    unfolding launch_written_def by blast
  have rows: "j_launches j' = map (\<lambda>(n, y). (n, (if n = k then put_once f v e else fst y, snd y))) (j_launches j)"
    by (auto simp: j' launch_put_def)
  have "map_of (j_launches j') = (map_of (j_launches j))(k \<mapsto> (put_once f v e, r))"
  proof
    fix n
    show "map_of (j_launches j') n = ((map_of (j_launches j))(k \<mapsto> (put_once f v e, r))) n"
      unfolding rows using map_of_map_rows [of "\<lambda>n y. (if n = k then put_once f v e else fst y, snd y)" "j_launches j" n] k(1)
      by (cases "map_of (j_launches j) n") auto
  qed
  moreover have "map fst (j_launches j') = map fst (j_launches j)"
    unfolding rows by (rule map_fst_map_rows)
  ultimately show thesis using k that j' by (simp add: launch_put_def)
qed

lemma row_check_put:
  "launch_row_check e \<Longrightarrow> (f = F_outcome \<longrightarrow> outcome_check (Some v)) \<Longrightarrow> launch_row_check (put_once f v e)"
  by (cases f) (auto simp: launch_row_check_def)

lemma jstep_launches_wf:
  assumes "jstep j j'" and wf: "launches_wf j"
  shows "launches_wf j'"
  using jstep_launches [OF assms(1)]
proof (elim disjE conjE exE)
  assume "j_launches j' = j_launches j"
  with wf show ?thesis by (simp add: launches_wf_def)
next
  assume "launch_written j j'"
  then obtain k e r f v where k: "map_of (j_launches j) k = Some (e, r)"
    "f = F_outcome \<longrightarrow> outcome_check (Some v)"
    and m: "map_of (j_launches j') = (map_of (j_launches j))(k \<mapsto> (put_once f v e, r))"
    "map fst (j_launches j') = map fst (j_launches j)" by (rule launch_written_map)
  have "k = ident e \<and> launch_row_check e" using wf k(1) unfolding launches_wf_def by blast
  then have "k = ident (put_once f v e)" "launch_row_check (put_once f v e)"
    using k(2) by (auto intro: row_check_put)
  with wf m show ?thesis by (auto simp: launches_wf_def keyed_def)
next
  fix e r
  assume "ident e \<notin> fst ` set (j_launches j)" "launch_row_check e"
    "j_launches j' = j_launches j @ [(ident e, (e, r))]"
  with wf show ?thesis
    by (auto simp: launches_wf_def keyed_append_new map_of_append_new simp del: map_of_append
        split: if_splits)
qed

lemma jstep_launch_keys:
  assumes "jstep j j'"
  shows "fst ` set (j_launches j) \<subseteq> fst ` set (j_launches j')"
  using jstep_launches [OF assms]
proof (elim disjE exE conjE)
  assume "launch_written j j'"
  then have "map fst (j_launches j') = map fst (j_launches j)" by (rule launch_written_map)
  then show ?thesis by (metis list.set_map order_refl)
qed auto

lemma jstep_receipts_wf:
  assumes "jstep j j'" and wf: "receipts_wf j"
  shows "receipts_wf j'"
  using jstep_receipts [OF assms(1)]
proof (elim disjE conjE exE)
  assume same: "j_receipts j' = j_receipts j"
  have "fst ` set (j_receipts j) \<subseteq> fst ` set (j_launches j')"
    using wf jstep_launch_keys [OF assms(1)] unfolding receipts_wf_def by (elim conjE) (rule order_trans)
  then show ?thesis using wf unfolding receipts_wf_def same by blast
next
  fix r ts
  assume new: "(rc_session_key r, rc_generation r) \<notin> fst ` set (j_receipts j)"
    "(rc_session_key r, rc_generation r) \<in> fst ` set (j_launches j)" "receipt_check r"
    "j_launches j' = j_launches j"
    "j_receipts j' = j_receipts j @ [((rc_session_key r, rc_generation r), (r, ts))]"
  have "fst ` set (j_receipts j') \<subseteq> fst ` set (j_launches j')"
    using wf new unfolding receipts_wf_def by auto
  moreover have "keyed (j_receipts j')"
    using wf new by (simp add: receipts_wf_def keyed_append_new)
  moreover have "k = (rc_session_key s, rc_generation s) \<and> receipt_check s"
    if "map_of (j_receipts j') k = Some (s, ts')" for k s ts'
    using that wf new(1,3,5) unfolding receipts_wf_def
    by (cases k) (simp add: map_of_append_new del: map_of_append split: if_splits, blast)
  ultimately show ?thesis unfolding receipts_wf_def by blast
qed

lemma usage_seq_next_wf:
  assumes "seq_wf j" and "usage_seq_next j = Inr (n, j')"
  shows "seq_wf j' \<and> (\<exists>m. map_of (j_meta j) SEQ_KEY = Some (show_int m) \<and> n = m + 1 \<and> 0 \<le> m \<and> n \<le> sqlite_max)
      \<and> map_of (j_meta j') SEQ_KEY = Some (show_int n)"
proof -
  from assms(1) obtain m where m: "map_of (j_meta j) SEQ_KEY = Some (show_int m)" "0 \<le> m" "m \<le> sqlite_max"
    by (auto simp: seq_wf_def)
  then have "cast_integer (show_int m) = m" by (simp add: cast_integer_show_int sqlite_max_def)
  with m assms(2) show ?thesis
    by (auto simp: usage_seq_next_def Let_def seq_wf_def split: if_splits)
qed

lemma jstep_seq_wf: "jstep j j' \<Longrightarrow> seq_wf j \<Longrightarrow> seq_wf j'"
  using jstep_seq [of j j'] usage_seq_next_wf [of j _ j'] by (auto simp: seq_wf_def)

interpretation journal_inv: step_invariant jstep journal_wf
proof unfold_locales
  fix j j'
  assume "jstep j j'" and "journal_wf j"
  then show "journal_wf j'"
    unfolding journal_wf_def
    using jstep_keyed jstep_events_wf jstep_ops_wf jstep_inbox_wf jstep_launches_wf jstep_receipts_wf
      jstep_seq_wf by blast
qed

section \<open>A state that was set\<close>

lemma put_state_state:
  "map_option b_state (state ws b (put_state ts ws b (state ws b j) st re d rf j)) = Some st"
  by (auto simp: put_state_def emit_def state_def Let_def update_conv split: option.splits)

lemma set_state_put: "set_state ts ws b st re d rf j = Inr j' \<Longrightarrow> j' = put_state ts ws b (state ws b j) st re d rf j"
  by (auto simp: set_state_def Let_def split: sum.splits)

lemma set_state_state: "set_state ts ws b st re d rf j = Inr j' \<Longrightarrow> map_option b_state (state ws b j') = Some st"
  by (drule set_state_put) (simp only: put_state_state)

end
