(* ===== verification/Journal_Props.thy ===== *)
theory Journal_Props
  imports Journal_Steps
begin

text \<open>
  What the journal guarantees over any run (\<^verbatim>\<open>wsd/journal.py\<close>): what every reachable journal
  satisfies, what no step ever takes back, and the operations the rest of wsd leans on.
\<close>

section \<open>Histories\<close>

interpretation launch_hist: step_history jstep j_launches "table_evolves (\<lambda>x y. mergeable (fst x) (fst y) \<and> snd x = snd y)"
proof unfold_locales
  fix j j'
  assume "jstep j j'"
  from jstep_launches [OF this]
  show "table_evolves (\<lambda>x y. mergeable (fst x) (fst y) \<and> snd x = snd y) (j_launches j) (j_launches j')"
  proof (elim disjE exE conjE)
    assume "launch_written j j'"
    then obtain k e r f v where "map_of (j_launches j) k = Some (e, r)" "get_once f e = None"
      "map_of (j_launches j') = (map_of (j_launches j))(k \<mapsto> (put_once f v e, r))"
      by (rule launch_written_map)
    then show ?thesis by (auto simp: table_evolves_def mergeable_put)
  qed (auto intro: table_evolves_refl table_evolves_append)
qed (auto intro: table_evolves_refl elim!: table_evolves_trans [rotated] mergeable_trans)

interpretation receipt_hist: step_history jstep j_receipts "table_evolves (=)"
proof unfold_locales
  fix j j'
  assume "jstep j j'"
  from jstep_receipts [OF this] show "table_evolves (=) (j_receipts j) (j_receipts j')"
    by (auto intro: table_evolves_refl table_evolves_append)
qed (auto intro: table_evolves_refl elim!: table_evolves_trans [rotated])

interpretation event_hist: step_history jstep j_events prefix
proof unfold_locales
  fix j j'
  assume "jstep j j'"
  from jstep_events [OF this] show "prefix (j_events j) (j_events j')" by auto
qed (auto intro: prefix_order.trans)

interpretation inbox_hist: step_history jstep j_inbox "table_evolves inbox_evolves"
proof unfold_locales
  fix j j'
  assume "jstep j j'"
  from jstep_inbox [OF this] show "table_evolves inbox_evolves (j_inbox j) (j_inbox j')"
    by (auto simp: inbox_rewritten_def intro!: table_evolves_refl table_evolves_append table_evolves_map)
qed (auto intro: table_evolves_refl elim!: table_evolves_trans [rotated] inbox_evolves_trans)

interpretation op_hist: step_history jstep j_ops "table_evolves op_evolves"
proof unfold_locales
  fix j j'
  assume "jstep j j'"
  from jstep_ops [OF this] show "table_evolves op_evolves (j_ops j) (j_ops j')"
    by (auto simp: op_updated_def op_put_def intro!: table_evolves_refl table_evolves_append table_evolves_update)
qed (auto intro: table_evolves_refl elim!: table_evolves_trans [rotated] op_evolves_trans)

text \<open>A stored usage row is only replaced by one with a larger receipt number.\<close>

definition newer :: "('r \<Rightarrow> int) \<Rightarrow> 'r \<Rightarrow> 'r \<Rightarrow> bool" where
  "newer seq_of r r' \<longleftrightarrow> r' = r \<or> seq_of r < seq_of r'"

lemma newer_refl [simp]: "newer f r r" and newer_trans: "newer f a b \<Longrightarrow> newer f b c \<Longrightarrow> newer f a c"
  by (auto simp: newer_def)

lemma put_newer_evolves: "table_evolves (newer f) t (put_newer f k r t)"
  by (auto simp: put_newer_def newer_def intro!: table_evolves_refl table_evolves_update split: option.splits)

lemma jstep_usage:
  assumes "jstep j j'"
  shows "j_usage j' = j_usage j \<or> (\<exists>k r. j_usage j' = put_newer u_receipt_seq k r (j_usage j))"
  using assms
proof cases
  case s_usage_trusted
  then have "\<exists>k r. j_usage j' = put_newer u_receipt_seq k r (j_usage j)"
    unfolding usage_put_trusted_def by force
  then show ?thesis ..
qed (auto simp: op_defs crash_reset_eq Let_def result_simps split: op_splits)

interpretation usage_hist: step_history jstep j_usage "table_evolves (newer u_receipt_seq)"
proof unfold_locales
  fix j j'
  assume "jstep j j'"
  from jstep_usage [OF this] show "table_evolves (newer u_receipt_seq) (j_usage j) (j_usage j')"
    using table_evolves_refl [of "newer u_receipt_seq", OF newer_refl] put_newer_evolves by metis
qed (auto intro: table_evolves_refl elim!: table_evolves_trans [rotated] newer_trans)

section \<open>Properties\<close>

text \<open>C1. Every journal that any sequence of methods builds from a fresh database is well formed:
  the event log is numbered 1, 2, 3, ... without a gap, a bead has at most one open operation, no
  inbox event is stored twice, every launch entry sits under its own identity with a valid outcome
  and a generation of at least 1, every receipt belongs to a launch entry, and the receipt counter is
  a number the database can hold.\<close>

theorem journal_reachable_wf:
  assumes "jstep\<^sup>*\<^sup>* (fresh_journal ts) j"
  shows "journal_wf j"
  using journal_inv.run_invar [OF assms fresh_journal_wf] .

definition witness_run :: journal where
  "witness_run =
     snd (inbox_add ''t1'' ''slack'' ''ev1'' ''mention'' ''hi'' None None
       (hold ''t0'' ''ws1'' NEEDS_HUMAN ''why'' (fresh_journal ''t0'')))"

lemma witness_run_steps: "jstep\<^sup>*\<^sup>* (fresh_journal ''t0'') witness_run"
proof -
  have "jstep (fresh_journal ''t0'') (hold ''t0'' ''ws1'' NEEDS_HUMAN ''why'' (fresh_journal ''t0''))"
    by (rule s_hold) (rule refl)
  moreover have "jstep (hold ''t0'' ''ws1'' NEEDS_HUMAN ''why'' (fresh_journal ''t0'')) witness_run"
    unfolding witness_run_def by (rule s_inbox_add) (rule surjective_pairing)
  ultimately show ?thesis by (meson r_into_rtranclp rtranclp_trans)
qed

theorem journal_reachable_wf_witness: "journal_wf witness_run"
  by (rule journal_reachable_wf [OF witness_run_steps])

text \<open>C2. Over any run, a launch entry is never removed and never rewritten: its identity, bead and
  profile stay as they were, and a field that was filled in keeps its value (fields are only added).
  A receipt never changes at all.\<close>

theorem launches_only_accrue:
  assumes "jstep\<^sup>*\<^sup>* j j'" and "launch key gen j = Some e"
  shows "\<exists>e'. launch key gen j' = Some e' \<and> mergeable e e' \<and>
    (\<forall>f v. get_once f e = Some v \<longrightarrow> get_once f e' = Some v) \<and>
    (\<forall>r. receipt_of key gen j = Some r \<longrightarrow> receipt_of key gen j' = Some r)"
proof -
  from assms(2) obtain r where "map_of (j_launches j) (key, gen) = Some (e, r)"
    by (auto simp: launch_def)
  from table_evolvesD [OF launch_hist.run_le [OF assms(1)] this]
  obtain e' where "launch key gen j' = Some e'" "mergeable e e'" by (auto simp: launch_def)
  moreover have "receipt_of key gen j' = Some r" if "receipt_of key gen j = Some r" for r
    using that table_evolvesD [OF receipt_hist.run_le [OF assms(1)]] by (force simp: receipt_of_def)
  ultimately show ?thesis by (auto intro: mergeable_get)
qed

definition witness_launched :: journal where
  "witness_launched = (fresh_journal ''t0'')\<lparr>j_launches := [((''k'', 1), (example_entry 1, None))]\<rparr>"

lemma witness_launch_step:
  "launch_set ''k'' 1 ''dispatched_at'' ''t5'' witness_launched =
     Inr (put_once F_dispatched_at ''t5'' (example_entry 1),
          launch_put (''k'', 1) (put_once F_dispatched_at ''t5'' (example_entry 1)) witness_launched)"
  by code_simp

theorem launches_only_accrue_witness:
  "\<exists>e'. launch ''k'' 1
      (launch_put (''k'', 1) (put_once F_dispatched_at ''t5'' (example_entry 1)) witness_launched) = Some e' \<and>
     mergeable (example_entry 1) e'"
proof -
  have "jstep\<^sup>*\<^sup>* witness_launched
      (launch_put (''k'', 1) (put_once F_dispatched_at ''t5'' (example_entry 1)) witness_launched)"
    by (rule r_into_rtranclp) (rule s_launch_set [OF witness_launch_step])
  moreover have "launch ''k'' 1 witness_launched = Some (example_entry 1)"
    by (simp add: witness_launched_def launch_def)
  ultimately show ?thesis using launches_only_accrue by blast
qed

lemma last_event_wf:
  assumes "events_wf j"
  shows "last_event j = j_event_seq j"
proof -
  have eq: "map fst (j_events j) = [1..j_event_seq j]" "0 \<le> j_event_seq j"
    using assms by (simp_all add: events_wf_def)
  show ?thesis
  proof (cases "j_events j = []")
    case True
    with eq show ?thesis by (simp add: last_event_def)
  next
    case False
    with eq have "1 \<le> j_event_seq j" by (metis Nil_is_map_conv upto_Nil2 not_le)
    then have "Max {1..j_event_seq j} = j_event_seq j" by (intro Max_eqI) auto
    with False eq(1) show ?thesis unfolding last_event_def by (metis set_upto)
  qed
qed

lemma filter_tail:
  assumes "map fst (xs @ ys) = [1..n]" and "map fst xs = [1..m]" and "0 \<le> m" and "0 \<le> n"
  shows "filter (\<lambda>(k, _). m < k) (xs @ ys) = ys"
proof -
  have "length xs = nat m" "length xs + length ys = nat n"
    using arg_cong [OF assms(2), of length] arg_cong [OF assms(1), of length] by simp_all
  then have "m \<le> n" using assms(3,4) by linarith
  have "[1..n] = [1..m] @ [m + 1..n]"
    using upto_split1 [of 1 "m + 1" n] upto_split2 [of 1 m n] assms(3) \<open>m \<le> n\<close> by (cases "m = 0") auto
  with assms have ys: "map fst ys = [m + 1..n]" by simp
  have "fst x \<in> {1..m}" if "x \<in> set xs" for x
    using that assms(2) by (metis image_eqI list.set_map set_upto)
  then have "filter (\<lambda>(k, _). m < k) xs = []" by (fastforce simp: filter_empty_conv)
  moreover have "fst x \<in> {m + 1..n}" if "x \<in> set ys" for x
    using that ys by (metis image_eqI list.set_map set_upto)
  then have "filter (\<lambda>(k, _). m < k) ys = ys" by (fastforce simp: filter_id_conv)
  ultimately show ?thesis by simp
qed

text \<open>C25. A reader that tails the event log misses nothing and sees nothing twice: over any run from
  a well-formed journal, asking for the events after the last one seen returns exactly the events
  that were appended since, in order, up to the limit.\<close>

theorem events_tail_exact:
  assumes "jstep\<^sup>*\<^sup>* j j'" and "journal_wf j"
  shows "\<exists>new. j_events j' = j_events j @ new \<and> events_since (last_event j) lm j' = take lm new"
proof -
  from event_hist.run_le [OF assms(1)] obtain new where new: "j_events j' = j_events j @ new"
    by (auto simp: prefix_def)
  from assms have wf: "events_wf j" "events_wf j'"
    using journal_inv.run_invar by (auto simp: journal_wf_def)
  then have "filter (\<lambda>(k, _). last_event j < k) (j_events j') = new"
    using filter_tail [of "j_events j" new] by (simp add: new last_event_wf events_wf_def)
  moreover have "sorted (map fst new)"
    using wf(2) by (metis events_wf_def map_append new sorted_append sorted_upto)
  ultimately show ?thesis
    using new by (auto simp: events_since_def sort_key_id_if_sorted)
qed

theorem events_tail_exact_witness:
  "\<exists>new. j_events witness_run = j_events (fresh_journal ''t0'') @ new \<and>
     events_since (last_event (fresh_journal ''t0'')) 10 witness_run = take 10 new"
  by (rule events_tail_exact [OF witness_run_steps fresh_journal_wf])


text \<open>Over any run an inbox event keeps its identity and payload, its failure count never goes
  down, and once it left the pending state nothing about it changes any more; delivering an event that
  is already stored (same surface and event id) never stores a second row.\<close>

theorem inbox_final:
  assumes "jstep\<^sup>*\<^sup>* j j'" and "inbox_get n j = Some r"
  shows "\<exists>r'. inbox_get n j' = Some r' \<and> inbox_evolves r r' \<and>
    (\<forall>ts kind pl ws b. fst (inbox_add ts (ib_surface r) (ib_event_id r) kind pl ws b j') = None)"
proof -
  obtain r' where r': "inbox_get n j' = Some r'" "inbox_evolves r r'"
    using table_evolvesD [OF inbox_hist.run_le [OF assms(1)]] assms(2) by (auto simp: inbox_get_def)
  then have "(n, r') \<in> set (j_inbox j')" by (simp add: inbox_get_def map_of_SomeD)
  moreover have "ib_surface r' = ib_surface r" "ib_event_id r' = ib_event_id r"
    using r'(2) by (simp_all add: inbox_evolves_def)
  ultimately have "inbox_seen (ib_surface r) (ib_event_id r) j'"
    by (force simp: inbox_seen_def list_ex_iff)
  with r' show ?thesis by (simp add: inbox_add_def)
qed

theorem inbox_final_witness:
  "\<exists>r'. inbox_get 1 (hold ''t9'' ''ws2'' NEEDS_HUMAN ''x'' witness_run) = Some r' \<and> ib_payload r' = ''hi''"
proof -
  have "jstep\<^sup>*\<^sup>* witness_run (hold ''t9'' ''ws2'' NEEDS_HUMAN ''x'' witness_run)"
    by (rule r_into_rtranclp) (rule s_hold, rule refl)
  moreover have "inbox_get 1 witness_run = Some \<lparr>ib_surface = ''slack'', ib_event_id = ''ev1'',
      ib_kind = ''mention'', ib_ws = None, ib_bead = None, ib_payload = ''hi'', ib_status = PENDING,
      ib_attempts = 0, ib_received_at = ''t1'', ib_updated_at = ''t1''\<rparr>"
    by (simp add: witness_run_def inbox_get_def inbox_add_def inbox_seen_def hold_def emit_def
        fresh_journal_def Let_def)
  ultimately show ?thesis
    using inbox_final by (fastforce simp: inbox_evolves_def)
qed

text \<open>C16. Over any run an operation stays with its bead and kind and its failure count never goes
  down; once it is done, abandoned or stuck, its status, step and data never change, and any attempt
  to advance it is refused with a conflict.\<close>

theorem op_final:
  assumes "jstep\<^sup>*\<^sup>* j j'" and "op_get oid j = Inr r"
  shows "\<exists>r'. op_get oid j' = Inr r' \<and> op_evolves r r' \<and>
    (o_status r \<noteq> OP_OPEN \<longrightarrow> (\<forall>ts st d. op_step ts oid st d j' = Inl OpConflict))"
proof -
  from assms(2) have "map_of (j_ops j) oid = Some r" by (auto simp: op_get_def split: option.splits)
  from table_evolvesD [OF op_hist.run_le [OF assms(1)] this]
  obtain r' where "map_of (j_ops j') oid = Some r'" "op_evolves r r'" by blast
  then show ?thesis by (auto simp: op_get_def op_step_def op_evolves_def)
qed

definition witness_op :: op_row where
  "witness_op = \<lparr>o_kind = PARK, o_ws = ''w'', o_bead = ''b'', o_step = ''intent'', o_data = [],
     o_attempts = 0, o_status = OP_DONE, o_created_at = ''t0'', o_updated_at = ''t1''\<rparr>"

theorem op_final_witness:
  "op_step ''t2'' ''o1'' ''next'' [] (hold ''t1'' ''w'' NEEDS_HUMAN ''x''
     ((fresh_journal ''t0'')\<lparr>j_ops := [(''o1'', witness_op)]\<rparr>)) = Inl OpConflict"
proof -
  let ?j = "(fresh_journal ''t0'')\<lparr>j_ops := [(''o1'', witness_op)]\<rparr>"
  have "jstep\<^sup>*\<^sup>* ?j (hold ''t1'' ''w'' NEEDS_HUMAN ''x'' ?j)"
    by (rule r_into_rtranclp) (rule s_hold, rule refl)
  moreover have "op_get ''o1'' ?j = Inr witness_op" by (simp add: op_get_def)
  moreover have "o_status witness_op \<noteq> OP_OPEN" by (simp add: witness_op_def)
  ultimately show ?thesis using op_final by blast
qed


text \<open>C17. \<open>set_state\<close> accepts a transition exactly when the state table allows it (and an
  unchanged state always), then the bead has the new state, reason and detail and every other bead is
  untouched; otherwise it names the refused transition. It journals one event when the row changed
  and none when it did not.\<close>

theorem set_state_spec:
  "set_state ts ws b st re dt rf j =
     (if (case state ws b j of None \<Rightarrow> allowed None st | Some c \<Rightarrow> allowed (Some (b_state c)) st)
      then Inr (put_state ts ws b (state ws b j) st re dt rf j)
      else Inl (Illegal (IllegalTransition (map_option b_state (state ws b j)) st))) \<and>
   (\<forall>j'. set_state ts ws b st re dt rf j = Inr j' \<longrightarrow>
      (\<exists>r. state ws b j' = Some r \<and> (b_state r, b_reason r, b_detail r) = (st, re, dt)) \<and>
      (\<forall>w c. (w, c) \<noteq> (ws, b) \<longrightarrow> state w c j' = state w c j) \<and>
      length (j_events j') = length (j_events j) +
        (if map_option (\<lambda>r. (b_state r, b_reason r, b_detail r)) (state ws b j) = Some (st, re, dt) then 0 else 1))"
  by (auto simp: set_state_def check_def put_state_def state_def emit_def Let_def split: option.splits if_splits)

theorem set_state_spec_witness:
  "\<exists>j'. set_state ''t1'' ''w'' ''b'' CLAIMING None ''why'' None (fresh_journal ''t0'') = Inr j' \<and>
     length (j_events j') = 1"
proof -
  let ?j = "fresh_journal ''t0''"
  note spec = set_state_spec [of "''t1''" "''w''" "''b''" CLAIMING None "''why''" None ?j]
  have none: "state ''w'' ''b'' ?j = None" "j_events ?j = []" by (simp_all add: state_def fresh_journal_def)
  have "allowed None CLAIMING" by (simp add: allowed_def)
  with spec [THEN conjunct1] none
  obtain j' where j': "set_state ''t1'' ''w'' ''b'' CLAIMING None ''why'' None ?j = Inr j'" by simp
  from spec [THEN conjunct2, rule_format, OF j'] none have "length (j_events j') = 1" by simp
  with j' show ?thesis by blast
qed

subsection \<open>How a bead came to run\<close>

text \<open>
  A bead's path through a run of the journal: the moves that \<^verbatim>\<open>set_state\<close> accepted and those that \<^verbatim>\<open>adopt\<close> made
  (marked), and any other writes between them. Every run has one.
\<close>

inductive bead_path :: "ws_name \<Rightarrow> bead_id \<Rightarrow> journal \<Rightarrow> (bool \<times> BeadState) list \<Rightarrow> journal \<Rightarrow> bool" for ws b j0 where
  bp_start: "bead_path ws b j0 [] j0"
| bp_moved: "bead_path ws b j0 ms j \<Longrightarrow> set_state ts ws b st re dt rf j = Inr j' \<Longrightarrow> bead_path ws b j0 (ms @ [(False, st)]) j'"
| bp_adopted: "bead_path ws b j0 ms j \<Longrightarrow> adopt ts ws b st re dt rf j = j' \<Longrightarrow> bead_path ws b j0 (ms @ [(True, st)]) j'"
| bp_other: "bead_path ws b j0 ms j \<Longrightarrow> jstep j j' \<Longrightarrow> state ws b j' = state ws b j \<Longrightarrow> bead_path ws b j0 ms j'"

lemma adopted_state: "map_option b_state (state ws b (adopt ts ws b st re dt rf j)) = Some st"
  by (auto simp: adopt_def put_state_def state_def emit_def Let_def update_conv' split: option.split)

lemma put_state_other: "(w, x) \<noteq> (ws, b) \<Longrightarrow> state ws b (put_state ts w x cur st re dt rf j) = state ws b j"
  by (auto simp: put_state_def state_def emit_def Let_def update_conv' split: option.split)

lemma clamp_beads: "clamp_deadlines n j = (c, j') \<Longrightarrow> j_beads j' = j_beads j"
proof -
  assume "clamp_deadlines n j = (c, j')"
  then have "j' = snd (clamp_deadlines n j)" by simp
  then show "j_beads j' = j_beads j" by (simp add: clamp_deadlines_def Let_def)
qed

text \<open>Only these two methods write bead rows.\<close>

definition bead_written :: "journal \<Rightarrow> journal \<Rightarrow> bool" where
  "bead_written j j' \<longleftrightarrow> (\<exists>ts ws b st re dt rf. set_state ts ws b st re dt rf j = Inr j' \<or> j' = adopt ts ws b st re dt rf j)"

lemma bead_writtenI: "set_state ts ws b st re dt rf j = Inr j' \<Longrightarrow> bead_written j j'" "adopt ts ws b st re dt rf j = j' \<Longrightarrow> bead_written j j'"
  unfolding bead_written_def by blast+

lemma jstep_beads:
  assumes "jstep j j'"
  shows "j_beads j' = j_beads j \<or> bead_written j j'"
  using assms
  apply cases
  apply (auto simp: op_defs Let_def result_simps split: op_splits)[10]
  apply (rule disjI2, erule bead_writtenI)+
  apply (auto simp: op_defs Let_def result_simps split: op_splits)[8]
  apply (auto simp: op_defs crash_reset_eq Let_def result_simps split: op_splits)[10]
  apply (simp add: clamp_beads)
  apply (auto simp: op_defs Let_def result_simps split: op_splits)
  done

lemma bead_path_exists:
  assumes "jstep\<^sup>*\<^sup>* j0 j"
  shows "\<exists>ms. bead_path ws b j0 ms j"
  using assms
proof (induction rule: rtranclp_induct)
  case base
  show ?case by (blast intro: bp_start)
next
  case (step j j')
  then obtain ms where ms: "bead_path ws b j0 ms j" by blast
  from jstep_beads [OF step.hyps(2)] show ?case unfolding bead_written_def
  proof (elim disjE exE)
    assume "j_beads j' = j_beads j"
    then have "state ws b j' = state ws b j" by (simp add: state_def)
    then show ?thesis using bp_other [OF ms step.hyps(2)] by blast
  next
    fix ts w x st re dt rf
    assume s: "set_state ts w x st re dt rf j = Inr j'"
    show ?thesis
    proof (cases "(w, x) = (ws, b)")
      case True
      then show ?thesis using bp_moved [OF ms] s by blast
    next
      case False
      then have "state ws b j' = state ws b j" using set_state_put [OF s] put_state_other by simp
      then show ?thesis using bp_other [OF ms step.hyps(2)] by blast
    qed
  next
    fix ts w x st re dt rf
    assume s: "j' = adopt ts w x st re dt rf j"
    show ?thesis
    proof (cases "(w, x) = (ws, b)")
      case True
      then show ?thesis using bp_adopted [OF ms] s by blast
    next
      case False
      then have "state ws b j' = state ws b j" unfolding s adopt_def using put_state_other by simp
      then show ?thesis using bp_other [OF ms step.hyps(2)] by blast
    qed
  qed
qed

lemma bead_path_moves:
  assumes "bead_path ws b j0 ms j" and "state ws b j0 = None"
  shows "moves_ok None ms \<and> map_option b_state (state ws b j) = reached None ms"
  using assms
proof (induction rule: bead_path.induct)
  case (bp_moved ms j ts st re dt rf j')
  from bp_moved(2) have "check (map_option b_state (state ws b j)) st = Inr ()"
    by (auto simp: set_state_def Let_def split: sum.split_asm)
  moreover have "map_option b_state (state ws b j') = Some st" using bp_moved(2) by (rule set_state_state)
  ultimately show ?case using bp_moved(3,4) by (simp add: moves_ok_append reached_def split: if_split_asm)
next
  case (bp_adopted ms j ts st re dt rf j')
  then show ?case using adopted_state [of ws b ts st re dt rf j] by (simp add: moves_ok_append reached_def)
qed (simp_all add: reached_def)

text \<open>C18. A bead whose journalled state is \<open>RUNNING\<close> got there in one of two ways. Either its last move was an
  adoption, the rebuild from beads and the runtime, which no table checks; or it came from \<open>STARTING\<close> or
  \<open>RESUMING\<close> (or stayed). And since it was last closed or dropped, it was claimed or adopted. This is said of
  every path by which the journal's own writes lead from the fresh database to the journal at hand, and there
  is such a path for every run.\<close>

theorem running_needs_claim:
  assumes "jstep\<^sup>*\<^sup>* (fresh_journal t0) j" and "map_option b_state (state ws b j) = Some RUNNING"
  shows "(\<exists>ms. bead_path ws b (fresh_journal t0) ms j) \<and>
    (\<forall>ms. bead_path ws b (fresh_journal t0) ms j \<longrightarrow> entered_since False ms \<and>
       (\<exists>before adopted. ms = before @ [(adopted, RUNNING)] \<and>
          (adopted \<or> before \<noteq> [] \<and> snd (last before) \<in> {RUNNING, STARTING, RESUMING})))"
proof -
  have no: "state ws b (fresh_journal t0) = None" by (simp add: state_def fresh_journal_def)
  have "entered_since False ms \<and> (\<exists>before adopted. ms = before @ [(adopted, RUNNING)] \<and>
      (adopted \<or> before \<noteq> [] \<and> snd (last before) \<in> {RUNNING, STARTING, RESUMING}))"
    if p: "bead_path ws b (fresh_journal t0) ms j" for ms
  proof -
    note m = bead_path_moves [OF p no]
    then have r: "reached None ms = Some RUNNING" using assms(2) by simp
    then have ms: "ms = butlast ms @ [(fst (last ms), RUNNING)]"
      by (cases ms rule: rev_cases) (simp_all add: reached_def prod_eq_iff)
    let ?before = "butlast ms" and ?adopted = "fst (last ms)"
    have "reached None ?before \<in> {Some RUNNING, Some STARTING, Some RESUMING}" if "\<not> ?adopted"
      by (rule running_entered(2) [OF conjunct1 [OF m] r]) (use ms that in simp)
    then have "?adopted \<or> ?before \<noteq> [] \<and> snd (last ?before) \<in> {RUNNING, STARTING, RESUMING}"
      by (cases "?before = []"; cases ?adopted) (simp_all add: reached_def)
    moreover have "entered_since False ms" by (rule running_entered(1) [OF conjunct1 [OF m] r])
    ultimately show ?thesis using ms by blast
  qed
  then show ?thesis using bead_path_exists [OF assms(1)] by blast
qed

text \<open>An adopted bead that is resumed, with no claim; closing ends what a claim began.\<close>

definition witness_running :: journal where
  "witness_running =
     (let go = (\<lambda>st j. case set_state ''t1'' ''w'' ''b'' st None [] None j of Inl _ \<Rightarrow> j | Inr j' \<Rightarrow> j')
      in go RUNNING (go RESUMING (adopt ''t1'' ''w'' ''b'' STUCK None [] None (fresh_journal ''t0''))))"

theorem running_needs_claim_witness:
  "map_option b_state (state ''w'' ''b'' witness_running) = Some RUNNING \<and>
   (\<exists>ms. bead_path ''w'' ''b'' (fresh_journal ''t0'') ms witness_running \<and> entered_since False ms) \<and>
   \<not> entered_since False [(False, CLAIMING), (False, STARTING), (False, CLOSED)]"
proof -
  let ?a = "adopt ''t1'' ''w'' ''b'' STUCK None [] None (fresh_journal ''t0'')"
  let ?step = "\<lambda>st j. case set_state ''t1'' ''w'' ''b'' st None [] None j of Inl _ \<Rightarrow> j | Inr j' \<Rightarrow> j'"
  have s: "jstep\<^sup>*\<^sup>* j (?step st j)" for st j
    by (cases "set_state ''t1'' ''w'' ''b'' st None [] None j") (auto intro: s_set_state)
  have "jstep\<^sup>*\<^sup>* (fresh_journal ''t0'') witness_running"
    unfolding witness_running_def Let_def
    by (rule rtranclp_trans [OF _ s], rule rtranclp_trans [OF _ s], rule r_into_rtranclp, rule s_adopt, rule refl)
  moreover have r: "map_option b_state (state ''w'' ''b'' witness_running) = Some RUNNING" by code_simp
  ultimately have "\<exists>ms. bead_path ''w'' ''b'' (fresh_journal ''t0'') ms witness_running \<and> entered_since False ms"
    using running_needs_claim by blast
  then show ?thesis using r by (simp add: TERMINAL_def)
qed

subsection \<open>Crash accounting\<close>

definition crash_move :: "int \<Rightarrow> string \<Rightarrow> int" where
  "crash_move n klass = (if klass = ''died'' then n + 1 else if klass = ''lifetime'' then 0 else n)"

fun account_all :: "ws_name \<Rightarrow> bead_id \<Rightarrow> (launch_entry \<times> string) list \<Rightarrow> journal \<Rightarrow> journal_error + journal" where
  "account_all ws b [] j = Inr j"
| "account_all ws b ((e, klass) # es) j =
     bind_result (crash_account ws b e klass j) (\<lambda>(_, j'). account_all ws b es j')"

lemma crash_keys_distinct [simp]: "crash_gen e \<noteq> crash_run ws b" "crash_run ws b \<noteq> crash_gen e"
  by (simp_all add: crash_gen_def crash_run_def)

lemma put_new_present: "map_of t k = Some v \<Longrightarrow> put_new k w t = t"
  by (metis map_of_eq_None_iff option.distinct(1) put_new_def)

lemma crash_account_old:
  assumes "crash_accounted e j" and "klass \<in> set CRASH_CLASSES" and "crash_count ws b j = Inr n"
  shows "crash_account ws b e klass j = Inr (n, j)"
  using assms by (auto simp: crash_account_def crash_accounted_def crash_class_def put_new_present)

lemma crash_account_new:
  assumes "\<not> crash_accounted e j" and "klass \<in> set CRASH_CLASSES" and "crash_count ws b j = Inr n"
    and "int_digits (crash_move n klass) \<le> 4300"
  shows "\<exists>j'. crash_account ws b e klass j = Inr (crash_move n klass, j') \<and>
     crash_count ws b j' = Inr (crash_move n klass) \<and>
     (\<forall>x. crash_class x j' = (if crash_gen x = crash_gen e then Some klass else crash_class x j))"
  using assms
  by (auto simp: crash_account_def crash_accounted_def crash_class_def crash_count_def crash_set_def
      crash_move_def Let_def py_int_show_int split: option.splits)

lemma int_digits_small: "\<bar>n\<bar> < 10 ^ 18 \<Longrightarrow> int_digits n \<le> 4300"
  using int_digits_le [of n 18] by simp

text \<open>C14. Crash accounting is exact and counts every generation once: from a count \<open>n\<close>, accounting
  new generations in order gives the count that adds one for each death and returns to zero at each
  live lifetime end; every generation keeps the class it was first given; and accounting any of
  them again, whatever class is then given, changes nothing in the journal.\<close>

theorem crash_accounting_exact:
  assumes "distinct (map (crash_gen \<circ> fst) es)"
    and "list_all (\<lambda>(e, klass). klass \<in> set CRASH_CLASSES \<and> \<not> crash_accounted e j) es"
    and "crash_count ws b j = Inr n" and "0 \<le> n" and "n + int (length es) < 10 ^ 18"
  shows "\<exists>j'. account_all ws b es j = Inr j' \<and>
    crash_count ws b j' = Inr (foldl crash_move n (map snd es)) \<and>
    (\<forall>(e, klass) \<in> set es. crash_class e j' = Some klass \<and>
       (\<forall>k2 \<in> set CRASH_CLASSES. crash_account ws b e k2 j' = Inr (foldl crash_move n (map snd es), j')))"
proof -
  have run: "\<exists>j'. account_all ws b es j = Inr j' \<and>
      crash_count ws b j' = Inr (foldl crash_move n (map snd es)) \<and>
      (\<forall>(e, klass) \<in> set es. crash_class e j' = Some klass) \<and>
      (\<forall>x. crash_gen x \<notin> set (map (crash_gen \<circ> fst) es) \<longrightarrow> crash_class x j' = crash_class x j)"
    using assms
  proof (induction es arbitrary: j n)
    case (Cons ek es)
    obtain e klass where ek: "ek = (e, klass)" by (cases ek)
    let ?m = "crash_move n klass"
    have m: "0 \<le> ?m" "?m \<le> n + 1" using Cons.prems(4) by (auto simp: crash_move_def)
    with Cons.prems(5) have "int_digits ?m \<le> 4300" by (intro int_digits_small) simp
    with Cons.prems ek obtain j1 where j1: "crash_account ws b e klass j = Inr (?m, j1)"
      "crash_count ws b j1 = Inr ?m"
      "\<And>x. crash_class x j1 = (if crash_gen x = crash_gen e then Some klass else crash_class x j)"
      using crash_account_new [of e j klass ws b n] by auto
    have "list_all (\<lambda>(e, klass). klass \<in> set CRASH_CLASSES \<and> \<not> crash_accounted e j1) es"
    proof -
      have "crash_gen x \<noteq> crash_gen e" if "(x, k) \<in> set es" for x k
        using Cons.prems(1) ek that by force
      with Cons.prems(2) show ?thesis by (auto simp: list_all_iff crash_accounted_def j1(3))
    qed
    moreover have "?m + int (length es) < 10 ^ 18" using m(2) Cons.prems(5) by simp
    ultimately obtain j' where "account_all ws b es j1 = Inr j'"
      "crash_count ws b j' = Inr (foldl crash_move ?m (map snd es))"
      "\<forall>(e, klass) \<in> set es. crash_class e j' = Some klass"
      "\<forall>x. crash_gen x \<notin> set (map (crash_gen \<circ> fst) es) \<longrightarrow> crash_class x j' = crash_class x j1"
      using Cons.IH [of j1 ?m] Cons.prems(1) j1(2) m(1) by auto
    with j1 Cons.prems(1) ek show ?case by (auto simp: result_simps)
  qed simp
  then obtain j' where "account_all ws b es j = Inr j'"
    "crash_count ws b j' = Inr (foldl crash_move n (map snd es))"
    "\<forall>(e, klass) \<in> set es. crash_class e j' = Some klass" by blast
  then show ?thesis using crash_account_old by (fastforce simp: crash_accounted_def)
qed

theorem crash_accounting_exact_witness:
  "\<exists>j'. account_all ''w'' ''b'' [(example_entry 1, ''died''), (example_entry 2, ''died'')] (fresh_journal ''t0'') = Inr j' \<and>
     crash_count ''w'' ''b'' j' = Inr 2"
proof -
  let ?es = "[(example_entry 1, ''died''), (example_entry 2, ''died'')]"
  have "distinct (map (crash_gen \<circ> fst) ?es)" by code_simp
  moreover have "list_all (\<lambda>(e, klass). klass \<in> set CRASH_CLASSES \<and> \<not> crash_accounted e (fresh_journal ''t0'')) ?es"
    by code_simp
  moreover have "crash_count ''w'' ''b'' (fresh_journal ''t0'') = Inr 0" by code_simp
  ultimately show ?thesis
    using crash_accounting_exact [of ?es "fresh_journal ''t0''" "''w''" "''b''" 0] by (auto simp: crash_move_def)
qed


subsection \<open>Inbox escalation\<close>

fun fail_times :: "timestamp \<Rightarrow> int \<Rightarrow> int \<Rightarrow> nat \<Rightarrow> journal \<Rightarrow> journal_error + journal" where
  "fail_times ts seq lm 0 j = Inr j"
| "fail_times ts seq lm (Suc n) j =
     bind_result (inbox_failed ts seq lm j) (\<lambda>(_, j'). fail_times ts seq lm n j')"

lemma inbox_get_update: "inbox_get n (inbox_update m f j) = (if n = m then map_option f (inbox_get n j) else inbox_get n j)"
  by (cases "map_of (j_inbox j) n") (auto simp: inbox_get_def inbox_update_def)

lemma inbox_failed_pending:
  assumes "inbox_get seq j = Some r" and "ib_status r = PENDING"
  shows "\<exists>j'. inbox_failed ts seq lm j =
      Inr (if ib_attempts r + 1 \<ge> lm then INBOX_NEEDS_HUMAN else PENDING, j') \<and>
    inbox_get seq j' = Some (r\<lparr>ib_attempts := ib_attempts r + 1, ib_updated_at := ts,
      ib_status := if ib_attempts r + 1 \<ge> lm then INBOX_NEEDS_HUMAN else PENDING\<rparr>)"
  using assms by (auto simp: inbox_failed_def Let_def inbox_get_update)

text \<open>A failing inbox event is retried until the limit and no longer: a pending event that has
  failed \<open>a\<close> times and fails \<open>n\<close> times more (below the limit before the last failure) has
  \<open>a + n\<close> failures, stays pending while that is below the limit, and waits for a human exactly when
  the limit is reached.\<close>

theorem inbox_escalates_at_limit:
  assumes "inbox_get seq j = Some r" and "ib_status r = PENDING" and "0 < n"
    and "ib_attempts r + int n \<le> lm"
  shows "\<exists>j' r'. fail_times ts seq lm n j = Inr j' \<and> inbox_get seq j' = Some r' \<and>
    ib_attempts r' = ib_attempts r + int n \<and>
    ib_status r' = (if ib_attempts r + int n = lm then INBOX_NEEDS_HUMAN else PENDING) \<and>
    ib_payload r' = ib_payload r"
  using assms
proof (induction n arbitrary: j r)
  case (Suc n)
  obtain j1 r1 where j1: "inbox_failed ts seq lm j = Inr (ib_status r1, j1)" "inbox_get seq j1 = Some r1"
    and r1: "ib_attempts r1 = ib_attempts r + 1" "ib_payload r1 = ib_payload r"
      "ib_status r1 = (if ib_attempts r + 1 \<ge> lm then INBOX_NEEDS_HUMAN else PENDING)"
    using inbox_failed_pending [OF Suc.prems(1,2), of ts lm] by auto
  show ?case
  proof (cases n)
    case 0
    with j1 r1 Suc.prems(4) show ?thesis by (auto simp: result_simps)
  next
    case (Suc m)
    then have "ib_status r1 = PENDING" using r1(3) Suc.prems(4) by simp
    then show ?thesis
      using Suc.IH [OF j1(2)] Suc Suc.prems(4) j1(1) r1 by (auto simp: result_simps)
  qed
qed simp

theorem inbox_escalates_at_limit_witness:
  "\<exists>j' r'. fail_times ''t2'' 1 3 3 witness_run = Inr j' \<and> inbox_get 1 j' = Some r' \<and>
     ib_status r' = INBOX_NEEDS_HUMAN"
proof -
  have "\<exists>r. inbox_get 1 witness_run = Some r \<and> ib_status r = PENDING \<and> ib_attempts r = 0"
    by (simp add: witness_run_def inbox_get_def inbox_add_def inbox_seen_def hold_def emit_def
        fresh_journal_def Let_def)
  then obtain r where "inbox_get 1 witness_run = Some r" "ib_status r = PENDING" "ib_attempts r = 0" by blast
  then show ?thesis using inbox_escalates_at_limit [of 1 witness_run r 3 3 "''t2''"] by auto
qed

end
