(* ===== verification/Clamp.thy ===== *)
theory Clamp
  imports Journal_Steps
begin

text \<open>
  The clamp of stored deadlines (\<^verbatim>\<open>Journal.clamp_deadlines\<close>): a deadline is moved at most once,
  and clamping again at the same bound changes nothing.
\<close>

section \<open>Markers\<close>

definition clamp_markers :: "journal \<Rightarrow> (string, string) table" where
  "clamp_markers j = filter (is_clamp_key \<circ> fst) (j_meta j)"

lemma append_eq_Cons_unique:
  "c \<notin> set xs \<Longrightarrow> c \<notin> set ys \<Longrightarrow> xs @ c # as = ys @ c # bs \<longleftrightarrow> xs = ys \<and> as = bs"
  by (auto simp: append_eq_append_conv2 append_eq_Cons_conv Cons_eq_append_conv)

lemma split_last_colon:
  assumes "a @ CHR '':'' # show_int m = b @ CHR '':'' # show_int n"
  shows "a = b \<and> m = n"
proof -
  have "rev (show_int m) @ CHR '':'' # rev a = rev (show_int n) @ CHR '':'' # rev b"
    using arg_cong [OF assms, of rev] by simp
  moreover have "CHR '':'' \<notin> set (rev (show_int m))" "CHR '':'' \<notin> set (rev (show_int n))" by simp_all
  ultimately have "rev (show_int m) = rev (show_int n) \<and> rev a = rev b"
    by (simp add: append_eq_Cons_unique)
  then show ?thesis using show_int_inj by simp
qed

lemma clamp_key_simps [simp]:
  "clamp_exhausted_key k m = clamp_exhausted_key k' m' \<longleftrightarrow> k = k' \<and> m = m'"
  "clamp_deferral_key k m = clamp_deferral_key k' m' \<longleftrightarrow> k = k' \<and> m = m'"
  "clamp_exhausted_key k m \<noteq> clamp_deferral_key k' m'"
  "clamp_deferral_key k m \<noteq> clamp_exhausted_key k' m'"
  using split_last_colon [of k m k' m'] by (auto simp: clamp_exhausted_key_def clamp_deferral_key_def)

lemma is_clamp_key [simp]: "is_clamp_key (clamp_exhausted_key k m)" "is_clamp_key (clamp_deferral_key k m)"
  by (simp_all add: is_clamp_key_def clamp_exhausted_key_def clamp_deferral_key_def is_prefix_of_def
      ascii_lower_def less_eq_char_def)

lemma clamp_markers_lookup: "is_clamp_key k \<Longrightarrow> map_of (clamp_markers j) k = map_of (j_meta j) k"
  unfolding clamp_markers_def by (rule map_of_filter_key) simp

lemma fold_update_mem:
  "k \<in> set ms \<Longrightarrow> map_of (foldl (\<lambda>t m. AList.update m v t) t ms) k = Some v"
proof (induction ms arbitrary: t)
  case (Cons m ms)
  then show ?case by (cases "k \<in> set ms") auto
qed simp

lemma fold_update_keys:
  "fst ` set (foldl (\<lambda>t m. AList.update m v t) t ms) = fst ` set t \<union> set ms"
  by (induction ms arbitrary: t) (auto simp: dom_update)

section \<open>The clamped journal\<close>

lemma clamp_simps:
  "j_exhausted (snd (clamp_deadlines bound j)) =
     map (\<lambda>(k, r). (k, clamp_exhausted_row bound (clamp_markers j) k r)) (j_exhausted j)"
  "j_deferrals (snd (clamp_deadlines bound j)) =
     map (\<lambda>(k, r). (k, clamp_deferral_row bound (clamp_markers j) (fst ` set (current_deferrals j)) k r)) (j_deferrals j)"
  "fst (clamp_deadlines bound j) = length (clamp_hits bound j)"
  by (simp_all add: clamp_deadlines_def clamp_markers_def clamp_hits_def Let_def)

lemma seq_clamp_row [simp]: "x_receipt_seq (clamp_exhausted_row b ms k r) = x_receipt_seq r"
  by (simp add: clamp_exhausted_row_def)

lemma deferral_numbers_clamp: "deferral_numbers key (snd (clamp_deadlines bound j)) = deferral_numbers key j"
  by (simp add: deferral_numbers_def clamp_simps filter_map o_def split_def)

lemma current_deferrals_clamp:
  "current_deferrals (snd (clamp_deadlines bound j)) =
     map (\<lambda>(k, r). (k, clamp_deferral_row bound (clamp_markers j) (fst ` set (current_deferrals j)) k r)) (current_deferrals j)"
proof -
  let ?f = "clamp_deferral_row bound (clamp_markers j) (fst ` set (current_deferrals j))"
  have "filter (\<lambda>((k, n), _). P k n) (map (\<lambda>(k, r). (k, ?f k r)) t) =
      map (\<lambda>(k, r). (k, ?f k r)) (filter (\<lambda>((k, n), _). P k n) t)" for P t
    by (induction t) auto
  then show ?thesis
    by (simp only: current_deferrals_def [of "snd (clamp_deadlines bound j)"] deferral_numbers_clamp clamp_simps)
      (simp only: current_deferrals_def [of j])
qed

lemma clamp_live_clamp: "clamp_live (snd (clamp_deadlines bound j)) = clamp_live j"
  by (simp add: clamp_live_def current_deferrals_clamp clamp_simps split_def)

lemma clamp_meta_lookup:
  assumes "m \<in> set (clamp_live j)" and "is_clamp_key m"
  shows "map_of (clamp_markers (snd (clamp_deadlines bound j))) m =
    (if m \<in> set (clamp_hits bound j) then Some (show_int bound) else map_of (clamp_markers j) m)"
proof -
  have "map_of (j_meta (snd (clamp_deadlines bound j))) m =
      map_of (foldl (\<lambda>t m. AList.update m (show_int bound) t) (j_meta j) (clamp_hits bound j)) m"
    unfolding clamp_deadlines_meta using assms(1) by (intro map_of_filter_key) simp
  then show ?thesis
    using assms(2) by (simp add: clamp_markers_lookup fold_update_mem)
qed


lemma wanted_exhausted_again:
  assumes "keyed (j_exhausted j)" and row: "(k, r) \<in> set (j_exhausted j)"
    and "b = bound \<or> clamp_wanted (clamp_exhausted_key k (x_receipt_seq r)) (x_until r) bound (clamp_markers j)"
  shows "\<not> clamp_wanted (clamp_exhausted_key k (x_receipt_seq r))
      (x_until (clamp_exhausted_row bound (clamp_markers j) k r)) b (clamp_markers (snd (clamp_deadlines bound j)))"
proof -
  let ?m = "clamp_exhausted_key k (x_receipt_seq r)"
  have "?m \<in> set (clamp_live j)" using row by (force simp: clamp_live_def)
  note look = clamp_meta_lookup [OF this is_clamp_key(1), of bound]
  have same: "r' = r" if "(k, r') \<in> set (j_exhausted j)" for r'
    using that row assms(1) by (simp add: keyed_mem_iff)
  have hit: "?m \<in> set (clamp_hits bound j) \<longleftrightarrow> clamp_wanted ?m (x_until r) bound (clamp_markers j)"
    using row by (force simp: clamp_hits_def clamp_markers_def Let_def dest: same)
  show ?thesis
    using assms(3) look hit
    by (auto simp: clamp_exhausted_row_def clamp_wanted_def split: option.splits if_splits)
qed

lemma wanted_deferral_again:
  assumes "keyed (j_deferrals j)" and row: "(k, r) \<in> set (current_deferrals j)"
    and "b = bound \<or> clamp_wanted (clamp_deferral_key (fst k) (snd k)) (d_defer_until r) bound (clamp_markers j)"
  shows "\<not> clamp_wanted (clamp_deferral_key (fst k) (snd k))
      (d_defer_until (clamp_deferral_row bound (clamp_markers j) (fst ` set (current_deferrals j)) k r)) b
      (clamp_markers (snd (clamp_deadlines bound j)))"
proof -
  let ?m = "clamp_deferral_key (fst k) (snd k)"
  have "?m \<in> set (clamp_live j)" using row by (force simp: clamp_live_def)
  note look = clamp_meta_lookup [OF this is_clamp_key(2), of bound]
  have kd: "keyed (current_deferrals j)" using assms(1) by (simp add: current_deferrals_def)
  have same: "r' = r" if "(k, r') \<in> set (current_deferrals j)" for r'
    using that row kd by (simp add: keyed_mem_iff)
  have hit: "?m \<in> set (clamp_hits bound j) \<longleftrightarrow> clamp_wanted ?m (d_defer_until r) bound (clamp_markers j)"
    using row by (force simp: clamp_hits_def clamp_markers_def Let_def dest: same)
  show ?thesis
    using assms(3) look hit row
    by (auto simp: clamp_deferral_row_def clamp_wanted_def image_iff split: option.splits if_splits)
qed


lemma clamp_hits_again:
  assumes "tables_keyed j"
  shows "clamp_hits bound (snd (clamp_deadlines bound j)) = []"
  using assms wanted_exhausted_again [of j _ _ bound bound] wanted_deferral_again [of j _ _ bound bound]
  unfolding clamp_hits_def Let_def clamp_markers_def [symmetric]
  by (auto simp: filter_empty_conv clamp_simps current_deferrals_clamp tables_keyed_def)

lemma clamp_meta_again:
  "filter (\<lambda>(k, v). \<not> (k \<in> fst ` set (clamp_markers (snd (clamp_deadlines bound j))) \<and> k \<notin> set (clamp_live j)))
     (j_meta (snd (clamp_deadlines bound j))) = j_meta (snd (clamp_deadlines bound j))"
  (is "filter ?P ?t = ?t")
proof -
  have hits: "set (clamp_hits bound j) \<subseteq> set (clamp_live j)"
    by (force simp: clamp_hits_def clamp_live_def Let_def)
  have "k \<in> set (clamp_live j)" if kv: "(k, v) \<in> set ?t" and c: "is_clamp_key k" for k v
  proof (rule ccontr)
    assume nl: "k \<notin> set (clamp_live j)"
    from kv have "k \<in> fst ` set (foldl (\<lambda>t m. AList.update m (show_int bound) t) (j_meta j) (clamp_hits bound j))"
      unfolding clamp_deadlines_meta by force
    then have "k \<in> fst ` set (j_meta j)" using nl hits by (auto simp: fold_update_keys)
    with c have "k \<in> fst ` set (filter (is_clamp_key \<circ> fst) (j_meta j))" by force
    with kv nl show False unfolding clamp_deadlines_meta by auto
  qed
  then show ?thesis by (auto simp: filter_id_conv clamp_markers_def)
qed

lemma clamp_rows_id:
  assumes "\<And>k r. (k, r) \<in> set t \<Longrightarrow> f k r = r"
  shows "map (\<lambda>(k, r). (k, f k r)) t = t"
  using assms by (intro map_idI) auto

lemma clamp_again:
  assumes "tables_keyed j"
  shows "clamp_deadlines bound (snd (clamp_deadlines bound j)) = (0, snd (clamp_deadlines bound j))"
proof -
  let ?j = "snd (clamp_deadlines bound j)"
  let ?cur = "fst ` set (current_deferrals j)"
  have cur: "fst ` set (current_deferrals ?j) = ?cur"
    by (force simp: current_deferrals_clamp)
  have x: "clamp_exhausted_row bound (clamp_markers ?j) k r = r" if "(k, r) \<in> set (j_exhausted ?j)" for k r
    using that wanted_exhausted_again [of j k _ bound bound] assms
    by (auto simp: clamp_simps tables_keyed_def clamp_exhausted_row_def [of _ "clamp_markers ?j"])
  have d: "clamp_deferral_row bound (clamp_markers ?j) ?cur k r = r" if kr: "(k, r) \<in> set (j_deferrals ?j)" for k r
  proof (cases "k \<in> ?cur")
    case True
    from kr obtain r0 where r0: "(k, r0) \<in> set (j_deferrals j)" "r = clamp_deferral_row bound (clamp_markers j) ?cur k r0"
      by (auto simp: clamp_simps)
    with True have "(k, r0) \<in> set (current_deferrals j)" by (auto simp: current_deferrals_def)
    then show ?thesis
      using wanted_deferral_again [of j k r0 bound bound] assms r0(2)
      by (simp add: tables_keyed_def clamp_deferral_row_def [of _ "clamp_markers ?j"])
  qed (simp add: clamp_deferral_row_def)
  have "clamp_deadlines bound ?j =
      (length (clamp_hits bound ?j),
       ?j\<lparr>j_meta := j_meta (snd (clamp_deadlines bound ?j)),
          j_exhausted := map (\<lambda>(k, r). (k, clamp_exhausted_row bound (clamp_markers ?j) k r)) (j_exhausted ?j),
          j_deferrals := map (\<lambda>(k, r). (k, clamp_deferral_row bound (clamp_markers ?j) ?cur k r)) (j_deferrals ?j)\<rparr>)"
    unfolding cur [symmetric] by (simp add: clamp_deadlines_def [of _ ?j] clamp_markers_def clamp_hits_def Let_def del: foldl_append)
  moreover have "j_meta (snd (clamp_deadlines bound ?j)) = j_meta ?j"
    using clamp_meta_again [of bound j] clamp_hits_again [OF assms, of bound]
    by (simp only: clamp_deadlines_meta [of bound ?j] clamp_live_clamp clamp_markers_def [symmetric] foldl.simps)
  ultimately show ?thesis
    using clamp_hits_again [OF assms, of bound] by (simp add: clamp_rows_id [OF x] clamp_rows_id [OF d])
qed

section \<open>Properties\<close>

lemma clamp_lookup:
  "map_of (j_exhausted (snd (clamp_deadlines bound j))) k =
     map_option (clamp_exhausted_row bound (clamp_markers j) k) (map_of (j_exhausted j) k)"
  "map_of (j_deferrals (snd (clamp_deadlines bound j))) d =
     map_option (clamp_deferral_row bound (clamp_markers j) (fst ` set (current_deferrals j)) d) (map_of (j_deferrals j) d)"
  by (simp_all add: clamp_simps)

text \<open>C15. Clamping the stored deadlines settles them: doing it again at the same bound changes nothing,
  and an exhaustion mark or a current deferral whose deadline was moved is never moved again, whatever
  bound a later clamp uses; the row then still holds the bound of the first clamp.\<close>

theorem clamp_deadlines_settles:
  assumes "journal_wf j"
  shows "clamp_deadlines bound (snd (clamp_deadlines bound j)) = (0, snd (clamp_deadlines bound j)) \<and>
    (\<forall>k r. map_of (j_exhausted j) k = Some r \<longrightarrow>
       clamp_wanted (clamp_exhausted_key k (x_receipt_seq r)) (x_until r) bound (clamp_markers j) \<longrightarrow>
       map_of (j_exhausted (snd (clamp_deadlines b (snd (clamp_deadlines bound j))))) k
         = Some (r\<lparr>x_until := Some (show_int bound)\<rparr>)) \<and>
    (\<forall>k r. (k, r) \<in> set (current_deferrals j) \<longrightarrow>
       clamp_wanted (clamp_deferral_key (fst k) (snd k)) (d_defer_until r) bound (clamp_markers j) \<longrightarrow>
       map_of (j_deferrals (snd (clamp_deadlines b (snd (clamp_deadlines bound j))))) k
         = Some (r\<lparr>d_defer_until := Some (show_int bound)\<rparr>))"
proof -
  have kd: "tables_keyed j" using assms by (simp add: journal_wf_def)
  have "map_of (j_exhausted (snd (clamp_deadlines b (snd (clamp_deadlines bound j))))) k
         = Some (r\<lparr>x_until := Some (show_int bound)\<rparr>)"
    if r: "map_of (j_exhausted j) k = Some r"
      and w: "clamp_wanted (clamp_exhausted_key k (x_receipt_seq r)) (x_until r) bound (clamp_markers j)" for k r
    using wanted_exhausted_again [of j k r b bound] kd r w
    by (simp add: clamp_lookup tables_keyed_def clamp_exhausted_row_def map_of_SomeD)
  moreover have "map_of (j_deferrals (snd (clamp_deadlines b (snd (clamp_deadlines bound j))))) k
         = Some (r\<lparr>d_defer_until := Some (show_int bound)\<rparr>)"
    if r: "(k, r) \<in> set (current_deferrals j)"
      and w: "clamp_wanted (clamp_deferral_key (fst k) (snd k)) (d_defer_until r) bound (clamp_markers j)" for k r
  proof -
    have "k \<in> fst ` set (current_deferrals j)" "map_of (j_deferrals j) k = Some r"
      using r kd by (force, auto simp: current_deferrals_def tables_keyed_def keyed_mem_iff)
    then show ?thesis
      using wanted_deferral_again [of j k r b bound] kd r w
      by (simp add: clamp_lookup tables_keyed_def clamp_deferral_row_def)
  qed
  ultimately show ?thesis using clamp_again [OF kd] by blast
qed

definition witness_marked :: journal where
  "witness_marked = exhausted_put ''acct'' \<lparr>m_until = 900, m_observed_at = 100, m_receipt_seq = 1\<rparr> 1 (fresh_journal ''t0'')"

theorem clamp_deadlines_settles_witness:
  "map_option x_until (map_of (j_exhausted (snd (clamp_deadlines 200 (snd (clamp_deadlines 500 witness_marked))))) ''acct'')
     = Some (Some ''500'')"
proof -
  have "jstep (fresh_journal ''t0'') witness_marked"
    unfolding witness_marked_def by (rule s_exhausted) (rule refl)
  then have wf: "journal_wf witness_marked" using journal_inv.step_invar fresh_journal_wf by blast
  have row: "map_of (j_exhausted witness_marked) ''acct''
      = Some \<lparr>x_until = Some (show_int 900), x_observed_at = show_int 100, x_receipt_seq = 1\<rparr>"
    by (simp add: witness_marked_def exhausted_put_def fresh_journal_def put_newer_def Let_def)
  have wanted: "clamp_wanted (clamp_exhausted_key ''acct'' 1) (Some (show_int 900)) 500 (clamp_markers witness_marked)"
    by code_simp
  have "show_int 500 = ''500''" by code_simp
  then show ?thesis
    using clamp_deadlines_settles [OF wf, of 500 200] row wanted by simp
qed

end
