(* ===== verification/Usage.thy ===== *)
theory Usage
  imports Journal_Steps Floats
begin

text \<open>
  Usage ingestion and the gate's journal reads (\<^verbatim>\<open>wsd/usage.py\<close>). A session's own report is
  untrusted: it is stored apart and the gate never reads it. A host-side read is trusted and moves
  the gate. The lemmas show the separation, the bounds on what a reset hint may do, and that an
  exhaustion mark keeps its account out until its deadline.
\<close>

section \<open>Observations\<close>

text \<open>\<^verbatim>\<open>used_percent\<close> is any Python object; a finite float is an exact rational.\<close>


datatype percent_value = PBool bool | PInt int | PFloat py_float | POther

text \<open>A reset hint is an integer, but Python's \<^verbatim>\<open>True\<close> is one too.\<close>

datatype hint = HBool bool | HInt int

definition hint_int :: "hint \<Rightarrow> int" where
  "hint_int h = (case h of HBool b \<Rightarrow> of_bool b | HInt i \<Rightarrow> i)"

record observation =
  ob_window_id :: string
  ob_kind :: string
  ob_used_percent :: percent_value
  ob_resets_at :: "hint option"
  ob_source :: string
  ob_claimed_key :: "string option"

datatype ingested = Stored int | Dropped string

definition label_char :: "char \<Rightarrow> bool" where
  "label_char c \<longleftrightarrow> (CHR ''a'' \<le> c \<and> c \<le> CHR ''z'') \<or> (CHR ''0'' \<le> c \<and> c \<le> CHR ''9'') \<or>
     c \<in> set ''._:-''"

definition LABEL :: "string \<Rightarrow> bool" where
  "LABEL v \<longleftrightarrow> v \<noteq> [] \<and> length v \<le> 64 \<and> hd v \<notin> set ''._:-'' \<and> list_all label_char v"

definition kept_reset :: "hint option \<Rightarrow> int \<Rightarrow> usage_settings \<Rightarrow> int option" where
  "kept_reset h now s =
     (case h of
        Some (HInt i) \<Rightarrow> if now < i \<and> i \<le> now + max_window_hours s * 3600 then Some i else None
      | _ \<Rightarrow> None)"

definition untrusted_defer_until :: "hint option \<Rightarrow> int \<Rightarrow> usage_settings \<Rightarrow> int" where
  "untrusted_defer_until h now s =
     (let due = (case h of None \<Rightarrow> now + unknown_backoff_minutes s * 60 | Some x \<Rightarrow> hint_int x) in
      min (max due (now + min_recheck_seconds s)) (now + untrusted_max_defer_minutes s * 60))"

text \<open>The percentage that passes \<^verbatim>\<open>0 <= pct <= 100\<close>, as the float it is stored as.\<close>

definition percent_of :: "percent_value \<Rightarrow> rat option" where
  "percent_of p =
     (case p of
        PInt i \<Rightarrow> if 0 \<le> i \<and> i \<le> 100 then Some (of_int i) else None
      | PFloat (Finite q) \<Rightarrow> if 0 \<le> q \<and> q \<le> 100 then Some q else None
      | _ \<Rightarrow> None)"

definition check_observation :: "observation \<Rightarrow> string \<Rightarrow> int \<Rightarrow> usage_settings \<Rightarrow> string + window" where
  "check_observation obs key now s =
     (if ob_claimed_key obs \<noteq> None \<and> ob_claimed_key obs \<noteq> Some key then Inl ''other_account''
      else case percent_of (ob_used_percent obs) of
             None \<Rightarrow> Inl ''bad_percent''
           | Some pct \<Rightarrow>
               if \<not> list_all LABEL [ob_window_id obs, ob_kind obs, ob_source obs] then Inl ''bad_label''
               else Inr \<lparr>w_window_id = ob_window_id obs, w_kind = ob_kind obs, w_used_percent = pct,
                         w_resets_at = kept_reset (ob_resets_at obs) now s, w_observed_at = now,
                         w_receipt_seq = 0, w_source = ob_source obs\<rparr>)"

section \<open>Ingestion\<close>

definition ingest_untrusted ::
    "session_key \<times> generation \<Rightarrow> observation \<Rightarrow> int \<Rightarrow> usage_settings \<Rightarrow> journal \<Rightarrow>
     journal_error + ingested \<times> journal" where
  "ingest_untrusted lch obs now s j =
     (case launch (fst lch) (snd lch) j of
        None \<Rightarrow> Inr (Dropped ''unknown_launch'', j)
      | Some entry \<Rightarrow>
          if le_dispatched_at entry = None \<or> le_outcome entry = Some ABANDONED
          then Inr (Dropped ''unknown_launch'', j)
          else case check_observation obs (le_credential_key entry) now s of
                 Inl why \<Rightarrow> Inr (Dropped why, j)
               | Inr w \<Rightarrow>
                   bind_result (usage_seq_next j) (\<lambda>(seq, j1).
                     Inr (Stored seq, usage_put_untrusted (fst lch) (snd lch) w seq j1)))"

definition ingest_trusted ::
    "string \<Rightarrow> observation \<Rightarrow> int \<Rightarrow> usage_settings \<Rightarrow> journal \<Rightarrow> journal_error + ingested \<times> journal" where
  "ingest_trusted key obs now s j =
     (case check_observation obs key now s of
        Inl why \<Rightarrow> Inr (Dropped why, j)
      | Inr w \<Rightarrow> bind_result (usage_seq_next j) (\<lambda>(seq, j1). Inr (Stored seq, usage_put_trusted key w seq j1)))"

definition exhausted_until :: "hint option \<Rightarrow> int \<Rightarrow> usage_settings \<Rightarrow> int" where
  "exhausted_until h now s =
     (case kept_reset h now s of None \<Rightarrow> now + unknown_backoff_minutes s * 60 | Some u \<Rightarrow> u)"

definition mark_exhausted ::
    "string \<Rightarrow> hint option \<Rightarrow> int \<Rightarrow> usage_settings \<Rightarrow> journal \<Rightarrow> journal_error + ingested \<times> journal" where
  "mark_exhausted key h now s j =
     bind_result (usage_seq_next j) (\<lambda>(seq, j1).
       Inr (Stored seq, exhausted_put key
         \<lparr>m_until = exhausted_until h now s, m_observed_at = now, m_receipt_seq = seq\<rparr> seq j1))"

definition decide ::
    "(string \<Rightarrow> string \<Rightarrow> string \<Rightarrow> config_error + string) \<Rightarrow> configured_accounts \<Rightarrow> journal \<Rightarrow> string \<Rightarrow>
     string option \<Rightarrow> int \<Rightarrow> usage_settings \<Rightarrow> string set \<Rightarrow> config_error + decision" where
  "decide login_key ac j profile previous_key now s exclude =
     bind_result (view login_key ac profile) (\<lambda>v.
       Inr (gate v previous_key (usage_cache_of (map ca_key (pv_accounts v)) j) now s exclude))"

definition admitted ::
    "(string \<Rightarrow> string \<Rightarrow> string \<Rightarrow> config_error + string) \<Rightarrow> configured_accounts \<Rightarrow> journal \<Rightarrow>
     string option \<Rightarrow> launch_entry \<Rightarrow> int \<Rightarrow> usage_settings \<Rightarrow> string set \<Rightarrow> bool" where
  "admitted login_key ac j previous_key entry now s exclude =
     (case view login_key ac (le_profile entry) of
        Inl _ \<Rightarrow> False
      | Inr v \<Rightarrow> admits v previous_key entry (usage_cache_of (map ca_key (pv_accounts v)) j) now s exclude)"

section \<open>The store the gate reads\<close>

text \<open>
  The contract between the gate and a store whose untrusted writes it must not see: reading the
  cache after such a write gives what it gave before. Every decision computed from the cache is
  then independent of any number of untrusted writes.
\<close>

locale gate_store =
  fixes read :: "string list \<Rightarrow> 's \<Rightarrow> usage_cache" and untrusted_write :: "'s \<Rightarrow> 's \<Rightarrow> bool"
  assumes read_untrusted: "untrusted_write j j' \<Longrightarrow> read keys j' = read keys j"
begin

lemma read_run: "untrusted_write\<^sup>*\<^sup>* j j' \<Longrightarrow> read keys j' = read keys j"
  by (induction rule: rtranclp_induct) (simp_all add: read_untrusted)

lemma decision_run: "untrusted_write\<^sup>*\<^sup>* j j' \<Longrightarrow> F (\<lambda>ks. read ks j') = F (\<lambda>ks. read ks j)"
  using read_run by presburger

end

definition untrusted_report :: "journal \<Rightarrow> journal \<Rightarrow> bool" where
  "untrusted_report j j' \<longleftrightarrow> (\<exists>lch obs now s r. ingest_untrusted lch obs now s j = Inr (r, j'))"

lemma usage_cache_cong:
  "j_usage j' = j_usage j \<Longrightarrow> j_exhausted j' = j_exhausted j \<Longrightarrow> usage_cache_of keys j' = usage_cache_of keys j"
  by (simp add: usage_cache_of_def key_windows_def)

lemma usage_seq_next_tables:
  assumes "usage_seq_next j = Inr (n, j')"
  shows "j_usage j' = j_usage j \<and> j_untrusted j' = j_untrusted j \<and> j_exhausted j' = j_exhausted j \<and>
    j_launches j' = j_launches j \<and> j_deferrals j' = j_deferrals j"
  using assms by (auto simp: usage_seq_next_def Let_def split: option.splits if_splits)

lemma ingest_untrusted_cases:
  assumes "ingest_untrusted lch obs now s j = Inr (r, j')"
  obtains (dropped) why where "r = Dropped why" "j' = j"
  | (stored) seq j1 w where "r = Stored seq" "usage_seq_next j = Inr (seq, j1)"
      "j' = usage_put_untrusted (fst lch) (snd lch) w seq j1"
  using assms
  by (cases "launch (fst lch) (snd lch) j")
    (auto simp: ingest_untrusted_def bind_result_eq_Inr split: if_splits sum.splits)

lemma ingest_trusted_cases:
  assumes "ingest_trusted key obs now s j = Inr (r, j')"
  obtains (dropped) why where "r = Dropped why" "j' = j"
  | (stored) seq j1 w where "r = Stored seq" "usage_seq_next j = Inr (seq, j1)"
      "check_observation obs key now s = Inr w" "j' = usage_put_trusted key w seq j1"
  using assms by (auto simp: ingest_trusted_def bind_result_eq_Inr split: sum.splits)

lemma mark_exhausted_stored:
  assumes "mark_exhausted key h now s j = Inr (r, j')"
  obtains seq j1 where "r = Stored seq" "usage_seq_next j = Inr (seq, j1)"
    "j' = exhausted_put key \<lparr>m_until = exhausted_until h now s, m_observed_at = now, m_receipt_seq = seq\<rparr> seq j1"
  using assms by (auto simp: mark_exhausted_def bind_result_eq_Inr)

interpretation untrusted: gate_store usage_cache_of untrusted_report
proof unfold_locales
  fix j j' keys
  assume "untrusted_report j j'"
  then obtain lch obs now s r where "ingest_untrusted lch obs now s j = Inr (r, j')"
    by (auto simp: untrusted_report_def)
  then show "usage_cache_of keys j' = usage_cache_of keys j"
    by (cases rule: ingest_untrusted_cases)
      (auto simp: usage_put_untrusted_def intro!: usage_cache_cong dest!: usage_seq_next_tables)
qed

text \<open>C22. Nothing a session reports about its own usage can move the gate: after any number of
  ingested untrusted reports, whatever they contain and whichever launches they come from, the gate
  decides for every profile as before and the launch guard admits exactly the same entries.\<close>

theorem untrusted_reports_never_move_gate:
  assumes "untrusted_report\<^sup>*\<^sup>* j j'"
  shows "decide login_key ac j' profile previous now s exclude = decide login_key ac j profile previous now s exclude \<and>
    admitted login_key ac j' previous entry now s exclude = admitted login_key ac j previous entry now s exclude"
  by (simp add: decide_def admitted_def untrusted.read_run [OF assms] split: sum.splits)

definition witness_observation :: observation where
  "witness_observation = \<lparr>ob_window_id = ''w5'', ob_kind = ''5h'', ob_used_percent = PInt 99,
     ob_resets_at = Some (HInt 2000), ob_source = ''codex.host-read'', ob_claimed_key = None\<rparr>"

definition witness_dispatched :: journal where
  "witness_dispatched = (fresh_journal ''t0'')\<lparr>j_launches :=
     [((''k'', 1), (put_once F_dispatched_at ''t1'' (example_entry 1), None))]\<rparr>"

lemma witness_report:
  "\<exists>j'. ingest_untrusted (''k'', 1) witness_observation 1000 default_usage witness_dispatched = Inr (Stored 1, j')"
proof -
  have "(case ingest_untrusted (''k'', 1) witness_observation 1000 default_usage witness_dispatched of
      Inr (Stored n, _) \<Rightarrow> n = 1 | _ \<Rightarrow> False)" by code_simp
  then show ?thesis by (auto split: sum.splits ingested.splits prod.splits)
qed

theorem untrusted_reports_never_move_gate_witness:
  "\<exists>j'. ingest_untrusted (''k'', 1) witness_observation 1000 default_usage witness_dispatched = Inr (Stored 1, j') \<and>
     decide (\<lambda>_ _ d. Inr d) (make_accounts [] [] []) j' ''p'' None 1001 default_usage {} =
     decide (\<lambda>_ _ d. Inr d) (make_accounts [] [] []) witness_dispatched ''p'' None 1001 default_usage {}"
proof -
  from witness_report obtain j' where
    j': "ingest_untrusted (''k'', 1) witness_observation 1000 default_usage witness_dispatched = Inr (Stored 1, j')"
    by blast
  then have "untrusted_report\<^sup>*\<^sup>* witness_dispatched j'"
    unfolding untrusted_report_def by blast
  with j' show ?thesis using untrusted_reports_never_move_gate by blast
qed

section \<open>Receipt order\<close>

text \<open>Every stored receipt number has been given out by the counter.\<close>

definition receipts_upto :: "int \<Rightarrow> journal \<Rightarrow> bool" where
  "receipts_upto n j \<longleftrightarrow> list_all (\<lambda>(_, r). u_receipt_seq r \<le> n) (j_usage j) \<and>
     list_all (\<lambda>(_, r). u_receipt_seq r \<le> n) (j_untrusted j) \<and>
     list_all (\<lambda>(_, r). x_receipt_seq r \<le> n) (j_exhausted j)"

definition usage_ordered :: "journal \<Rightarrow> bool" where
  "usage_ordered j \<longleftrightarrow> keyed (j_usage j) \<and> keyed (j_exhausted j) \<and> seq_wf j \<and>
     (\<exists>n. map_of (j_meta j) SEQ_KEY = Some (show_int n) \<and> receipts_upto n j)"

lemma list_all_update:
  "list_all P t \<Longrightarrow> P (k, r) \<Longrightarrow> list_all P (AList.update k r t)"
  by (induction t) auto

lemma list_all_put_newer:
  "list_all P t \<Longrightarrow> P (k, r) \<Longrightarrow> list_all P (put_newer f k r t)"
  by (auto simp: put_newer_def intro: list_all_update split: option.splits)

lemma receipts_upto_mono: "receipts_upto n j \<Longrightarrow> n \<le> m \<Longrightarrow> receipts_upto m j"
  by (force simp: receipts_upto_def list_all_iff)

lemma usage_seq_next_ordered:
  assumes "usage_ordered j" and "usage_seq_next j = Inr (n, j')"
  shows "usage_ordered j'" and "map_of (j_meta j') SEQ_KEY = Some (show_int n)"
    and "receipts_upto (n - 1) j'" and "receipts_upto n j'" and "0 < n" and "n \<le> sqlite_max"
proof -
  from assms(1) obtain m where m: "map_of (j_meta j) SEQ_KEY = Some (show_int m)" "receipts_upto m j"
    by (auto simp: usage_ordered_def)
  have "seq_wf j" using assms(1) by (simp add: usage_ordered_def)
  note nx = usage_seq_next_wf [OF this assms(2)]
  with m have n: "n = m + 1" "0 \<le> m" using show_int_inj by auto
  note t = usage_seq_next_tables [OF assms(2)]
  have "receipts_upto m j'" using m(2) t by (simp add: receipts_upto_def)
  with n show "receipts_upto (n - 1) j'" "0 < n" by simp_all
  then show u: "receipts_upto n j'" by (auto intro: receipts_upto_mono)
  show "n \<le> sqlite_max" "map_of (j_meta j') SEQ_KEY = Some (show_int n)" using nx by auto
  with u nx t assms(1) show "usage_ordered j'" by (auto simp: usage_ordered_def)
qed

lemma put_newer_fresh:
  assumes "list_all (\<lambda>(_, r). f r \<le> n - 1) t" and "f r = n"
  shows "map_of (put_newer f k r t) k = Some r"
proof (cases "map_of t k")
  case (Some old)
  then have "f old \<le> n - 1" using assms(1) map_of_SomeD by (fastforce simp: list_all_iff)
  with assms(2) Some show ?thesis by (simp add: put_newer_def)
qed (simp add: put_newer_def)


lemma ingest_ordered:
  assumes "usage_ordered j"
  shows "ingest_untrusted lch obs now s j = Inr (r, j') \<Longrightarrow> usage_ordered j'"
    and "ingest_trusted key obs now s j = Inr (r, j') \<Longrightarrow> usage_ordered j'"
    and "mark_exhausted key h now s j = Inr (r, j') \<Longrightarrow> usage_ordered j'"
proof -
  assume "ingest_untrusted lch obs now s j = Inr (r, j')"
  then show "usage_ordered j'"
  proof (cases rule: ingest_untrusted_cases)
    case (stored seq j1 w)
    note n = usage_seq_next_ordered [OF assms stored(2)]
    show ?thesis using n(1,2,4) unfolding stored(3)
      by (auto simp: usage_ordered_def usage_put_untrusted_def seq_wf_def receipts_upto_def window_row_def
          intro!: list_all_put_newer)
  qed (use assms in simp)
next
  assume "ingest_trusted key obs now s j = Inr (r, j')"
  then show "usage_ordered j'"
  proof (cases rule: ingest_trusted_cases)
    case (stored seq j1 w)
    note n = usage_seq_next_ordered [OF assms stored(2)]
    show ?thesis using n(1,2,4) unfolding stored(4)
      by (auto simp: usage_ordered_def usage_put_trusted_def seq_wf_def receipts_upto_def window_row_def
          intro!: list_all_put_newer)
  qed (use assms in simp)
next
  assume "mark_exhausted key h now s j = Inr (r, j')"
  then obtain seq j1 where st: "usage_seq_next j = Inr (seq, j1)"
    "j' = exhausted_put key \<lparr>m_until = exhausted_until h now s, m_observed_at = now, m_receipt_seq = seq\<rparr> seq j1"
    by (rule mark_exhausted_stored)
  note n = usage_seq_next_ordered [OF assms st(1)]
  show "usage_ordered j'" using n(1,2,4) unfolding st(2)
    by (auto simp: usage_ordered_def exhausted_put_def Let_def seq_wf_def receipts_upto_def
        intro!: list_all_put_newer split: option.splits)
qed

section \<open>What a trusted signal does to the gate\<close>

lemma map_of_map_filter:
  "keyed t \<Longrightarrow> map_of (List.map_filter (\<lambda>(k, r). if k \<in> K then map_option (Pair k) (f r) else None) t) k =
     (if k \<in> K then Option.bind (map_of t k) f else None)"
proof (induction t)
  case (Cons kr t)
  obtain a r where kr: "kr = (a, r)" by (cases kr)
  with Cons have IH: "map_of (List.map_filter (\<lambda>(k, r). if k \<in> K then map_option (Pair k) (f r) else None) t) k =
     (if k \<in> K then Option.bind (map_of t k) f else None)" and new: "a \<notin> fst ` set t"
    by (auto simp: keyed_def)
  from new have "map_of t a = None" by (simp add: map_of_eq_None_iff)
  with kr IH show ?case by (cases "f r") (auto simp: List.map_filter_simps)
qed (simp add: List.map_filter_simps)

lemma marks_lookup:
  assumes "keyed (j_exhausted j)" and "key \<in> set keys"
  shows "map_of (uc_marks (usage_cache_of keys j)) key = Option.bind (map_of (j_exhausted j) key) row_mark"
  using map_of_map_filter [OF assms(1), of "set keys" row_mark key] assms(2)
  by (simp add: usage_cache_of_def Let_def)

lemma epoch_show: "\<bar>i\<bar> < 10 ^ 18 \<Longrightarrow> epoch (Some (show_int i)) = Some i"
  using int_digits_le [of i 18] by (simp add: epoch_def py_int_show_int)

lemma exhausted_put_fresh:
  assumes "receipts_upto (n - 1) j" and "\<bar>m_until m\<bar> < 10 ^ 18" and "\<bar>m_observed_at m\<bar> < 10 ^ 18"
  shows "Option.bind (map_of (j_exhausted (exhausted_put key m n j)) key) row_mark =
     Some (m\<lparr>m_receipt_seq := n\<rparr>)"
proof -
  let ?row = "\<lparr>x_until = Some (show_int (m_until m)), x_observed_at = show_int (m_observed_at m), x_receipt_seq = n\<rparr>"
  have "map_of (put_newer x_receipt_seq key ?row (j_exhausted j)) key = Some ?row"
    using assms(1) by (intro put_newer_fresh [where n = n]) (simp_all add: receipts_upto_def)
  then have "map_of (j_exhausted (exhausted_put key m n j)) key = Some ?row"
    by (auto simp: exhausted_put_def Let_def split: option.splits)
  then show ?thesis using assms(2,3) by (simp add: row_mark_def epoch_show)
qed

text \<open>C23. A limit signal holds: once an account is marked exhausted, every gate decision at any time
  from the signal until the mark's deadline (the kept reset hint, or the backoff for a signal without
  one) keeps that account out, for every profile that lists it and whatever was recorded before; and
  the deadline never lies further than the settings allow.\<close>

theorem mark_exhausted_holds:
  assumes "usage_ordered j" and "mark_exhausted key h now s j = Inr (r, j')"
    and "now \<le> t" and "t < exhausted_until h now s"
    and "\<bar>now\<bar> < 10 ^ 18" and "\<bar>exhausted_until h now s\<bar> < 10 ^ 18"
  shows "decide login_key ac j' profile previous t s exclude \<noteq> Inr (Chosen account key) \<and>
    exhausted_until h now s \<le> now + max (max_window_hours s * 3600) (unknown_backoff_minutes s * 60)"
proof -
  from assms(2) obtain seq j1 where st: "usage_seq_next j = Inr (seq, j1)"
    "j' = exhausted_put key \<lparr>m_until = exhausted_until h now s, m_observed_at = now, m_receipt_seq = seq\<rparr> seq j1"
    by (rule mark_exhausted_stored)
  have "keyed (j_exhausted j')" using ingest_ordered(3) [OF assms(1,2)] by (simp add: usage_ordered_def)
  note look = marks_lookup [OF this]
  have mark: "Option.bind (map_of (j_exhausted j') key) row_mark =
      Some \<lparr>m_until = exhausted_until h now s, m_observed_at = now, m_receipt_seq = seq\<rparr>"
    using exhausted_put_fresh [OF usage_seq_next_ordered(3) [OF assms(1) st(1)]] assms(5,6) st(2) by simp
  have blocked: "blocking key (usage_cache_of keys j') t s \<noteq> []" if "key \<in> set keys" for keys
    using look [OF that] mark assms(3,4) by (simp add: blocking_def)
  have "decide login_key ac j' profile previous t s exclude \<noteq> Inr (Chosen account key)"
  proof
    assume "decide login_key ac j' profile previous t s exclude = Inr (Chosen account key)"
    then obtain v where g: "gate v previous (usage_cache_of (map ca_key (pv_accounts v)) j') t s exclude = Chosen account key"
      by (auto simp: decide_def bind_result_eq_Inr)
    from gate_Chosen [OF g] obtain c where "c \<in> set (permitted v previous exclude)" "ca_key c = key"
      and free: "blocking key (usage_cache_of (map ca_key (pv_accounts v)) j') t s = []" by force
    then have "key \<in> set (map ca_key (pv_accounts v))" using permitted_subset by fastforce
    with free blocked show False by blast
  qed
  moreover have "exhausted_until h now s \<le> now + max (max_window_hours s * 3600) (unknown_backoff_minutes s * 60)"
    by (auto simp: exhausted_until_def kept_reset_def split: option.splits hint.splits)
  ultimately show ?thesis by blast
qed

lemma fresh_ordered: "usage_ordered (fresh_journal ts)"
proof -
  have "seq_wf (fresh_journal ts)" using fresh_journal_wf by (simp add: journal_wf_def)
  then show ?thesis
    by (auto simp: usage_ordered_def seq_wf_def receipts_upto_def fresh_journal_def SEQ_KEY_def keyed_def)
qed

theorem mark_exhausted_holds_witness:
  "\<exists>j'. mark_exhausted ''key'' None 1000 default_usage (fresh_journal ''t0'') = Inr (Stored 1, j') \<and>
     decide (\<lambda>_ _ d. Inr d) (make_accounts [] [] []) j' ''p'' None 2000 default_usage {} \<noteq> Inr (Chosen ''a'' ''key'')"
proof -
  have "(case mark_exhausted ''key'' None 1000 default_usage (fresh_journal ''t0'') of
      Inr (Stored n, _) \<Rightarrow> n = 1 | _ \<Rightarrow> False)" by code_simp
  then obtain j' where j': "mark_exhausted ''key'' None 1000 default_usage (fresh_journal ''t0'') = Inr (Stored 1, j')"
    by (auto split: sum.splits ingested.splits prod.splits)
  have "exhausted_until None 1000 default_usage = 2800" by code_simp
  with j' show ?thesis
    using mark_exhausted_holds [OF fresh_ordered j', of 2000] by fastforce
qed

lemma key_windows_mem:
  assumes "keyed (j_usage j)"
  shows "w \<in> set (key_windows key j) \<and> w_window_id w = wid \<longleftrightarrow>
    Option.bind (map_of (j_usage j) (key, wid)) (row_window wid) = Some w"
proof -
  have ids: "w_window_id x = i" if "row_window i r = Some x" for i r x
    using that by (auto simp: row_window_def split: option.splits)
  have "w \<in> set (key_windows key j) \<longleftrightarrow> (\<exists>i r. map_of (j_usage j) (key, i) = Some r \<and> row_window i r = Some w)"
    using keyed_mem_iff [OF assms] by (force simp: key_windows_def List.map_filter_def)
  then show ?thesis using ids by (auto simp: bind_eq_Some_conv)
qed

lemma row_window_stored:
  assumes "check_observation obs key now s = Inr w" and "\<bar>now\<bar> < 10 ^ 18"
    and "\<bar>now + max_window_hours s * 3600\<bar> < 10 ^ 18"
  shows "row_window (w_window_id w) (window_row w n) = Some (w\<lparr>w_receipt_seq := n\<rparr>)"
proof -
  from assms(1) have w: "w_observed_at w = now" "w_resets_at w = kept_reset (ob_resets_at obs) now s"
    by (auto simp: check_observation_def split: if_splits option.splits)
  have "\<bar>i\<bar> < 10 ^ 18" if "w_resets_at w = Some i" for i
    using that assms(2,3) unfolding w(2) by (auto simp: kept_reset_def split: option.splits hint.splits if_splits)
  then have "epoch (map_option show_int (w_resets_at w)) = w_resets_at w"
    by (cases "w_resets_at w") (auto simp: epoch_show, simp add: epoch_def)
  with w(1) assms(2) show ?thesis by (cases w) (simp add: row_window_def window_row_def epoch_show)
qed

text \<open>C24. The newest trusted reading is the one the gate sees: a reading that is stored gets a receipt
  number above every number stored before, and the account's cached windows then contain exactly that
  reading under its window id, with the clock of wsd as its time; a reading that is dropped changes
  nothing.\<close>

theorem trusted_reading_visible:
  assumes "usage_ordered j" and "ingest_trusted key obs now s j = Inr (r, j')" and "\<bar>now\<bar> < 10 ^ 18"
    and "\<bar>now + max_window_hours s * 3600\<bar> < 10 ^ 18"
  shows "usage_ordered j' \<and>
    (case r of
       Dropped why \<Rightarrow> j' = j
     | Stored n \<Rightarrow> receipts_upto (n - 1) j \<and>
         (\<forall>w. w \<in> set (key_windows key j') \<and> w_window_id w = ob_window_id obs \<longleftrightarrow>
            check_observation obs key now s = Inr (w\<lparr>w_receipt_seq := 0\<rparr>) \<and> w_receipt_seq w = n))"
proof -
  note ord = ingest_ordered(2) [OF assms(1,2)]
  from assms(2) show ?thesis
  proof (cases rule: ingest_trusted_cases)
    case (dropped why)
    with assms(1) show ?thesis by simp
  next
    case (stored n j1 w0)
    note st = usage_seq_next_ordered [OF assms(1) stored(2)] and tb = usage_seq_next_tables [OF stored(2)]
    have id: "w_window_id w0 = ob_window_id obs" and zero: "w_receipt_seq w0 = 0"
      using stored(3) by (auto simp: check_observation_def split: if_splits option.splits)
    have "map_of (j_usage j') (key, ob_window_id obs) = Some (window_row w0 n)"
      using st(3) unfolding stored(4) usage_put_trusted_def id
      by (simp add: put_newer_fresh [where n = n] receipts_upto_def window_row_def)
    moreover have "keyed (j_usage j')" using ord by (simp add: usage_ordered_def)
    ultimately have mem: "w \<in> set (key_windows key j') \<and> w_window_id w = ob_window_id obs \<longleftrightarrow>
        w = w0\<lparr>w_receipt_seq := n\<rparr>" for w
      using key_windows_mem [of j' w key] row_window_stored [OF stored(3) assms(3,4), of n] id by auto
    have "w = w0\<lparr>w_receipt_seq := n\<rparr> \<longleftrightarrow> w0 = w\<lparr>w_receipt_seq := 0\<rparr> \<and> w_receipt_seq w = n" for w
      using zero by (cases w0; cases w) auto
    moreover have "receipts_upto (n - 1) j" using st(3) tb by (simp add: receipts_upto_def)
    ultimately show ?thesis using ord mem stored(1,3) by simp
  qed
qed

theorem trusted_reading_visible_witness:
  "\<exists>j'. ingest_trusted ''key'' witness_observation 1000 default_usage (fresh_journal ''t0'') = Inr (Stored 1, j') \<and>
     usage_ordered j'"
proof -
  have "(case ingest_trusted ''key'' witness_observation 1000 default_usage (fresh_journal ''t0'') of
      Inr (Stored n, _) \<Rightarrow> n = 1 | _ \<Rightarrow> False)" by code_simp
  then obtain j' where
    j': "ingest_trusted ''key'' witness_observation 1000 default_usage (fresh_journal ''t0'') = Inr (Stored 1, j')"
    by (auto split: sum.splits ingested.splits prod.splits)
  have "\<bar>1000 + max_window_hours default_usage * 3600\<bar> < (10::int) ^ 18" by (simp add: default_usage_def)
  with j' show ?thesis using trusted_reading_visible [OF fresh_ordered j'] by auto
qed

lemma hint_within:
  assumes "min_recheck_seconds s \<le> untrusted_max_defer_minutes s * 60"
  shows "now + min_recheck_seconds s \<le> untrusted_defer_until h now s \<and>
    untrusted_defer_until h now s \<le> now + untrusted_max_defer_minutes s * 60"
  using assms by (auto simp: untrusted_defer_until_def Let_def split: option.splits hint.splits if_splits)

text \<open>What an untrusted hint can do is bounded: whatever reset a session's own report claims (or none,
  or a boolean), the deferral it causes lies between the minimum recheck and the untrusted maximum from
  now, and a reset hint is kept only inside the longest window a setting allows.\<close>

theorem untrusted_hint_bounded:
  assumes "min_recheck_seconds s \<le> untrusted_max_defer_minutes s * 60"
  shows "now + min_recheck_seconds s \<le> untrusted_defer_until h now s \<and>
    untrusted_defer_until h now s \<le> now + untrusted_max_defer_minutes s * 60 \<and>
    (\<forall>k. kept_reset h now s = Some k \<longrightarrow> h = Some (HInt k) \<and> now < k \<and> k \<le> clamp_bound now s)"
  using hint_within [OF assms, of now h]
  by (auto simp: kept_reset_def clamp_bound_def Let_def split: option.splits hint.splits if_splits)

theorem untrusted_hint_bounded_witness:
  "1060 \<le> untrusted_defer_until (Some (HInt 999999)) 1000 default_usage \<and>
   untrusted_defer_until (Some (HInt 999999)) 1000 default_usage \<le> 4600"
  using untrusted_hint_bounded [of default_usage 1000 "Some (HInt 999999)"] by (simp add: default_usage_def)

end
