(* ===== verification/Utf8.thy ===== *)
theory Utf8
  imports Prelude
begin

text \<open>
  UTF-8 as the program uses it: \<^verbatim>\<open>str.encode\<close> with the strict and the \<^verbatim>\<open>replace\<close> error handler
  and \<^verbatim>\<open>bytes.decode\<close> with \<^verbatim>\<open>ignore\<close>. A Python string is its list of code points, which may
  hold lone surrogates. The lemmas show that cutting an encoded string at any byte and decoding it
  leniently gives the longest prefix of characters that fits.
\<close>

section \<open>Encoding\<close>

definition is_surrogate :: "nat \<Rightarrow> bool" where
  "is_surrogate c \<longleftrightarrow> 0xD800 \<le> c \<and> c \<le> 0xDFFF"

definition utf8_char :: "nat \<Rightarrow> nat list" where
  "utf8_char c =
     (if c < 0x80 then [c]
      else if c < 0x800 then [0xC0 + c div 64, 0x80 + c mod 64]
      else if c < 0x10000 then [0xE0 + c div 4096, 0x80 + c div 64 mod 64, 0x80 + c mod 64]
      else [0xF0 + c div 262144, 0x80 + c div 4096 mod 64, 0x80 + c div 64 mod 64, 0x80 + c mod 64])"

text \<open>Strict encoding fails on a lone surrogate.\<close>

definition utf8_encode :: "utext \<Rightarrow> nat list option" where
  "utf8_encode s = (if list_ex is_surrogate s then None else Some (concat (map utf8_char s)))"

definition replace_surrogate :: "nat \<Rightarrow> nat" where
  "replace_surrogate c = (if is_surrogate c then 63 else c)"

definition utf8_encode_replace :: "utext \<Rightarrow> nat list" where
  "utf8_encode_replace s = concat (map (utf8_char \<circ> replace_surrogate) s)"

section \<open>Lenient decoding\<close>

definition is_cont :: "nat \<Rightarrow> bool" where
  "is_cont b \<longleftrightarrow> 0x80 \<le> b \<and> b < 0xC0"

text \<open>The well-formed sequence that starts with byte \<open>a\<close>: its character and how many of the following
  bytes it takes.\<close>

definition utf8_next :: "nat \<Rightarrow> nat list \<Rightarrow> (nat \<times> nat) option" where
  "utf8_next a bs =
     (if a < 0x80 then Some (a, 0)
      else if 0xC2 \<le> a \<and> a < 0xE0 \<and> 1 \<le> length bs \<and> is_cont (bs ! 0)
      then Some ((a - 0xC0) * 64 + (bs ! 0 - 0x80), 1)
      else if 0xE0 \<le> a \<and> a < 0xF0 \<and> 2 \<le> length bs \<and> is_cont (bs ! 0) \<and> is_cont (bs ! 1)
      then (let v = (a - 0xE0) * 4096 + (bs ! 0 - 0x80) * 64 + (bs ! 1 - 0x80) in
            if 0x800 \<le> v \<and> \<not> is_surrogate v then Some (v, 2) else None)
      else if 0xF0 \<le> a \<and> 3 \<le> length bs \<and> is_cont (bs ! 0) \<and> is_cont (bs ! 1) \<and> is_cont (bs ! 2)
      then (let v = (a - 0xF0) * 262144 + (bs ! 0 - 0x80) * 4096 + (bs ! 1 - 0x80) * 64 + (bs ! 2 - 0x80) in
            if 0x10000 \<le> v \<and> v < 0x110000 then Some (v, 3) else None)
      else None)"

text \<open>A byte that starts no well-formed sequence is skipped.\<close>

fun utf8_decode_ignore :: "nat list \<Rightarrow> utext" where
  "utf8_decode_ignore [] = []"
| "utf8_decode_ignore (a # bs) =
     (case utf8_next a bs of
        None \<Rightarrow> utf8_decode_ignore bs
      | Some (c, n) \<Rightarrow> c # utf8_decode_ignore (drop n bs))"

section \<open>Round trips\<close>

definition code_point :: "nat \<Rightarrow> bool" where
  "code_point c \<longleftrightarrow> c < 0x110000"

lemma decode_seq:
  "2 \<le> x \<Longrightarrow> x < 32 \<Longrightarrow> y < 64 \<Longrightarrow>
     utf8_decode_ignore ((192 + x) # (128 + y) # rest) = (x * 64 + y) # utf8_decode_ignore rest"
  "x < 16 \<Longrightarrow> y < 64 \<Longrightarrow> z < 64 \<Longrightarrow> 2048 \<le> x * 4096 + y * 64 + z \<Longrightarrow>
     \<not> is_surrogate (x * 4096 + y * 64 + z) \<Longrightarrow>
     utf8_decode_ignore ((224 + x) # (128 + y) # (128 + z) # rest) = (x * 4096 + y * 64 + z) # utf8_decode_ignore rest"
  "y < 64 \<Longrightarrow> z < 64 \<Longrightarrow> w < 64 \<Longrightarrow> 65536 \<le> x * 262144 + y * 4096 + z * 64 + w \<Longrightarrow>
     x * 262144 + y * 4096 + z * 64 + w < 1114112 \<Longrightarrow>
     utf8_decode_ignore ((240 + x) # (128 + y) # (128 + z) # (128 + w) # rest)
       = (x * 262144 + y * 4096 + z * 64 + w) # utf8_decode_ignore rest"
  by (simp_all add: utf8_next_def is_cont_def)

lemma decode_cut:
  "utf8_decode_ignore [128 + x] = []"
  "y < 64 \<Longrightarrow> utf8_decode_ignore [224 + x, 128 + y] = []"
  "y < 64 \<Longrightarrow> z < 64 \<Longrightarrow> utf8_decode_ignore [240 + x, 128 + y, 128 + z] = []"
  by (simp_all add: utf8_next_def is_cont_def)

lemma digits64:
  fixes c :: nat
  shows "c div 64 * 64 + c mod 64 = c"
    and "c div 4096 * 4096 + c div 64 mod 64 * 64 + c mod 64 = c"
    and "c div 262144 * 262144 + c div 4096 mod 64 * 4096 + c div 64 mod 64 * 64 + c mod 64 = c"
proof -
  have d: "c div 4096 = c div 64 div 64" "c div 262144 = c div 64 div 64 div 64"
    by (simp_all add: div_mult2_eq [symmetric])
  have s: "n div 64 * 64 + n mod 64 = n" for n :: nat by simp
  show "c div 64 * 64 + c mod 64 = c" by simp
  show "c div 4096 * 4096 + c div 64 mod 64 * 64 + c mod 64 = c"
    using s [of c] s [of "c div 64"] unfolding d by linarith
  show "c div 262144 * 262144 + c div 4096 mod 64 * 4096 + c div 64 mod 64 * 64 + c mod 64 = c"
    using s [of c] s [of "c div 64"] s [of "c div 64 div 64"] unfolding d by linarith
qed

text \<open>The four lengths of a character's encoding.\<close>

lemma utf8_char_cases:
  obtains "c < 128" "utf8_char c = [c]"
  | x y where "x = c div 64" "y = c mod 64" "128 \<le> c" "c < 2048" "utf8_char c = [192 + x, 128 + y]"
  | x y z where "x = c div 4096" "y = c div 64 mod 64" "z = c mod 64" "2048 \<le> c" "c < 65536"
      "utf8_char c = [224 + x, 128 + y, 128 + z]"
  | x y z w where "x = c div 262144" "y = c div 4096 mod 64" "z = c div 64 mod 64" "w = c mod 64" "65536 \<le> c"
      "utf8_char c = [240 + x, 128 + y, 128 + z, 128 + w]"
  by (cases "c < 128"; cases "c < 2048"; cases "c < 65536") (auto simp: utf8_char_def)

lemma decode_char:
  assumes "code_point c" and "\<not> is_surrogate c"
  shows "utf8_decode_ignore (utf8_char c @ rest) = c # utf8_decode_ignore rest"
proof (cases c rule: utf8_char_cases)
  case (2 x y)
  then have "2 \<le> x" "x < 32" "y < 64" "x * 64 + y = c" using digits64(1) [of c] by auto
  with 2(5) show ?thesis using decode_seq(1) [of x y rest] by simp
next
  case (3 x y z)
  then have "x < 16" "y < 64" "z < 64" "x * 4096 + y * 64 + z = c" using digits64(2) [of c] by auto
  with 3(4,6) assms(2) show ?thesis using decode_seq(2) [of x y z rest] by simp
next
  case (4 x y z w)
  then have "y < 64" "z < 64" "w < 64" "x * 262144 + y * 4096 + z * 64 + w = c" using digits64(3) [of c] by auto
  with 4(5,6) assms(1) show ?thesis using decode_seq(3) [of y z w x rest] by (simp add: code_point_def)
qed (simp add: utf8_next_def)

lemma decode_cut_char:
  assumes "n < length (utf8_char c)"
  shows "utf8_decode_ignore (take n (utf8_char c)) = []"
proof (cases c rule: utf8_char_cases)
  case (2 x y)
  with assms have "n = 0 \<or> n = 1" by auto
  with 2 show ?thesis using decode_cut(1) [of "64 + x"] by auto
next
  case (3 x y z)
  with assms have "n = 0 \<or> n = 1 \<or> n = 2" by auto
  moreover have "y < 64" using 3 by simp
  ultimately show ?thesis using 3(6) decode_cut(1) [of "96 + x"] decode_cut(2) [of y x] by (auto simp: numeral_2_eq_2)
next
  case (4 x y z w)
  with assms have "n = 0 \<or> n = 1 \<or> n = 2 \<or> n = 3" by auto
  moreover have "y < 64" "z < 64" using 4 by simp_all
  ultimately show ?thesis
    using 4(6) decode_cut(1) [of "112 + x"] decode_cut(2) [of y "16 + x"] decode_cut(3) [of y z x]
    by (auto simp: numeral_2_eq_2 numeral_3_eq_3)
qed (use assms in simp)


section \<open>Cutting an encoded string\<close>

text \<open>The characters that fit whole into \<open>n\<close> bytes.\<close>

fun fitting :: "nat \<Rightarrow> utext \<Rightarrow> utext" where
  "fitting n [] = []"
| "fitting n (c # cs) =
     (if length (utf8_char c) \<le> n then c # fitting (n - length (utf8_char c)) cs else [])"

abbreviation well_formed :: "utext \<Rightarrow> bool" where
  "well_formed s \<equiv> list_all code_point s"

abbreviation encodable :: "utext \<Rightarrow> bool" where
  "encodable s \<equiv> list_all (\<lambda>c. code_point c \<and> \<not> is_surrogate c) s"

lemma replace_surrogate_ok: "code_point c \<Longrightarrow> code_point (replace_surrogate c) \<and> \<not> is_surrogate (replace_surrogate c)"
  by (auto simp: replace_surrogate_def code_point_def is_surrogate_def)

lemma encodable_replace: "well_formed s \<Longrightarrow> encodable (map replace_surrogate s)"
  using replace_surrogate_ok by (auto simp: list_all_iff)

lemma replace_id: "encodable s \<Longrightarrow> map replace_surrogate s = s"
  by (induction s) (auto simp: replace_surrogate_def)

lemma encode_replace_map: "utf8_encode_replace s = concat (map utf8_char (map replace_surrogate s))"
  by (simp add: utf8_encode_replace_def)

lemma decode_take:
  "encodable s \<Longrightarrow> utf8_decode_ignore (take n (concat (map utf8_char s))) = fitting n s"
proof (induction s arbitrary: n)
  case (Cons c s)
  show ?case
  proof (cases "length (utf8_char c) \<le> n")
    case True
    with Cons show ?thesis by (simp add: decode_char)
  next
    case False
    then show ?thesis using decode_cut_char [of n c] by simp
  qed
qed simp

lemma encodable_fitting: "encodable s \<Longrightarrow> encodable (fitting n s)"
  by (induction n s rule: fitting.induct) auto

lemma length_fitting: "length (concat (map utf8_char (fitting n s))) \<le> n"
  by (induction n s rule: fitting.induct) auto

lemma utf8_char_pos: "0 < length (utf8_char c)"
  by (simp add: utf8_char_def)

lemma length_le_bytes: "length s \<le> length (concat (map utf8_char s))"
proof (induction s)
  case (Cons c s)
  then show ?case using utf8_char_pos [of c] by (cases "utf8_char c") auto
qed simp

lemma fitting_all: "length (concat (map utf8_char s)) \<le> n \<Longrightarrow> fitting n s = s"
  by (induction n s rule: fitting.induct) auto


section \<open>What the lenient decoder returns\<close>

lemma utf8_next_char:
  assumes "utf8_next a bs = Some (c, n)"
  shows "code_point c" and "\<not> is_surrogate c" and "length (utf8_char c) = Suc n" and "n \<le> length bs"
proof -
  consider "a < 128" "c = a" "n = 0" | "c < 2048" "128 \<le> c" "n = 1" "1 \<le> length bs"
    | "2048 \<le> c" "c < 65536" "\<not> is_surrogate c" "n = 2" "2 \<le> length bs"
    | "65536 \<le> c" "c < 1114112" "n = 3" "3 \<le> length bs"
    using assms by (auto simp: utf8_next_def is_cont_def Let_def split: if_splits)
  then have "code_point c \<and> \<not> is_surrogate c \<and> length (utf8_char c) = Suc n \<and> n \<le> length bs"
    by cases (auto simp: code_point_def is_surrogate_def utf8_char_def)
  then show "code_point c" "\<not> is_surrogate c" "length (utf8_char c) = Suc n" "n \<le> length bs"
    by blast+
qed

lemma decode_encodable: "encodable (utf8_decode_ignore bs)"
proof (induction bs rule: utf8_decode_ignore.induct)
  case (2 a bs)
  then show ?case using utf8_next_char [of a bs] by (auto split: option.splits)
qed simp

lemma decode_bytes: "length (concat (map utf8_char (utf8_decode_ignore bs))) \<le> length bs"
proof (induction bs rule: utf8_decode_ignore.induct)
  case (2 a bs)
  show ?case
  proof (cases "utf8_next a bs")
    case None
    with 2(1) show ?thesis by simp
  next
    case (Some cn)
    then obtain c n where cn: "utf8_next a bs = Some (c, n)" by (cases cn) auto
    with 2(2) [OF cn] show ?thesis using utf8_next_char(3,4) [OF cn] by simp
  qed
qed simp

lemma decode_encoded: "encodable s \<Longrightarrow> utf8_decode_ignore (concat (map utf8_char s)) = s"
  using decode_take [of s "length (concat (map utf8_char s))"] fitting_all [of s "length (concat (map utf8_char s))"]
  by simp

end
