(* ===== verification/Json.thy ===== *)
theory Json
  imports Decimal Utf8
begin

text \<open>
  \<^verbatim>\<open>json.dumps(value, sort_keys=True, separators=(",", ":"), ensure_ascii=True)\<close>: the canonical
  text that identities are hashed from. Strings are lists of code points, the result is ASCII.
\<close>

datatype json = JNull | JBool bool | JInt int | JStr utext | JList "json list" | JObj "(utext \<times> json) list"

definition lit :: "string \<Rightarrow> utext" where
  "lit s = map of_char s"

definition hex_digit :: "nat \<Rightarrow> nat" where
  "hex_digit d = (if d < 10 then 48 + d else 87 + d)"

definition hex4 :: "nat \<Rightarrow> utext" where
  "hex4 n = map hex_digit [n div 4096 mod 16, n div 256 mod 16, n div 16 mod 16, n mod 16]"

text \<open>Everything but printable ASCII is escaped, beyond the BMP as a surrogate pair.\<close>

definition json_char :: "nat \<Rightarrow> utext" where
  "json_char c =
     (if c = 34 \<or> c = 92 then [92, c]
      else if 32 \<le> c \<and> c \<le> 126 then [c]
      else if c = 10 then lit (CHR 92 # ''n'')
      else if c = 13 then lit (CHR 92 # ''r'')
      else if c = 9 then lit (CHR 92 # ''t'')
      else if c = 12 then lit (CHR 92 # ''f'')
      else if c = 8 then lit (CHR 92 # ''b'')
      else if c < 65536 then lit (CHR 92 # ''u'') @ hex4 c
      else lit (CHR 92 # ''u'') @ hex4 (0xD800 + (c - 65536) div 1024) @
           lit (CHR 92 # ''u'') @ hex4 (0xDC00 + (c - 65536) mod 1024))"

definition json_string :: "utext \<Rightarrow> utext" where
  "json_string s = 34 # concat (map json_char s) @ [34]"

fun join_with :: "nat \<Rightarrow> utext list \<Rightarrow> utext" where
  "join_with c [] = []"
| "join_with c [x] = x"
| "join_with c (x # y # xs) = x @ c # join_with c (y # xs)"

fun json_dumps :: "json \<Rightarrow> utext" where
  "json_dumps JNull = lit ''null''"
| "json_dumps (JBool b) = lit (if b then ''true'' else ''false'')"
| "json_dumps (JInt i) = lit (show_int i)"
| "json_dumps (JStr s) = json_string s"
| "json_dumps (JList xs) = 91 # join_with 44 (map json_dumps xs) @ [93]"
| "json_dumps (JObj kvs) =
     123 # join_with 44 (map (\<lambda>(k, d). json_string k @ 58 # d)
             (sort_key fst (map (\<lambda>(k, v). (k, json_dumps v)) kvs))) @ [125]"

end
