(* ===== verification/Delivery.thy ===== *)
theory Delivery
  imports Json Floats
begin

text \<open>
  The pure delivery policy (\<^verbatim>\<open>delivery.py\<close>): identities of copies and their parts, and the
  reducer of one part's attempts (reserve, mark dispatch, prove unissued, mark uncertain, accept a
  receipt, cancel, supersede). A \<^verbatim>\<open>Literal\<close> type is a datatype, so the checks that a value is
  one of the literals have no counterpart. A dataclass that validates in \<^verbatim>\<open>__post_init__\<close> has a
  \<open>..._check\<close> that returns the error it raises; \<^verbatim>\<open>dataclasses.replace\<close> runs it again.
  SHA-256 is the parameter \<open>sha\<close>: from bytes to the lowercase hex digest.
\<close>

section \<open>Errors and field checks\<close>

datatype policy_code =
  SourceUnavailable | SourceChanged | TrustUnavailable | TrustDenied | ClockUnready | Contention
  | Capacity | ParentIncomplete | SourceClosed | Exhausted | RecoveryRequired
  | InvalidShape | BindingConflict | UnsupportedPolicy | Integrity

text \<open>An integer clock too large for a float raises \<^verbatim>\<open>OverflowError\<close> in \<^verbatim>\<open>math.isfinite\<close>.\<close>

datatype delivery_error = PolicyError policy_code | OverflowError

definition refused :: "policy_code \<Rightarrow> bool" where
  "refused c \<longleftrightarrow> c \<in> {InvalidShape, BindingConflict, UnsupportedPolicy, Integrity}"

abbreviation require :: "bool \<Rightarrow> policy_code \<Rightarrow> delivery_error + unit" where
  "require b c \<equiv> guard_result b (PolicyError c)"

text \<open>Running checks in order; the first that fails is the error.\<close>

fun checks :: "(delivery_error + unit) list \<Rightarrow> delivery_error + unit" where
  "checks [] = Inr ()"
| "checks (r # rs) = bind_result r (\<lambda>_. checks rs)"

definition text_ok :: "utext \<Rightarrow> bool" where
  "text_ok v \<longleftrightarrow> v \<noteq> [] \<and> length v \<le> 4096 \<and> utf8_encode v \<noteq> None"

definition text_check :: "utext \<Rightarrow> delivery_error + unit" where
  "text_check v = require (text_ok v) InvalidShape"

definition hex_char :: "nat \<Rightarrow> bool" where
  "hex_char c \<longleftrightarrow> (48 \<le> c \<and> c \<le> 57) \<or> (97 \<le> c \<and> c \<le> 102)"

definition is_hex :: "nat \<Rightarrow> utext \<Rightarrow> bool" where
  "is_hex n v \<longleftrightarrow> length v = n \<and> list_all hex_char v"

definition hex_check :: "utext \<Rightarrow> nat \<Rightarrow> delivery_error + unit" where
  "hex_check v n = require (is_hex n v) InvalidShape"

datatype clock = ClkBool bool | ClkInt int | ClkFloat py_float | ClkOther

text \<open>The integers that round to a finite double.\<close>

definition float_range :: int where
  "float_range = 2 ^ 1024 - 2 ^ 970"

definition clock_check :: "clock \<Rightarrow> delivery_error + unit" where
  "clock_check t =
     (case t of
        ClkInt i \<Rightarrow> if \<bar>i\<bar> < float_range then Inr () else Inl OverflowError
      | ClkFloat (Finite q) \<Rightarrow> Inr ()
      | _ \<Rightarrow> Inl (PolicyError ClockUnready))"

fun clock_value :: "clock \<Rightarrow> rat" where
  "clock_value (ClkInt i) = of_int i"
| "clock_value (ClkFloat (Finite q)) = q"
| "clock_value _ = 0"

text \<open>\<^verbatim>\<open>eligible_at + delay\<close>: exact on integers, rounded on floats.\<close>

fun clock_plus :: "clock \<Rightarrow> int \<Rightarrow> rat" where
  "clock_plus (ClkInt i) d = of_int (i + d)"
| "clock_plus (ClkFloat (Finite q)) d = round_double (q + of_int d)"
| "clock_plus _ d = 0"

section \<open>Identities\<close>

datatype SourceKind = Question | Approval | Task | Digest
datatype delivery_reason = RInitial | RUpdate | RMirror | RReminder | RDigest | RRecovery | RJoin | RReissue
datatype delivery_profile = CanonicalV1 | DisplayV1

definition kind_text :: "SourceKind \<Rightarrow> utext" where
  "kind_text k = lit (case k of Question \<Rightarrow> ''question'' | Approval \<Rightarrow> ''approval'' | Task \<Rightarrow> ''task'' | Digest \<Rightarrow> ''digest'')"

definition reason_text :: "delivery_reason \<Rightarrow> utext" where
  "reason_text r = lit (case r of RInitial \<Rightarrow> ''initial'' | RUpdate \<Rightarrow> ''update'' | RMirror \<Rightarrow> ''mirror''
     | RReminder \<Rightarrow> ''reminder'' | RDigest \<Rightarrow> ''digest'' | RRecovery \<Rightarrow> ''recovery'' | RJoin \<Rightarrow> ''join'' | RReissue \<Rightarrow> ''reissue'')"

definition profile_text :: "delivery_profile \<Rightarrow> utext" where
  "profile_text p = lit (case p of CanonicalV1 \<Rightarrow> ''canonical-v1'' | DisplayV1 \<Rightarrow> ''display-v1'')"

record source =
  s_producer :: utext
  s_kind :: SourceKind
  s_canonical_id :: utext
  s_logical_id :: utext
  s_revision :: utext

definition source_check :: "source \<Rightarrow> delivery_error + unit" where
  "source_check s = checks (map text_check [s_producer s, s_canonical_id s, s_logical_id s, s_revision s])"

record destination =
  ds_agent :: utext
  ds_workstream :: utext
  ds_queue :: utext
  ds_repository :: utext
  ds_epoch :: utext
  ds_account :: utext
  ds_group :: utext

definition destination_check :: "destination \<Rightarrow> delivery_error + unit" where
  "destination_check d =
     checks (map text_check [ds_agent d, ds_workstream d, ds_queue d, ds_repository d, ds_epoch d]
       @ [hex_check (ds_account d) 64,
          require (2 \<le> length (ds_group d) \<and> length (ds_group d) \<le> 512 \<and> even (length (ds_group d))) InvalidShape,
          hex_check (ds_group d) (length (ds_group d))])"

text \<open>The strings \<^verbatim>\<open>date.fromisoformat\<close> accepts and \<^verbatim>\<open>isoformat\<close> prints back unchanged.\<close>

definition digit2 :: "nat \<Rightarrow> nat \<Rightarrow> nat" where
  "digit2 a b = (a - 48) * 10 + (b - 48)"

definition days_in :: "nat \<Rightarrow> nat \<Rightarrow> nat" where
  "days_in y m =
     (if m = 2 then (if y mod 4 = 0 \<and> (y mod 100 \<noteq> 0 \<or> y mod 400 = 0) then 29 else 28)
      else if m \<in> {4, 6, 9, 11} then 30 else 31)"

definition iso_date :: "utext \<Rightarrow> bool" where
  "iso_date v \<longleftrightarrow>
     (case v of
        [a, b, c, d, e, f, g, h, i, k] \<Rightarrow>
          list_all (\<lambda>x. 48 \<le> x \<and> x \<le> 57) [a, b, c, d, f, g, i, k] \<and> e = 45 \<and> h = 45 \<and>
          (let y = digit2 a b * 100 + digit2 c d; m = digit2 f g; n = digit2 i k in
           1 \<le> y \<and> 1 \<le> m \<and> m \<le> 12 \<and> 1 \<le> n \<and> n \<le> days_in y m)
      | _ \<Rightarrow> False)"

record copy_request =
  cr_source :: source
  cr_destination :: destination
  cr_reason :: delivery_reason
  cr_occurrence :: utext
  cr_renderer :: utext
  cr_redactor :: utext
  cr_config :: utext

definition request_check :: "copy_request \<Rightarrow> delivery_error + unit" where
  "request_check r =
     checks (map text_check [cr_occurrence r, cr_renderer r, cr_redactor r, cr_config r]
       @ [require (cr_reason r \<in> {RInitial, RUpdate, RMirror} \<longrightarrow> cr_occurrence r = s_revision (cr_source r)) BindingConflict,
          require (cr_reason r = RReminder \<longrightarrow> cr_occurrence r = s_logical_id (cr_source r)) BindingConflict,
          (if cr_reason r \<in> {RJoin, RReissue} then hex_check (cr_occurrence r) 64 else Inr ()),
          require (cr_reason r = RDigest \<longrightarrow> iso_date (cr_occurrence r)) InvalidShape,
          require (cr_reason r \<noteq> RRecovery) UnsupportedPolicy])"

definition source_json :: "source \<Rightarrow> json" where
  "source_json s = JObj [(lit ''producer'', JStr (s_producer s)), (lit ''kind'', JStr (kind_text (s_kind s))),
     (lit ''canonical_id'', JStr (s_canonical_id s)), (lit ''logical_id'', JStr (s_logical_id s)),
     (lit ''revision'', JStr (s_revision s))]"

definition destination_json :: "destination \<Rightarrow> json" where
  "destination_json d = JObj [(lit ''agent'', JStr (ds_agent d)), (lit ''workstream'', JStr (ds_workstream d)),
     (lit ''queue'', JStr (ds_queue d)), (lit ''repository'', JStr (ds_repository d)),
     (lit ''epoch'', JStr (ds_epoch d)), (lit ''account'', JStr (ds_account d)), (lit ''group'', JStr (ds_group d))]"

definition request_fields :: "copy_request \<Rightarrow> (utext \<times> json) list" where
  "request_fields r = [(lit ''source'', source_json (cr_source r)),
     (lit ''destination'', destination_json (cr_destination r)), (lit ''reason'', JStr (reason_text (cr_reason r))),
     (lit ''occurrence'', JStr (cr_occurrence r)), (lit ''renderer'', JStr (cr_renderer r)),
     (lit ''redactor'', JStr (cr_redactor r)), (lit ''config'', JStr (cr_config r))]"

type_synonym hash = "nat list \<Rightarrow> utext"

definition digest :: "hash \<Rightarrow> json \<Rightarrow> utext" where
  "digest sha v = sha (json_dumps v)"

definition request_key :: "hash \<Rightarrow> copy_request \<Rightarrow> utext" where
  "request_key sha r = digest sha (JObj ((lit ''version'', JInt 1) # request_fields r))"

definition reminder_key :: "hash \<Rightarrow> copy_request \<Rightarrow> delivery_error + utext" where
  "reminder_key sha r =
     (if cr_reason r \<noteq> RReminder then Inl (PolicyError UnsupportedPolicy)
      else Inr (digest sha (JList [JStr (lit ''reminder-v1''), JStr (s_producer (cr_source r)),
        JStr (kind_text (s_kind (cr_source r))), JStr (s_logical_id (cr_source r))])))"

record reminder_budget =
  rb_logical_key :: utext
  rb_consumed :: bool

definition budget_check :: "reminder_budget \<Rightarrow> delivery_error + unit" where
  "budget_check b = hex_check (rb_logical_key b) 64"

definition consume_reminder :: "hash \<Rightarrow> reminder_budget \<Rightarrow> copy_request \<Rightarrow> delivery_error + reminder_budget" where
  "consume_reminder sha b r =
     bind_result (reminder_key sha r) (\<lambda>k.
       if k \<noteq> rb_logical_key b then Inl (PolicyError BindingConflict)
       else if rb_consumed b then Inl (PolicyError Capacity)
       else bind_result (budget_check (b\<lparr>rb_consumed := True\<rparr>)) (\<lambda>_. Inr (b\<lparr>rb_consumed := True\<rparr>)))"

section \<open>Routes and copies\<close>

datatype route_kind = Ask | Askr | Askd

definition route_text :: "route_kind \<Rightarrow> utext" where
  "route_text k = lit (case k of Ask \<Rightarrow> ''ask'' | Askr \<Rightarrow> ''askr'' | Askd \<Rightarrow> ''askd'')"

record canonical_route =
  ro_kind :: route_kind
  ro_ask_id :: utext
  ro_request_id :: utext

text \<open>\<^verbatim>\<open>[2-9a-hjkmnp-z]\<close>.\<close>

definition ask_char :: "nat \<Rightarrow> bool" where
  "ask_char c \<longleftrightarrow> (50 \<le> c \<and> c \<le> 57) \<or> (97 \<le> c \<and> c \<le> 104) \<or> c = 106 \<or> c = 107 \<or> c = 109 \<or> c = 110 \<or>
     (112 \<le> c \<and> c \<le> 122)"

definition route_check :: "canonical_route \<Rightarrow> delivery_error + unit" where
  "route_check r =
     checks [require (length (ro_ask_id r) = 4 \<and> list_all ask_char (ro_ask_id r)) InvalidShape,
       (if ro_kind r \<in> {Askr, Askd} then hex_check (ro_request_id r) 64
        else require (ro_request_id r = []) InvalidShape)]"

definition route_validate :: "canonical_route \<Rightarrow> copy_request \<Rightarrow> delivery_error + unit" where
  "route_validate r q =
     checks [require (s_kind (cr_source q) \<in> {Question, Approval}) BindingConflict,
       require (ro_ask_id r = s_canonical_id (cr_source q)) BindingConflict,
       require (if ro_kind r = Ask then cr_reason q \<in> {RInitial, RUpdate}
                else cr_reason q \<in> {RJoin, RReissue} \<and> ro_request_id r = cr_occurrence q) BindingConflict]"

definition route_key :: "canonical_route \<Rightarrow> int \<Rightarrow> utext" where
  "route_key r i =
     route_text (ro_kind r) @ lit '':'' @ ro_ask_id r
     @ (if ro_request_id r = [] then [] else lit '':'' @ ro_request_id r) @ lit '':'' @ lit (show_int i)"

record frozen_copy =
  fc_request :: copy_request
  fc_copy_id :: utext
  fc_profile :: delivery_profile
  fc_parts :: "utext list"
  fc_chunk_chars :: int
  fc_frame_bytes :: int
  fc_route :: "canonical_route option"
  fc_token_override :: "utext option"

definition source_token :: "hash \<Rightarrow> frozen_copy \<Rightarrow> utext" where
  "source_token sha c =
     (case fc_token_override c of None \<Rightarrow> digest sha (source_json (cr_source (fc_request c))) | Some t \<Rightarrow> t)"

definition part_size :: "frozen_copy \<Rightarrow> utext \<Rightarrow> delivery_error + nat" where
  "part_size c p =
     (if p = [] \<or> int (length p) > fc_chunk_chars c then Inl (PolicyError InvalidShape)
      else case utf8_encode p of
             None \<Rightarrow> Inl (PolicyError InvalidShape)
           | Some raw \<Rightarrow>
               if int (length raw) > fc_frame_bytes c \<or> (fc_profile c = CanonicalV1 \<and> length raw > 16 * 1024)
               then Inl (PolicyError InvalidShape) else Inr (length raw))"

fun part_sizes :: "frozen_copy \<Rightarrow> utext list \<Rightarrow> delivery_error + nat list" where
  "part_sizes c [] = Inr []"
| "part_sizes c (p # ps) = bind_result (part_size c p) (\<lambda>n. bind_result (part_sizes c ps) (\<lambda>ns. Inr (n # ns)))"

definition part_limit :: "delivery_profile \<Rightarrow> nat" where
  "part_limit p = (if p = CanonicalV1 then 1024 else 20)"

definition byte_limit :: "delivery_profile \<Rightarrow> nat" where
  "byte_limit p = (if p = CanonicalV1 then 512 * 1024 else 64 * 1024)"

definition copy_check :: "hash \<Rightarrow> frozen_copy \<Rightarrow> delivery_error + unit" where
  "copy_check sha c =
     checks [hex_check (fc_copy_id c) 32, text_check (source_token sha c),
       require (0 < fc_chunk_chars c \<and> 0 < fc_frame_bytes c) InvalidShape,
       require (1 \<le> length (fc_parts c) \<and> length (fc_parts c) \<le> part_limit (fc_profile c)) InvalidShape,
       bind_result (part_sizes c (fc_parts c)) (\<lambda>ns. require (sum_list ns \<le> byte_limit (fc_profile c)) InvalidShape),
       require (fc_route c \<noteq> None \<longrightarrow> fc_profile c = CanonicalV1) BindingConflict,
       (case fc_route c of None \<Rightarrow> Inr () | Some r \<Rightarrow> route_validate r (fc_request c))]"

definition route_json :: "canonical_route \<Rightarrow> json" where
  "route_json r = JObj [(lit ''kind'', JStr (route_text (ro_kind r))), (lit ''ask_id'', JStr (ro_ask_id r)),
     (lit ''request_id'', JStr (ro_request_id r))]"

definition parts_hash :: "hash \<Rightarrow> frozen_copy \<Rightarrow> utext" where
  "parts_hash sha c = digest sha (JList (map JStr (fc_parts c)))"

definition copy_digest :: "hash \<Rightarrow> frozen_copy \<Rightarrow> utext" where
  "copy_digest sha c = digest sha (JObj [(lit ''request'', JObj (request_fields (fc_request c))),
     (lit ''copy_id'', JStr (fc_copy_id c)), (lit ''parts_hash'', JStr (parts_hash sha c)),
     (lit ''profile'', JStr (profile_text (fc_profile c))), (lit ''source_token'', JStr (source_token sha c)),
     (lit ''chunk_chars'', JInt (fc_chunk_chars c)), (lit ''frame_bytes'', JInt (fc_frame_bytes c)),
     (lit ''route'', (case fc_route c of None \<Rightarrow> JNull | Some r \<Rightarrow> route_json r))])"

definition raw_native_key :: "hash \<Rightarrow> frozen_copy \<Rightarrow> int \<Rightarrow> utext" where
  "raw_native_key sha c i =
     (case fc_route c of
        Some r \<Rightarrow> route_key r i
      | None \<Rightarrow> lit ''d6c:'' @ take 48 (digest sha (JObj [(lit ''version'', JInt 1),
          (lit ''request'', JObj (request_fields (fc_request c))), (lit ''copy'', JStr (fc_copy_id c)),
          (lit ''parts_hash'', JStr (parts_hash sha c)), (lit ''profile'', JStr (profile_text (fc_profile c))),
          (lit ''part'', JInt i)])))"

definition native_key :: "hash \<Rightarrow> frozen_copy \<Rightarrow> int \<Rightarrow> delivery_error + utext" where
  "native_key sha c i =
     (if 0 \<le> i \<and> i < int (length (fc_parts c)) then Inr (raw_native_key sha c i) else Inl (PolicyError InvalidShape))"

text \<open>A checked part always encodes.\<close>

definition text_hash :: "hash \<Rightarrow> frozen_copy \<Rightarrow> int \<Rightarrow> utext" where
  "text_hash sha c i = sha (concat (map utf8_char (fc_parts c ! nat i)))"

definition check_duplicate :: "hash \<Rightarrow> frozen_copy \<Rightarrow> frozen_copy \<Rightarrow> delivery_error + unit" where
  "check_duplicate sha existing candidate =
     (let c = candidate\<lparr>fc_copy_id := fc_copy_id existing\<rparr> in
      bind_result (copy_check sha c) (\<lambda>_. require (c = existing) Integrity))"

definition native_keys :: "hash \<Rightarrow> frozen_copy \<Rightarrow> utext list" where
  "native_keys sha c = map (\<lambda>i. raw_native_key sha c (int i)) [0..<length (fc_parts c)]"

definition check_native_collision :: "hash \<Rightarrow> frozen_copy \<Rightarrow> frozen_copy \<Rightarrow> delivery_error + unit" where
  "check_native_collision sha existing candidate =
     (if list_ex (\<lambda>k. k \<in> set (native_keys sha existing)) (native_keys sha candidate)
      then check_duplicate sha existing candidate else Inr ())"

end
