(* ===== verification/Delivery_Attempts.thy ===== *)
theory Delivery_Attempts
  imports Delivery
begin

text \<open>
  One part's attempts (\<^verbatim>\<open>delivery.py\<close>): the retained history with its validation, and the
  operations that propose the next state. Values the code tests at run time are kept as such: a
  receipt may be any object, and its ids may be no tuple or hold no strings.
\<close>

section \<open>Data\<close>

datatype Phase = Reserved | DispatchMarked | Confirmed | ProvenUnissued | Uncertain
datatype ProofKind = PrewriteRefusal | ReservedNoDispatch
datatype Uncertainty = WriteStarted | ResponseLost | InvalidReceipt | RecoveredDispatchMark

record attempt_identity =
  ai_owner :: utext
  ai_copy_id :: utext
  ai_part_index :: int
  ai_ordinal :: int

definition identity_check :: "attempt_identity \<Rightarrow> delivery_error + unit" where
  "identity_check i =
     checks [text_check (ai_owner i), hex_check (ai_copy_id i) 32,
       require (0 \<le> ai_part_index i \<and> ai_part_index i < 1024) InvalidShape,
       require (1 \<le> ai_ordinal i \<and> ai_ordinal i \<le> 3) InvalidShape]"

record attempt_binding =
  ab_reply_target :: "utext option"
  ab_source_token :: utext
  ab_registration_epoch :: utext
  ab_copy_digest :: utext

definition binding_check :: "attempt_binding \<Rightarrow> delivery_error + unit" where
  "binding_check b =
     checks [(case ab_reply_target b of None \<Rightarrow> Inr () | Some t \<Rightarrow> hex_check t 64),
       text_check (ab_source_token b), text_check (ab_registration_epoch b), hex_check (ab_copy_digest b) 64]"

record non_dispatch_proof =
  nd_identity :: attempt_identity
  nd_kind :: ProofKind
  nd_write_not_invoked :: bool
  nd_binding :: "attempt_binding option"

text \<open>\<open>IdOther\<close> and \<open>NotTuple\<close> stand for objects that are no string and no tuple.\<close>

datatype id_value = IdStr utext | IdOther nat
datatype ids_value = IdTuple "id_value list" | NotTuple nat

record delivery_receipt =
  dr_identity :: attempt_identity
  dr_account :: utext
  dr_group :: utext
  dr_native_key :: utext
  dr_text_hash :: utext
  dr_message_ids :: ids_value
  dr_binding :: "attempt_binding option"

datatype receipt_object = IsReceipt delivery_receipt | NotReceipt

record receipt_claim =
  cl_message_id :: utext
  cl_owner :: utext
  cl_copy_id :: utext
  cl_part_index :: int
  cl_ordinal :: "int option"

record attempt =
  at_identity :: attempt_identity
  at_phase :: Phase
  at_message_id :: "utext option"
  at_proof :: "ProofKind option"
  at_uncertainty :: "Uncertainty option"
  at_raw_ids :: "utext list"
  at_binding :: attempt_binding
  at_uncertainties :: "Uncertainty list"
  at_proof_fact :: "non_dispatch_proof option"
  at_accepted_receipt :: "delivery_receipt option"
  at_dispatch_marked :: bool
  at_contradicted :: bool

section \<open>Bounded receipt ids\<close>

text \<open>\<^verbatim>\<open>raw = value[:remaining].encode("utf-8", errors="replace")[:remaining]\<close>.\<close>

definition raw_prefix :: "nat \<Rightarrow> utext \<Rightarrow> nat list" where
  "raw_prefix remaining v = take remaining (utf8_encode_replace (take remaining v))"

fun bounded_from :: "nat \<Rightarrow> id_value list \<Rightarrow> utext list" where
  "bounded_from remaining [] = []"
| "bounded_from remaining (IdOther n # vs) = []"
| "bounded_from remaining (IdStr v # vs) =
     (let raw = raw_prefix remaining v in
      utf8_decode_ignore raw #
        (if remaining - length raw = 0 then [] else bounded_from (remaining - length raw) vs))"

definition bounded_ids :: "ids_value \<Rightarrow> utext list" where
  "bounded_ids ids = (case ids of NotTuple n \<Rightarrow> [] | IdTuple vs \<Rightarrow> bounded_from (16 * 1024) (take 64 vs))"

abbreviation str_ids :: "utext list \<Rightarrow> ids_value" where
  "str_ids xs \<equiv> IdTuple (map IdStr xs)"

section \<open>Validation of an attempt\<close>

definition validate_dispatch_mark :: "attempt \<Rightarrow> delivery_error + unit" where
  "validate_dispatch_mark a =
     checks [require (at_phase a \<in> {DispatchMarked, Confirmed, Uncertain} \<longrightarrow> at_dispatch_marked a) Integrity,
       require (\<not> (at_phase a = Reserved \<and> at_dispatch_marked a)) Integrity]"

definition proof_fact_ok :: "attempt \<Rightarrow> ProofKind \<Rightarrow> bool" where
  "proof_fact_ok a k \<longleftrightarrow>
     (case at_proof_fact a of
        None \<Rightarrow> False
      | Some f \<Rightarrow>
          nd_identity f = at_identity a \<and> nd_kind f = k \<and>
          (nd_binding f = None \<or> nd_binding f = Some (at_binding a)) \<and>
          (at_dispatch_marked a \<longrightarrow>
             nd_kind f = PrewriteRefusal \<and> nd_write_not_invoked f \<and> nd_binding f = Some (at_binding a)))"

definition receipt_fact_ok :: "attempt \<Rightarrow> bool" where
  "receipt_fact_ok a \<longleftrightarrow>
     (case at_accepted_receipt a of
        None \<Rightarrow> False
      | Some r \<Rightarrow>
          dr_identity r = at_identity a \<and> dr_binding r = Some (at_binding a) \<and>
          (case at_message_id a of None \<Rightarrow> False | Some m \<Rightarrow> dr_message_ids r = IdTuple [IdStr m]))"

definition validate_settlement :: "attempt \<Rightarrow> delivery_error + unit" where
  "validate_settlement a =
     checks [(case at_proof a of
                Some k \<Rightarrow> require (proof_fact_ok a k) Integrity
              | None \<Rightarrow> require (at_proof_fact a = None) Integrity),
       (if at_phase a = Confirmed then require (receipt_fact_ok a) Integrity
        else require (at_accepted_receipt a = None) Integrity)]"

definition validate_diagnosis :: "attempt \<Rightarrow> delivery_error + unit" where
  "validate_diagnosis a =
     checks [require (length (at_uncertainties a) \<le> 4 \<and> distinct (at_uncertainties a)) InvalidShape,
       require (at_phase a = Uncertain \<longrightarrow> (\<exists>u. at_uncertainty a = Some u \<and> u \<in> set (at_uncertainties a))) Integrity,
       require (at_contradicted a \<longrightarrow> InvalidReceipt \<in> set (at_uncertainties a)) Integrity,
       require (\<not> (at_phase a \<in> {Reserved, DispatchMarked, ProvenUnissued} \<and> at_uncertainties a \<noteq> []
                  \<and> \<not> at_contradicted a)) Integrity,
       require (bounded_ids (str_ids (at_raw_ids a)) = at_raw_ids a) InvalidShape]"

definition validate_attempt :: "attempt \<Rightarrow> delivery_error + unit" where
  "validate_attempt a =
     checks [validate_dispatch_mark a,
       (if at_phase a = Confirmed
        then (case at_message_id a of None \<Rightarrow> Inl (PolicyError InvalidShape) | Some m \<Rightarrow> hex_check m 64)
        else require (at_message_id a = None) Integrity),
       require ((at_proof a \<noteq> None) = (at_phase a = ProvenUnissued)) Integrity,
       validate_settlement a,
       require ((at_uncertainty a \<noteq> None) = (at_phase a = Uncertain)) Integrity,
       validate_diagnosis a]"

section \<open>The state of a part\<close>

record part_state =
  ps_copy :: frozen_copy
  ps_owner :: utext
  ps_index :: int
  ps_eligible_at :: clock
  ps_history :: "attempt list"
  ps_cancelled :: bool
  ps_superseded :: bool
  ps_reply_target :: "utext option"

definition raw_binding :: "hash \<Rightarrow> part_state \<Rightarrow> attempt_binding" where
  "raw_binding sha st = \<lparr>ab_reply_target = ps_reply_target st, ab_source_token = source_token sha (ps_copy st),
     ab_registration_epoch = ds_epoch (cr_destination (fc_request (ps_copy st))),
     ab_copy_digest = copy_digest sha (ps_copy st)\<rparr>"

definition part_binding :: "hash \<Rightarrow> part_state \<Rightarrow> delivery_error + attempt_binding" where
  "part_binding sha st = bind_result (binding_check (raw_binding sha st)) (\<lambda>_. Inr (raw_binding sha st))"

definition expected_identity :: "part_state \<Rightarrow> nat \<Rightarrow> attempt_identity" where
  "expected_identity st n = \<lparr>ai_owner = ps_owner st, ai_copy_id = fc_copy_id (ps_copy st),
     ai_part_index = ps_index st, ai_ordinal = int n\<rparr>"

text \<open>The loop over \<^verbatim>\<open>enumerate(self.history, 1)\<close>; \<open>len\<close> is the length of the whole history.\<close>

fun history_check :: "hash \<Rightarrow> part_state \<Rightarrow> nat \<Rightarrow> nat \<Rightarrow> attempt list \<Rightarrow> delivery_error + unit" where
  "history_check sha st len n [] = Inr ()"
| "history_check sha st len n (a # as) =
     bind_result (identity_check (expected_identity st n)) (\<lambda>_.
       if at_identity a \<noteq> expected_identity st n then Inl (PolicyError BindingConflict)
       else bind_result (part_binding sha st) (\<lambda>b.
         if at_binding a \<noteq> b then Inl (PolicyError BindingConflict)
         else if n < len \<and> at_phase a \<noteq> ProvenUnissued then Inl (PolicyError Integrity)
         else bind_result (validate_attempt a) (\<lambda>_. history_check sha st len (Suc n) as)))"

definition part_check :: "hash \<Rightarrow> part_state \<Rightarrow> delivery_error + unit" where
  "part_check sha st =
     checks [text_check (ps_owner st),
       bind_result (native_key sha (ps_copy st) (ps_index st)) (\<lambda>_. Inr ()),
       clock_check (ps_eligible_at st),
       require (length (ps_history st) \<le> 3) InvalidShape,
       history_check sha st (length (ps_history st)) 1 (ps_history st),
       require (\<not> (ps_cancelled st \<and> ps_history st \<noteq> [] \<and> at_phase (last (ps_history st)) \<noteq> ProvenUnissued)) Integrity]"

text \<open>\<^verbatim>\<open>replace(state, ...)\<close>: the new value, checked.\<close>

definition replaced :: "hash \<Rightarrow> part_state \<Rightarrow> delivery_error + part_state" where
  "replaced sha st = bind_result (part_check sha st) (\<lambda>_. Inr st)"

definition current_attempt :: "part_state \<Rightarrow> delivery_error + attempt" where
  "current_attempt st = (if ps_history st = [] then Inl (PolicyError Contention) else Inr (last (ps_history st)))"

definition update_last :: "hash \<Rightarrow> part_state \<Rightarrow> attempt \<Rightarrow> delivery_error + part_state" where
  "update_last sha st a = replaced sha (st\<lparr>ps_history := butlast (ps_history st) @ [a]\<rparr>)"

section \<open>Operations\<close>

record gates =
  g_source_current :: bool
  g_trust_current :: bool
  g_parent_confirmed :: bool
  g_binding :: "attempt_binding option"
  g_parent :: "part_state option"

definition effect_policy :: "part_state \<Rightarrow> delivery_error + unit" where
  "effect_policy st =
     checks [require (cr_reason (fc_request (ps_copy st)) \<noteq> RReminder) UnsupportedPolicy,
       require (\<not> list_ex at_contradicted (ps_history st)) RecoveryRequired]"

definition parent_matches :: "part_state \<Rightarrow> part_state option \<Rightarrow> bool" where
  "parent_matches st parent \<longleftrightarrow>
     (case parent of
        None \<Rightarrow> False
      | Some p \<Rightarrow>
          ps_index p = 0 \<and> ps_copy p = ps_copy st \<and> ps_owner p = ps_owner st \<and> \<not> ps_cancelled p \<and>
          \<not> ps_superseded p \<and> ps_history p \<noteq> [] \<and> at_phase (last (ps_history p)) = Confirmed \<and>
          \<not> list_ex at_contradicted (ps_history p) \<and> ps_reply_target st = at_message_id (last (ps_history p)))"

definition validate_gate_binding :: "hash \<Rightarrow> part_state \<Rightarrow> attempt_binding option \<Rightarrow> delivery_error + unit" where
  "validate_gate_binding sha st b =
     (case b of
        None \<Rightarrow> Inl (PolicyError SourceUnavailable)
      | Some g \<Rightarrow>
          bind_result (part_binding sha st) (\<lambda>own.
            checks [require (ab_source_token g = ab_source_token own) SourceChanged,
              require (ab_registration_epoch g = ab_registration_epoch own) TrustDenied,
              require (ab_reply_target g = ab_reply_target own) ParentIncomplete,
              require (ab_copy_digest g = ab_copy_digest own) BindingConflict]))"

definition retry_delay :: "nat \<Rightarrow> int" where
  "retry_delay ordinal = [0, 5, 30] ! (ordinal - 1)"

definition new_attempt :: "attempt_identity \<Rightarrow> attempt_binding \<Rightarrow> attempt" where
  "new_attempt i b = \<lparr>at_identity = i, at_phase = Reserved, at_message_id = None, at_proof = None,
     at_uncertainty = None, at_raw_ids = [], at_binding = b, at_uncertainties = [], at_proof_fact = None,
     at_accepted_receipt = None, at_dispatch_marked = False, at_contradicted = False\<rparr>"

definition reserve :: "hash \<Rightarrow> part_state \<Rightarrow> clock \<Rightarrow> gates \<Rightarrow> delivery_error + part_state" where
  "reserve sha st now g =
     (let ordinal = length (ps_history st) + 1 in
      bind_result (checks [clock_check now, effect_policy st,
        require (\<not> (ps_cancelled st \<or> ps_superseded st)) SourceClosed,
        require (g_source_current g) SourceChanged,
        require (g_trust_current g) TrustDenied,
        require (g_parent_confirmed g \<and> \<not> (ps_index st > 0 \<and> \<not> parent_matches st (g_parent g))) ParentIncomplete,
        require (\<not> (ps_history st \<noteq> [] \<and> at_phase (last (ps_history st)) \<noteq> ProvenUnissued)) Contention,
        require (ordinal \<le> 3) Exhausted]) (\<lambda>_.
      bind_result (checks [require (\<not> clock_value now < clock_plus (ps_eligible_at st) (retry_delay ordinal)) Contention,
        validate_gate_binding sha st (g_binding g),
        identity_check (expected_identity st ordinal)]) (\<lambda>_.
      bind_result (part_binding sha st) (\<lambda>b.
        replaced sha (st\<lparr>ps_history := ps_history st @ [new_attempt (expected_identity st ordinal) b]\<rparr>)))))"

definition mark_dispatch :: "hash \<Rightarrow> part_state \<Rightarrow> delivery_error + part_state" where
  "mark_dispatch sha st =
     bind_result (effect_policy st) (\<lambda>_.
       if ps_cancelled st \<or> ps_superseded st then Inl (PolicyError Contention)
       else bind_result (current_attempt st) (\<lambda>a.
         if at_phase a \<noteq> Reserved then Inl (PolicyError Contention)
         else update_last sha st (a\<lparr>at_phase := DispatchMarked, at_dispatch_marked := True\<rparr>)))"

definition prove_unissued :: "hash \<Rightarrow> part_state \<Rightarrow> non_dispatch_proof \<Rightarrow> delivery_error + part_state" where
  "prove_unissued sha st p =
     bind_result (current_attempt st) (\<lambda>a.
       let same = nd_identity p = at_identity a;
           reserved = at_phase a = Reserved;
           prewrite = at_phase a = DispatchMarked \<and> nd_kind p = PrewriteRefusal \<and> nd_write_not_invoked p
                      \<and> nd_binding p = Some (at_binding a)
       in if \<not> same \<or> \<not> (reserved \<or> prewrite) then Inl (PolicyError BindingConflict)
          else update_last sha st (a\<lparr>at_phase := ProvenUnissued, at_proof := Some (nd_kind p), at_proof_fact := Some p\<rparr>))"

definition mark_uncertain :: "hash \<Rightarrow> part_state \<Rightarrow> Uncertainty \<Rightarrow> delivery_error + part_state" where
  "mark_uncertain sha st u =
     bind_result (current_attempt st) (\<lambda>a.
       if at_phase a \<notin> {DispatchMarked, Uncertain} then Inl (PolicyError Contention)
       else update_last sha st (a\<lparr>at_phase := Uncertain, at_uncertainty := Some u,
              at_uncertainties := dict_fromkeys (at_uncertainties a @ [u])\<rparr>))"

text \<open>\<^verbatim>\<open>state.native_key\<close> and \<^verbatim>\<open>state.text_hash\<close> of a constructed state, whose index is in range.\<close>

definition correlated :: "hash \<Rightarrow> part_state \<Rightarrow> attempt \<Rightarrow> delivery_receipt \<Rightarrow> bool" where
  "correlated sha st a r \<longleftrightarrow>
     dr_identity r = at_identity a \<and>
     dr_account r = ds_account (cr_destination (fc_request (ps_copy st))) \<and>
     dr_group r = ds_group (cr_destination (fc_request (ps_copy st))) \<and>
     dr_native_key r = raw_native_key sha (ps_copy st) (ps_index st) \<and>
     dr_text_hash r = text_hash sha (ps_copy st) (ps_index st) \<and>
     dr_binding r = Some (at_binding a)"

definition receipt_matches :: "hash \<Rightarrow> part_state \<Rightarrow> attempt \<Rightarrow> delivery_receipt \<Rightarrow> receipt_claim list \<Rightarrow> bool" where
  "receipt_matches sha st a r claims \<longleftrightarrow>
     correlated sha st a r \<and>
     (case dr_message_ids r of
        IdTuple [IdStr m] \<Rightarrow>
          is_hex 64 m \<and>
          list_all (\<lambda>c. cl_message_id c = m \<longrightarrow>
            c = \<lparr>cl_message_id = m, cl_owner = ps_owner st, cl_copy_id = fc_copy_id (ps_copy st),
                 cl_part_index = ps_index st, cl_ordinal = Some (ai_ordinal (at_identity a))\<rparr>) claims
      | _ \<Rightarrow> False)"

definition joined_ids :: "attempt \<Rightarrow> delivery_receipt \<Rightarrow> utext list" where
  "joined_ids a r = bounded_ids (str_ids (at_raw_ids a @ bounded_ids (dr_message_ids r)))"

definition diagnose :: "attempt \<Rightarrow> delivery_receipt \<Rightarrow> attempt" where
  "diagnose a r = a\<lparr>at_raw_ids := joined_ids a r,
     at_uncertainties := dict_fromkeys (at_uncertainties a @ [InvalidReceipt]), at_contradicted := True\<rparr>"

text \<open>The first retained attempt the receipt speaks about, if it is settled.\<close>

fun retained_index :: "hash \<Rightarrow> part_state \<Rightarrow> delivery_receipt \<Rightarrow> nat \<Rightarrow> attempt list \<Rightarrow> nat option" where
  "retained_index sha st r n [] = None"
| "retained_index sha st r n (a # as) =
     (if correlated sha st a r \<and> at_phase a \<in> {Confirmed, ProvenUnissued} then Some n
      else retained_index sha st r (Suc n) as)"

definition retained_receipt ::
    "hash \<Rightarrow> part_state \<Rightarrow> receipt_object \<Rightarrow> receipt_claim list \<Rightarrow> delivery_error + part_state option" where
  "retained_receipt sha st ro claims =
     (case ro of
        NotReceipt \<Rightarrow> Inr None
      | IsReceipt r \<Rightarrow>
          (case retained_index sha st r 0 (ps_history st) of
             None \<Rightarrow> Inr None
           | Some i \<Rightarrow>
               let a = ps_history st ! i in
               if at_phase a = Confirmed \<and> at_accepted_receipt a = Some r \<and> receipt_matches sha st a r claims
               then Inr (Some st)
               else bind_result (replaced sha (st\<lparr>ps_history := (ps_history st)[i := diagnose a r]\<rparr>)) (\<lambda>s. Inr (Some s))))"

definition single_id :: "delivery_receipt \<Rightarrow> utext option" where
  "single_id r = (case dr_message_ids r of IdTuple (IdStr m # _) \<Rightarrow> Some m | _ \<Rightarrow> None)"

definition settled :: "attempt \<Rightarrow> delivery_receipt \<Rightarrow> bool \<Rightarrow> utext list \<Rightarrow> attempt" where
  "settled a r valid raw = a\<lparr>
     at_phase := (if valid then Confirmed else Uncertain),
     at_message_id := (if valid then single_id r else None),
     at_uncertainty := (if valid then None else Some InvalidReceipt),
     at_raw_ids := raw,
     at_uncertainties := (if valid then at_uncertainties a else dict_fromkeys (at_uncertainties a @ [InvalidReceipt])),
     at_accepted_receipt := (if valid then Some r else None)\<rparr>"

definition accept_receipt ::
    "hash \<Rightarrow> part_state \<Rightarrow> receipt_object \<Rightarrow> receipt_claim list \<Rightarrow> delivery_error + part_state" where
  "accept_receipt sha st ro claims =
     bind_result (current_attempt st) (\<lambda>a.
     bind_result (retained_receipt sha st ro claims) (\<lambda>kept.
       case kept of
         Some s \<Rightarrow> Inr s
       | None \<Rightarrow>
           if at_phase a \<notin> {DispatchMarked, Uncertain} then Inl (PolicyError Contention)
           else (case ro of
             NotReceipt \<Rightarrow> mark_uncertain sha st InvalidReceipt
           | IsReceipt r \<Rightarrow>
               let valid = receipt_matches sha st a r claims in
               update_last sha st (settled a r valid
                 (if correlated sha st a r then joined_ids a r else at_raw_ids a)))))"

definition cancel :: "hash \<Rightarrow> part_state \<Rightarrow> delivery_error + part_state" where
  "cancel sha st =
     (if list_ex at_contradicted (ps_history st) then Inl (PolicyError RecoveryRequired)
      else if ps_history st \<noteq> [] \<and> at_phase (last (ps_history st)) \<noteq> ProvenUnissued
      then Inl (PolicyError RecoveryRequired)
      else replaced sha (st\<lparr>ps_cancelled := True\<rparr>))"

definition supersede :: "hash \<Rightarrow> part_state \<Rightarrow> delivery_error + part_state" where
  "supersede sha st = replaced sha (st\<lparr>ps_superseded := True\<rparr>)"

section \<open>Status\<close>

datatype delivery_status = StPrepared | StReserved | StConfirmed | StProvenUnissued | StCancelled
  | StSuperseded | StSupersededUncertainHeld | StUncertainHeld | StExhaustedHeld | StComplete | StPartialHeld

fun phase_status :: "Phase \<Rightarrow> delivery_status" where
  "phase_status Reserved = StReserved"
| "phase_status Confirmed = StConfirmed"
| "phase_status ProvenUnissued = StProvenUnissued"
| "phase_status DispatchMarked = StUncertainHeld"
| "phase_status Uncertain = StUncertainHeld"

definition open_phase :: "part_state \<Rightarrow> bool" where
  "open_phase st \<longleftrightarrow> ps_history st \<noteq> [] \<and> at_phase (last (ps_history st)) \<in> {DispatchMarked, Uncertain}"

definition part_status :: "part_state \<Rightarrow> delivery_status" where
  "part_status st =
     (if list_ex at_contradicted (ps_history st) then StUncertainHeld
      else if ps_cancelled st then StCancelled
      else if ps_superseded st then (if open_phase st then StSupersededUncertainHeld else StSuperseded)
      else if ps_history st = [] then StPrepared
      else if open_phase st then StUncertainHeld
      else if at_phase (last (ps_history st)) = ProvenUnissued \<and> length (ps_history st) = 3 then StExhaustedHeld
      else phase_status (at_phase (last (ps_history st))))"

definition confirmed_part :: "part_state \<Rightarrow> bool" where
  "confirmed_part st \<longleftrightarrow> ps_history st \<noteq> [] \<and> at_phase (last (ps_history st)) = Confirmed"

definition confirmed_ids :: "part_state list \<Rightarrow> utext option list" where
  "confirmed_ids sts = map (\<lambda>s. at_message_id (last (ps_history s))) (filter confirmed_part sts)"

definition copy_status :: "part_state list \<Rightarrow> delivery_error + delivery_status" where
  "copy_status sts =
     (case sts of
        [] \<Rightarrow> Inl (PolicyError InvalidShape)
      | first # rest \<Rightarrow>
          if length sts \<noteq> length (fc_parts (ps_copy first)) \<or> map ps_index sts \<noteq> map int [0..<length sts] \<or>
             list_ex (\<lambda>s. ps_copy s \<noteq> ps_copy first \<or> ps_owner s \<noteq> ps_owner first) sts
          then Inl (PolicyError BindingConflict)
          else let ids = confirmed_ids sts;
                   wrong_parent = list_ex (\<lambda>s. confirmed_part s \<and> \<not> parent_matches s (Some first)) rest;
                   unresolved = wrong_parent \<or> list_ex (\<lambda>s. list_ex at_contradicted (ps_history s)) sts \<or>
                     \<not> distinct ids \<or> list_ex open_phase sts
               in Inr (if list_ex ps_superseded sts
                       then (if unresolved then StSupersededUncertainHeld else StSuperseded)
                       else if unresolved then StUncertainHeld
                       else if list_all ps_cancelled sts then StCancelled
                       else if list_ex (\<lambda>s. part_status s = StExhaustedHeld) sts then StExhaustedHeld
                       else if length ids = length sts \<and> \<not> list_ex ps_cancelled sts then StComplete
                       else StPartialHeld))"

end
