(* ===== verification/Bounded_Ids.thy ===== *)
theory Bounded_Ids
  imports Delivery_Attempts
begin

text \<open>
  The bounded raw ids an attempt retains for diagnosis (\<^verbatim>\<open>delivery._bounded_ids\<close>): whatever a
  receipt carries, at most 64 strings of at most 16 KiB of UTF-8 in all are kept, and bounding what is
  already bounded changes nothing.
\<close>

abbreviation encoded :: "utext \<Rightarrow> nat list" where
  "encoded s \<equiv> concat (map utf8_char s)"

lemma raw_prefix_fits:
  assumes "encodable v" and "length (encoded v) \<le> n"
  shows "raw_prefix n v = encoded v" and "utf8_decode_ignore (raw_prefix n v) = v"
proof -
  have "length v \<le> n" using length_le_bytes [of v] assms(2) by linarith
  then show raw: "raw_prefix n v = encoded v"
    using assms by (simp add: raw_prefix_def encode_replace_map replace_id)
  show "utf8_decode_ignore (raw_prefix n v) = v"
    using decode_take [OF assms(1), of "length (encoded v)"] fitting_all [of v "length (encoded v)"]
    unfolding raw by simp
qed

lemma length_bounded_from: "length (bounded_from n vs) \<le> length vs"
  by (induction n vs rule: bounded_from.induct) (simp_all add: Let_def)

text \<open>What was kept under a bound is kept whole under the same or a larger one.\<close>

lemma bounded_from_again: "n \<le> m \<Longrightarrow> bounded_from m (map IdStr (bounded_from n vs)) = bounded_from n vs"
proof (induction n vs arbitrary: m rule: bounded_from.induct)
  case (3 n v vs)
  let ?raw = "raw_prefix n v"
  let ?w = "utf8_decode_ignore ?raw"
  have "length ?raw \<le> n" by (simp add: raw_prefix_def)
  then have fits: "length (encoded ?w) \<le> m" "n - length ?raw \<le> m - length (encoded ?w)"
    using decode_bytes [of ?raw] 3(2) by linarith+
  note raw = raw_prefix_fits [OF decode_encodable fits(1)]
  show ?case
  proof (cases "n - length ?raw = 0")
    case True
    then show ?thesis using raw by (simp add: Let_def decode_encoded decode_encodable)
  next
    case False
    with fits(2) have "m - length (encoded ?w) \<noteq> 0" by linarith
    with False 3(1) [OF refl False fits(2)] show ?thesis using raw
      by (simp add: Let_def decode_encoded decode_encodable)
  qed
qed simp_all

lemma bounded_from_bytes: "length (encoded (concat (bounded_from n vs))) \<le> n"
proof (induction n vs rule: bounded_from.induct)
  case (3 n v vs)
  have "length (raw_prefix n v) \<le> n" by (simp add: raw_prefix_def)
  with 3 show ?case using decode_bytes [of "raw_prefix n v"] by (auto simp: Let_def)
qed simp_all

lemma bounded_from_encodable: "list_all encodable (bounded_from n vs)"
  by (induction n vs rule: bounded_from.induct) (simp_all add: decode_encodable Let_def)

lemma length_bounded_ids: "length (bounded_ids ids) \<le> 64"
proof (cases ids)
  case (IdTuple vs)
  then show ?thesis using length_bounded_from [of 16384 "take 64 vs"] by (simp add: bounded_ids_def)
qed (simp add: bounded_ids_def)

lemma bounded_ids_fixed: "bounded_ids (str_ids (bounded_ids ids)) = bounded_ids ids"
proof (cases ids)
  case (IdTuple vs)
  then have "bounded_ids ids = bounded_from 16384 (take 64 vs)" by (simp add: bounded_ids_def)
  with length_bounded_ids [of ids] show ?thesis
    using bounded_from_again [of 16384 16384 "take 64 vs"] by (simp add: bounded_ids_def)
qed (simp add: bounded_ids_def)

lemma joined_ids_fixed: "bounded_ids (str_ids (joined_ids a r)) = joined_ids a r"
  unfolding joined_ids_def by (rule bounded_ids_fixed)

text \<open>Whatever ids a receipt carries (no tuple, objects that are no strings, lone surrogates, any
  length), what is retained for diagnosis is at most 64 strings that take at most 16384 bytes of UTF-8
  in all and encode without error, and bounding what is retained once more changes nothing.\<close>

theorem bounded_ids_bounded:
  "length (bounded_ids ids) \<le> 64 \<and> length (encoded (concat (bounded_ids ids))) \<le> 16 * 1024 \<and>
   list_all (\<lambda>s. utf8_encode s \<noteq> None) (bounded_ids ids) \<and>
   bounded_ids (str_ids (bounded_ids ids)) = bounded_ids ids"
proof -
  have "length (encoded (concat (bounded_ids ids))) \<le> 16 * 1024"
    using bounded_from_bytes [of 16384] by (cases ids) (simp_all add: bounded_ids_def)
  moreover have "list_all (\<lambda>s. utf8_encode s \<noteq> None) (bounded_ids ids)"
    using bounded_from_encodable [of 16384]
    by (cases ids) (auto simp: bounded_ids_def utf8_encode_def list_all_iff list_ex_iff)
  ultimately show ?thesis using length_bounded_ids bounded_ids_fixed by blast
qed

end
