(* ===== verification/Delivery_Valid.thy ===== *)
theory Delivery_Valid
  imports Bounded_Ids
begin

text \<open>
  What the delivery reducer guarantees (\<^verbatim>\<open>delivery.py\<close>): from a valid state the re-validation of
  \<^verbatim>\<open>replace\<close> never refuses a transition its guards allow; over any run no attempt follows one
  that may have been issued, a confirmation is final and correlated, and a contradiction is never
  forgotten.
\<close>

section \<open>Validity\<close>

lemma checks_iff: "checks rs = Inr () \<longleftrightarrow> list_all (\<lambda>r. r = Inr ()) rs"
  by (induction rs) (auto simp: bind_result_eq_Inr)

definition attempt_valid :: "attempt \<Rightarrow> bool" where
  "attempt_valid a \<longleftrightarrow> validate_attempt a = Inr ()"

definition part_valid :: "hash \<Rightarrow> part_state \<Rightarrow> bool" where
  "part_valid sha st \<longleftrightarrow> part_check sha st = Inr ()"

definition attempt_at :: "hash \<Rightarrow> part_state \<Rightarrow> nat \<Rightarrow> attempt \<Rightarrow> bool" where
  "attempt_at sha st n a \<longleftrightarrow> identity_check (expected_identity st n) = Inr () \<and> at_identity a = expected_identity st n \<and>
     binding_check (raw_binding sha st) = Inr () \<and> at_binding a = raw_binding sha st \<and> attempt_valid a"

lemma part_binding_iff: "part_binding sha st = Inr b \<longleftrightarrow> binding_check (raw_binding sha st) = Inr () \<and> b = raw_binding sha st"
  by (auto simp: part_binding_def bind_result_eq_Inr)

lemma history_check_iff:
  "history_check sha st len n as = Inr () \<longleftrightarrow>
     (\<forall>i < length as. attempt_at sha st (n + i) (as ! i) \<and> (n + i < len \<longrightarrow> at_phase (as ! i) = ProvenUnissued))"
proof (induction as arbitrary: n)
  case (Cons a as)
  have "history_check sha st len n (a # as) = Inr () \<longleftrightarrow>
      attempt_at sha st n a \<and> (n < len \<longrightarrow> at_phase a = ProvenUnissued) \<and>
      history_check sha st len (Suc n) as = Inr ()"
    by (auto simp: bind_result_eq_Inr part_binding_iff attempt_at_def attempt_valid_def)
  then show ?case by (simp add: Cons All_less_Suc2)
qed simp

lemma part_valid_iff:
  "part_valid sha st \<longleftrightarrow>
     text_ok (ps_owner st) \<and> 0 \<le> ps_index st \<and> ps_index st < int (length (fc_parts (ps_copy st))) \<and>
     clock_check (ps_eligible_at st) = Inr () \<and> length (ps_history st) \<le> 3 \<and>
     (\<forall>i < length (ps_history st). attempt_at sha st (Suc i) (ps_history st ! i) \<and>
        (Suc i < length (ps_history st) \<longrightarrow> at_phase (ps_history st ! i) = ProvenUnissued)) \<and>
     (ps_cancelled st \<longrightarrow> ps_history st \<noteq> [] \<longrightarrow> at_phase (last (ps_history st)) = ProvenUnissued)"
  by (auto simp: part_valid_def part_check_def checks_iff text_check_def bind_result_eq_Inr native_key_def
      history_check_iff)

lemma replaced_iff: "replaced sha st = Inr st' \<longleftrightarrow> part_valid sha st \<and> st' = st"
  by (auto simp: replaced_def part_valid_def bind_result_eq_Inr)

lemma attempt_at_cong:
  "attempt_at sha (st\<lparr>ps_history := h\<rparr>) n a = attempt_at sha st n a"
  "attempt_at sha (st\<lparr>ps_cancelled := c\<rparr>) n a = attempt_at sha st n a"
  "attempt_at sha (st\<lparr>ps_superseded := c\<rparr>) n a = attempt_at sha st n a"
  by (simp_all add: attempt_at_def expected_identity_def raw_binding_def)

text \<open>Writing an attempt in place of one with the same identity and binding keeps the state valid.\<close>

lemma valid_rewrite:
  assumes "part_valid sha st" and "i < length (ps_history st)"
    and "at_identity a = at_identity (ps_history st ! i)" and "at_binding a = at_binding (ps_history st ! i)"
    and "attempt_valid a"
    and "Suc i < length (ps_history st) \<or> ps_cancelled st \<Longrightarrow> at_phase a = at_phase (ps_history st ! i)"
  shows "part_valid sha (st\<lparr>ps_history := (ps_history st)[i := a]\<rparr>)"
proof -
  let ?h = "ps_history st"
  have old: "attempt_at sha st (Suc i) (?h ! i)" using assms(1,2) by (simp add: part_valid_iff)
  then have new: "attempt_at sha st (Suc i) a" using assms(3-5) by (simp add: attempt_at_def)
  have "attempt_at sha st (Suc k) (?h[i := a] ! k) \<and> (Suc k < length ?h \<longrightarrow> at_phase (?h[i := a] ! k) = ProvenUnissued)"
    if "k < length ?h" for k
    using assms(1,6) that new by (cases "k = i") (auto simp: part_valid_iff)
  moreover have "at_phase (last (?h[i := a])) = ProvenUnissued" if c: "ps_cancelled st"
  proof (cases "Suc i = length ?h")
    case True
    then have i: "i = length ?h - 1" "?h \<noteq> []" by auto
    then have "last (?h[i := a]) = a" "last ?h = ?h ! i" "?h \<noteq> []"
      by (simp_all add: last_list_update last_conv_nth)
    then show ?thesis using assms(1,6) c by (auto simp: part_valid_iff)
  next
    case False
    then have "i \<noteq> length ?h - 1" "?h \<noteq> []" using assms(2) by auto
    then have "last (?h[i := a]) = last ?h" "?h \<noteq> []" by (simp_all add: last_list_update)
    then show ?thesis using assms(1) c by (simp add: part_valid_iff)
  qed
  ultimately show ?thesis using assms(1) by (simp add: part_valid_iff attempt_at_cong)
qed

lemma butlast_snoc_update: "h \<noteq> [] \<Longrightarrow> butlast h @ [a] = h[length h - 1 := a]"
  by (induction h rule: rev_induct) (simp_all add: list_update_append)

lemma update_last_ok:
  assumes "part_valid sha st" and "ps_history st \<noteq> []"
    and "at_identity a = at_identity (last (ps_history st))" and "at_binding a = at_binding (last (ps_history st))"
    and "attempt_valid a" and "ps_cancelled st \<Longrightarrow> at_phase a = at_phase (last (ps_history st))"
  shows "update_last sha st a = Inr (st\<lparr>ps_history := butlast (ps_history st) @ [a]\<rparr>)"
  using valid_rewrite [OF assms(1), of "length (ps_history st) - 1" a] assms(2-)
  by (simp add: update_last_def replaced_iff butlast_snoc_update last_conv_nth)

lemma valid_attempts:
  assumes "part_valid sha st" and "a \<in> set (ps_history st)"
  shows "attempt_valid a" and "at_binding a = raw_binding sha st"
  using assms by (auto simp: part_valid_iff attempt_at_def in_set_conv_nth)

lemma valid_open_not_cancelled:
  assumes "part_valid sha st" and "ps_history st \<noteq> []" and "at_phase (last (ps_history st)) \<noteq> ProvenUnissued"
  shows "\<not> ps_cancelled st"
  using assms by (auto simp: part_valid_iff)


section \<open>What a valid attempt is\<close>

lemma attempt_valid_iff:
  "attempt_valid a \<longleftrightarrow>
     (at_phase a \<in> {DispatchMarked, Confirmed, Uncertain} \<longrightarrow> at_dispatch_marked a) \<and>
     (at_phase a = Reserved \<longrightarrow> \<not> at_dispatch_marked a) \<and>
     (if at_phase a = Confirmed then (\<exists>m. at_message_id a = Some m \<and> is_hex 64 m) else at_message_id a = None) \<and>
     (at_proof a \<noteq> None) = (at_phase a = ProvenUnissued) \<and>
     (case at_proof a of Some k \<Rightarrow> proof_fact_ok a k | None \<Rightarrow> at_proof_fact a = None) \<and>
     (if at_phase a = Confirmed then receipt_fact_ok a else at_accepted_receipt a = None) \<and>
     (at_uncertainty a \<noteq> None) = (at_phase a = Uncertain) \<and>
     length (at_uncertainties a) \<le> 4 \<and> distinct (at_uncertainties a) \<and>
     (at_phase a = Uncertain \<longrightarrow> (\<exists>u. at_uncertainty a = Some u \<and> u \<in> set (at_uncertainties a))) \<and>
     (at_contradicted a \<longrightarrow> InvalidReceipt \<in> set (at_uncertainties a)) \<and>
     (at_phase a \<in> {Reserved, DispatchMarked, ProvenUnissued} \<and> at_uncertainties a \<noteq> [] \<longrightarrow> at_contradicted a) \<and>
     bounded_ids (str_ids (at_raw_ids a)) = at_raw_ids a"
  unfolding attempt_valid_def validate_attempt_def validate_dispatch_mark_def validate_settlement_def
    validate_diagnosis_def hex_check_def
  by (cases "at_proof a"; cases "at_phase a"; cases "at_message_id a") (auto simp: checks_iff simp del: checks.simps)

lemma four_uncertainties: "distinct (us :: Uncertainty list) \<Longrightarrow> length us \<le> 4"
proof -
  assume d: "distinct us"
  have "set us \<subseteq> {WriteStarted, ResponseLost, InvalidReceipt, RecoveredDispatchMark}"
    using Uncertainty.exhaust by blast
  then have "card (set us) \<le> card {WriteStarted, ResponseLost, InvalidReceipt, RecoveredDispatchMark}"
    by (intro card_mono) simp_all
  with d show "length us \<le> 4" by (simp add: distinct_card)
qed

lemma new_attempt_valid: "attempt_valid (new_attempt i b)"
  by (simp add: attempt_valid_iff new_attempt_def bounded_ids_def)

lemma marked_valid:
  assumes "attempt_valid a" and "at_phase a = Reserved"
  shows "attempt_valid (a\<lparr>at_phase := DispatchMarked, at_dispatch_marked := True\<rparr>)"
  using assms by (auto simp: attempt_valid_iff)

lemma proven_valid:
  assumes "attempt_valid a" and "nd_identity p = at_identity a" and "nd_binding p = None \<or> nd_binding p = Some (at_binding a)"
    and "at_phase a = Reserved \<or> at_phase a = DispatchMarked \<and> nd_kind p = PrewriteRefusal \<and> nd_write_not_invoked p
           \<and> nd_binding p = Some (at_binding a)"
  shows "attempt_valid (a\<lparr>at_phase := ProvenUnissued, at_proof := Some (nd_kind p), at_proof_fact := Some p\<rparr>)"
  using assms by (auto simp: attempt_valid_iff proof_fact_ok_def)

lemma uncertain_valid:
  assumes "attempt_valid a" and "at_phase a \<in> {DispatchMarked, Uncertain}"
  shows "attempt_valid (a\<lparr>at_phase := Uncertain, at_uncertainty := Some u,
           at_uncertainties := dict_fromkeys (at_uncertainties a @ [u])\<rparr>)"
  using assms by (auto simp: attempt_valid_iff four_uncertainties)

lemma diagnose_valid:
  assumes "attempt_valid a" and "at_phase a \<in> {Confirmed, ProvenUnissued}"
  shows "attempt_valid (diagnose a r)"
  using assms joined_ids_fixed [of a r]
  by (auto simp: attempt_valid_iff diagnose_def four_uncertainties proof_fact_ok_def receipt_fact_ok_def
      split: option.splits)


lemma settled_valid:
  assumes "attempt_valid a" and "at_phase a \<in> {DispatchMarked, Uncertain}"
    and "valid \<Longrightarrow> dr_identity r = at_identity a \<and> dr_binding r = Some (at_binding a) \<and>
           (\<exists>m. dr_message_ids r = IdTuple [IdStr m] \<and> is_hex 64 m)"
    and "bounded_ids (str_ids raw) = raw"
  shows "attempt_valid (settled a r valid raw)"
proof (cases valid)
  case True
  with assms show ?thesis by (auto simp: attempt_valid_iff settled_def single_id_def receipt_fact_ok_def)
next
  case False
  with assms show ?thesis by (auto simp: attempt_valid_iff settled_def four_uncertainties)
qed

lemma receipt_matches_id:
  assumes "receipt_matches sha st a r claims"
  obtains m where "dr_message_ids r = IdTuple [IdStr m]" "is_hex 64 m"
proof (cases "dr_message_ids r")
  case (IdTuple vs)
  show ?thesis
  proof (cases vs)
    case (Cons v ws)
    with IdTuple assms that show ?thesis by (cases v; cases ws) (simp_all add: receipt_matches_def)
  qed (use IdTuple assms in \<open>simp add: receipt_matches_def\<close>)
qed (use assms in \<open>simp add: receipt_matches_def\<close>)

lemma receipt_matches_settles:
  assumes "receipt_matches sha st a r claims"
  shows "dr_identity r = at_identity a \<and> dr_binding r = Some (at_binding a) \<and>
     (\<exists>m. dr_message_ids r = IdTuple [IdStr m] \<and> is_hex 64 m)"
  using receipt_matches_id [OF assms] assms by (metis receipt_matches_def correlated_def)

lemma retained_index_Some:
  "retained_index sha st r n as = Some i \<Longrightarrow>
     n \<le> i \<and> i < n + length as \<and> correlated sha st (as ! (i - n)) r \<and> at_phase (as ! (i - n)) \<in> {Confirmed, ProvenUnissued}"
proof (induction as arbitrary: n)
  case (Cons a as)
  show ?case
  proof (cases "correlated sha st a r \<and> at_phase a \<in> {Confirmed, ProvenUnissued}")
    case False
    with Cons.prems have "retained_index sha st r (Suc n) as = Some i" by auto
    from Cons.IH [OF this] show ?thesis by (auto simp: Suc_diff_Suc [symmetric] nth_Cons')
  qed (use Cons.prems in auto)
qed simp

section \<open>Which calls succeed\<close>

lemma retained_receipt_total:
  assumes "part_valid sha st"
  shows "\<exists>k. retained_receipt sha st ro claims = Inr k"
proof (cases ro)
  case (IsReceipt r)
  show ?thesis
  proof (cases "retained_index sha st r 0 (ps_history st)")
    case (Some i)
    from retained_index_Some [OF this] have i: "i < length (ps_history st)"
      "at_phase (ps_history st ! i) \<in> {Confirmed, ProvenUnissued}" by auto
    have "attempt_valid (ps_history st ! i)" using valid_attempts(1) [OF assms] i(1) by simp
    from valid_rewrite [OF assms i(1) _ _ diagnose_valid [OF this i(2)], of r]
    have "part_valid sha (st\<lparr>ps_history := (ps_history st)[i := diagnose (ps_history st ! i) r]\<rparr>)"
      by (simp add: diagnose_def)
    with IsReceipt Some show ?thesis
      by (auto simp: retained_receipt_def Let_def replaced_def part_valid_def)
  qed (simp add: IsReceipt retained_receipt_def)
qed (simp add: retained_receipt_def)

lemma last_valid: "part_valid sha st \<Longrightarrow> ps_history st \<noteq> [] \<Longrightarrow> attempt_valid (last (ps_history st))"
  by (rule valid_attempts(1)) auto

lemma mark_uncertain_ok:
  assumes "part_valid sha st" and "ps_history st \<noteq> []"
    and "at_phase (last (ps_history st)) \<in> {DispatchMarked, Uncertain}"
  shows "\<exists>st'. mark_uncertain sha st u = Inr st'"
proof -
  have "\<not> ps_cancelled st" using valid_open_not_cancelled [OF assms(1,2)] assms(3) by auto
  then show ?thesis
    using update_last_ok [OF assms(1,2) _ _ uncertain_valid [OF last_valid [OF assms(1,2)] assms(3)]] assms(2,3)
    by (simp add: mark_uncertain_def current_attempt_def)
qed

lemma accept_receipt_ok:
  assumes "part_valid sha st" and "ps_history st \<noteq> []"
    and "at_phase (last (ps_history st)) \<in> {DispatchMarked, Uncertain}"
  shows "\<exists>st'. accept_receipt sha st ro claims = Inr st'"
proof -
  let ?a = "last (ps_history st)"
  from retained_receipt_total [OF assms(1)] obtain k where k: "retained_receipt sha st ro claims = Inr k" by blast
  have nc: "\<not> ps_cancelled st" using valid_open_not_cancelled [OF assms(1,2)] assms(3) by auto
  show ?thesis
  proof (cases k)
    case None
    show ?thesis
    proof (cases ro)
      case NotReceipt
      then show ?thesis
        using k None mark_uncertain_ok [OF assms] assms(2,3) by (auto simp: accept_receipt_def current_attempt_def)
    next
      case (IsReceipt r)
      have v: "attempt_valid ?a" by (rule last_valid [OF assms(1,2)])
      let ?raw = "if correlated sha st ?a r then joined_ids ?a r else at_raw_ids ?a"
      have "bounded_ids (str_ids ?raw) = ?raw" using v by (simp add: joined_ids_fixed attempt_valid_iff)
      with v assms(3) have "attempt_valid (settled ?a r (receipt_matches sha st ?a r claims) ?raw)"
        by (intro settled_valid receipt_matches_settles)
      then have "update_last sha st (settled ?a r (receipt_matches sha st ?a r claims) ?raw) =
          Inr (st\<lparr>ps_history := butlast (ps_history st) @ [settled ?a r (receipt_matches sha st ?a r claims) ?raw]\<rparr>)"
        using nc by (intro update_last_ok [OF assms(1,2)]) (simp_all add: settled_def)
      then show ?thesis
        using IsReceipt k None assms(2,3) by (simp add: accept_receipt_def current_attempt_def Let_def)
    qed
  qed (use k assms(2) in \<open>auto simp: accept_receipt_def current_attempt_def\<close>)
qed


lemma mark_dispatch_ok:
  assumes "part_valid sha st"
  shows "(\<exists>st'. mark_dispatch sha st = Inr st') \<longleftrightarrow>
    effect_policy st = Inr () \<and> \<not> ps_cancelled st \<and> \<not> ps_superseded st \<and> ps_history st \<noteq> [] \<and>
    at_phase (last (ps_history st)) = Reserved"
proof -
  have "\<exists>st'. update_last sha st ((last (ps_history st))\<lparr>at_phase := DispatchMarked, at_dispatch_marked := True\<rparr>) = Inr st'"
    if "ps_history st \<noteq> []" "at_phase (last (ps_history st)) = Reserved" "\<not> ps_cancelled st"
    using update_last_ok [OF assms that(1) _ _ marked_valid [OF last_valid [OF assms that(1)] that(2)]] that(3) by simp
  then show ?thesis
    by (auto simp: mark_dispatch_def current_attempt_def bind_result_eq_Inr split: if_splits)
qed

lemma prove_unissued_ok:
  assumes "part_valid sha st"
  shows "(\<exists>st'. prove_unissued sha st p = Inr st') \<longleftrightarrow>
    ps_history st \<noteq> [] \<and>
    (let a = last (ps_history st) in nd_identity p = at_identity a \<and> (nd_binding p = None \<or> nd_binding p = Some (at_binding a)) \<and>
       (at_phase a = Reserved \<or> at_phase a = DispatchMarked \<and> nd_kind p = PrewriteRefusal \<and> nd_write_not_invoked p \<and>
          nd_binding p = Some (at_binding a)))"
  (is "?L \<longleftrightarrow> ?R")
proof
  assume ?R
  let ?a = "last (ps_history st)"
  from \<open>?R\<close> have ne: "ps_history st \<noteq> []" and p: "nd_identity p = at_identity ?a"
    "nd_binding p = None \<or> nd_binding p = Some (at_binding ?a)"
    "at_phase ?a = Reserved \<or> at_phase ?a = DispatchMarked \<and> nd_kind p = PrewriteRefusal \<and> nd_write_not_invoked p
       \<and> nd_binding p = Some (at_binding ?a)" by (auto simp: Let_def)
  have "at_phase ?a \<noteq> ProvenUnissued" using p(3) by auto
  with valid_open_not_cancelled [OF assms ne] have "\<not> ps_cancelled st" by blast
  with update_last_ok [OF assms ne _ _ proven_valid [OF last_valid [OF assms ne] p]] ne p
  show ?L by (auto simp: prove_unissued_def current_attempt_def Let_def)
next
  assume ?L
  then obtain st' where st': "prove_unissued sha st p = Inr st'" by blast
  let ?a = "last (ps_history st)"
  let ?b = "?a\<lparr>at_phase := ProvenUnissued, at_proof := Some (nd_kind p), at_proof_fact := Some p\<rparr>"
  from st' have ne: "ps_history st \<noteq> []" and g: "nd_identity p = at_identity ?a"
    "at_phase ?a = Reserved \<or> at_phase ?a = DispatchMarked \<and> nd_kind p = PrewriteRefusal \<and> nd_write_not_invoked p
       \<and> nd_binding p = Some (at_binding ?a)"
    and v: "part_valid sha (st\<lparr>ps_history := butlast (ps_history st) @ [?b]\<rparr>)"
    by (auto simp: prove_unissued_def current_attempt_def bind_result_eq_Inr Let_def update_last_def replaced_iff
        split: if_splits)
  from valid_attempts(1) [OF v, of ?b] have "proof_fact_ok ?b (nd_kind p)" by (simp add: attempt_valid_iff)
  then have "nd_binding p = None \<or> nd_binding p = Some (at_binding ?a)" by (simp add: proof_fact_ok_def)
  with ne g show ?R by (simp add: Let_def)
qed

lemma cancel_ok:
  assumes "part_valid sha st"
  shows "(\<exists>st'. cancel sha st = Inr st') \<longleftrightarrow>
    \<not> list_ex at_contradicted (ps_history st) \<and>
    (ps_history st = [] \<or> at_phase (last (ps_history st)) = ProvenUnissued)"
  using assms by (auto simp: cancel_def replaced_iff part_valid_iff attempt_at_cong)

lemma supersede_ok: "part_valid sha st \<Longrightarrow> supersede sha st = Inr (st\<lparr>ps_superseded := True\<rparr>)"
  by (simp add: supersede_def replaced_iff part_valid_iff attempt_at_cong)

lemma accept_receipt_iff:
  assumes "part_valid sha st"
  shows "(\<exists>st'. accept_receipt sha st ro claims = Inr st') \<longleftrightarrow>
    ps_history st \<noteq> [] \<and> (at_phase (last (ps_history st)) \<in> {DispatchMarked, Uncertain} \<or>
      (\<exists>r i. ro = IsReceipt r \<and> retained_index sha st r 0 (ps_history st) = Some i))"
proof -
  from retained_receipt_total [OF assms] obtain k where k: "retained_receipt sha st ro claims = Inr k" by blast
  have "k \<noteq> None \<longleftrightarrow> (\<exists>r i. ro = IsReceipt r \<and> retained_index sha st r 0 (ps_history st) = Some i)"
    using k by (auto simp: retained_receipt_def Let_def bind_result_eq_Inr split: receipt_object.splits option.splits if_splits)
  then show ?thesis
    using accept_receipt_ok [OF assms, of ro claims] k
    by (cases k; cases "ps_history st = []") (auto simp: accept_receipt_def current_attempt_def)
qed

lemma mark_uncertain_iff:
  assumes "part_valid sha st"
  shows "(\<exists>st'. mark_uncertain sha st u = Inr st') \<longleftrightarrow>
    ps_history st \<noteq> [] \<and> at_phase (last (ps_history st)) \<in> {DispatchMarked, Uncertain}"
  using mark_uncertain_ok [OF assms, of u]
  by (auto simp: mark_uncertain_def current_attempt_def bind_result_eq_Inr split: if_splits)


text \<open>What holds of every constructed part: its copy and destination were checked, its reply target is a
  message id, and the hash returns 64 hex digits.\<close>

definition well_made :: "hash \<Rightarrow> part_state \<Rightarrow> bool" where
  "well_made sha st \<longleftrightarrow> copy_check sha (ps_copy st) = Inr () \<and>
     destination_check (cr_destination (fc_request (ps_copy st))) = Inr () \<and>
     (\<forall>t. ps_reply_target st = Some t \<longrightarrow> is_hex 64 t) \<and> (\<forall>x. is_hex 64 (sha x))"

lemma well_made_checks:
  assumes "part_valid sha st" and "well_made sha st" and "1 \<le> n" and "n \<le> 3"
  shows "identity_check (expected_identity st n) = Inr ()" and "binding_check (raw_binding sha st) = Inr ()"
proof -
  have c: "is_hex 32 (fc_copy_id (ps_copy st))" "length (fc_parts (ps_copy st)) \<le> 1024"
    "text_ok (source_token sha (ps_copy st))"
    using assms(2) by (auto simp: well_made_def copy_check_def checks_iff hex_check_def text_check_def part_limit_def
        simp del: checks.simps split: if_splits)
  have "text_ok (ds_epoch (cr_destination (fc_request (ps_copy st))))"
    using assms(2) by (simp add: well_made_def destination_check_def checks_iff text_check_def del: checks.simps)
  moreover have "is_hex 64 (copy_digest sha (ps_copy st))" using assms(2) by (simp add: well_made_def copy_digest_def digest_def)
  ultimately show "binding_check (raw_binding sha st) = Inr ()"
    using c(3) assms(2) by (auto simp: binding_check_def raw_binding_def checks_iff hex_check_def text_check_def well_made_def
        simp del: checks.simps split: option.splits)
  show "identity_check (expected_identity st n) = Inr ()"
    using assms(1,3,4) c(1,2)
    by (auto simp: identity_check_def expected_identity_def checks_iff hex_check_def text_check_def part_valid_iff simp del: checks.simps)
qed

definition reserve_guards :: "hash \<Rightarrow> part_state \<Rightarrow> clock \<Rightarrow> gates \<Rightarrow> bool" where
  "reserve_guards sha st now g \<longleftrightarrow> clock_check now = Inr () \<and> effect_policy st = Inr () \<and>
     \<not> ps_cancelled st \<and> \<not> ps_superseded st \<and> g_source_current g \<and> g_trust_current g \<and> g_parent_confirmed g \<and>
     (0 < ps_index st \<longrightarrow> parent_matches st (g_parent g)) \<and>
     (ps_history st = [] \<or> at_phase (last (ps_history st)) = ProvenUnissued) \<and> length (ps_history st) < 3 \<and>
     clock_plus (ps_eligible_at st) (retry_delay (length (ps_history st) + 1)) \<le> clock_value now \<and>
     g_binding g = Some (raw_binding sha st)"

lemma valid_append:
  assumes "part_valid sha st" and "length (ps_history st) < 3" and "\<not> ps_cancelled st"
    and "ps_history st = [] \<or> at_phase (last (ps_history st)) = ProvenUnissued"
    and "identity_check (expected_identity st (length (ps_history st) + 1)) = Inr ()"
    and "binding_check (raw_binding sha st) = Inr ()"
  shows "part_valid sha (st\<lparr>ps_history := ps_history st @
    [new_attempt (expected_identity st (length (ps_history st) + 1)) (raw_binding sha st)]\<rparr>)"
proof -
  let ?h = "ps_history st"
  let ?a = "new_attempt (expected_identity st (length ?h + 1)) (raw_binding sha st)"
  have "attempt_at sha st (Suc i) ((?h @ [?a]) ! i) \<and> (Suc i < Suc (length ?h) \<longrightarrow> at_phase ((?h @ [?a]) ! i) = ProvenUnissued)"
    if "i < Suc (length ?h)" for i
  proof (cases "i < length ?h")
    case True
    then have at: "attempt_at sha st (Suc i) (?h ! i)" "Suc i < length ?h \<Longrightarrow> at_phase (?h ! i) = ProvenUnissued"
      using assms(1) by (simp_all add: part_valid_iff)
    have "at_phase (?h ! i) = ProvenUnissued"
    proof (cases "Suc i = length ?h")
      case True
      then have "?h \<noteq> []" "i = length ?h - 1" by auto
      with assms(4) show ?thesis by (simp add: last_conv_nth)
    qed (use at(2) \<open>i < length ?h\<close> in simp)
    with at True show ?thesis by (simp add: nth_append)
  next
    case False
    with that have "i = length ?h" by simp
    then show ?thesis using assms(5,6) by (simp add: attempt_at_def new_attempt_valid) (simp add: new_attempt_def)
  qed
  then show ?thesis using assms(1-3) by (simp add: part_valid_iff attempt_at_cong)
qed

lemma gate_binding_iff:
  "validate_gate_binding sha st b = Inr () \<longleftrightarrow> binding_check (raw_binding sha st) = Inr () \<and> b = Some (raw_binding sha st)"
  by (cases b) (auto simp: validate_gate_binding_def bind_result_eq_Inr part_binding_iff checks_iff simp del: checks.simps)

lemma reserve_iff:
  assumes "part_valid sha st" and "well_made sha st"
  shows "reserve sha st now g = Inr st' \<longleftrightarrow> reserve_guards sha st now g \<and>
    st' = st\<lparr>ps_history := ps_history st @ [new_attempt (expected_identity st (length (ps_history st) + 1)) (raw_binding sha st)]\<rparr>"
proof -
  let ?n = "length (ps_history st) + 1"
  have "reserve sha st now g = Inr st' \<longleftrightarrow> reserve_guards sha st now g \<and>
      identity_check (expected_identity st ?n) = Inr () \<and> binding_check (raw_binding sha st) = Inr () \<and>
      replaced sha (st\<lparr>ps_history := ps_history st @ [new_attempt (expected_identity st ?n) (raw_binding sha st)]\<rparr>) = Inr st'"
    by (auto simp: reserve_def Let_def bind_result_eq_Inr checks_iff gate_binding_iff part_binding_iff reserve_guards_def
        simp del: checks.simps)
  moreover have "identity_check (expected_identity st ?n) = Inr ()" "binding_check (raw_binding sha st) = Inr ()"
    if "reserve_guards sha st now g"
    using well_made_checks [OF assms, of ?n] that by (simp_all add: reserve_guards_def)
  ultimately show ?thesis
    using valid_append [OF assms(1)] by (auto simp: replaced_iff reserve_guards_def)
qed

end
