(* ===== verification/Delivery_Runs.thy ===== *)
theory Delivery_Runs
  imports Delivery_Valid
begin

text \<open>
  Runs of the delivery reducer (\<^verbatim>\<open>delivery.py\<close>): one step per operation that returned a state.
\<close>

section \<open>Steps\<close>

inductive dstep :: "hash \<Rightarrow> part_state \<Rightarrow> part_state \<Rightarrow> bool" for sha where
  d_reserve: "reserve sha st now g = Inr st' \<Longrightarrow> dstep sha st st'"
| d_mark: "mark_dispatch sha st = Inr st' \<Longrightarrow> dstep sha st st'"
| d_prove: "prove_unissued sha st p = Inr st' \<Longrightarrow> dstep sha st st'"
| d_uncertain: "mark_uncertain sha st u = Inr st' \<Longrightarrow> dstep sha st st'"
| d_receipt: "accept_receipt sha st ro claims = Inr st' \<Longrightarrow> dstep sha st st'"
| d_cancel: "cancel sha st = Inr st' \<Longrightarrow> dstep sha st st'"
| d_supersede: "supersede sha st = Inr st' \<Longrightarrow> dstep sha st st'"

definition same_part :: "part_state \<Rightarrow> part_state \<Rightarrow> bool" where
  "same_part st st' \<longleftrightarrow> ps_copy st' = ps_copy st \<and> ps_owner st' = ps_owner st \<and> ps_index st' = ps_index st \<and>
     ps_eligible_at st' = ps_eligible_at st \<and> ps_reply_target st' = ps_reply_target st \<and>
     (ps_cancelled st \<longrightarrow> ps_cancelled st') \<and> (ps_superseded st \<longrightarrow> ps_superseded st')"

text \<open>How a retained attempt may change: a settled phase, a dispatch mark, a contradiction and a diagnosis
  are never taken back.\<close>

definition attempt_le :: "attempt \<Rightarrow> attempt \<Rightarrow> bool" where
  "attempt_le a b \<longleftrightarrow> at_identity b = at_identity a \<and> at_binding b = at_binding a \<and>
     (at_dispatch_marked a \<longrightarrow> at_dispatch_marked b) \<and> (at_contradicted a \<longrightarrow> at_contradicted b) \<and>
     (at_phase a = Confirmed \<longrightarrow> at_phase b = Confirmed \<and> at_message_id b = at_message_id a \<and>
        at_accepted_receipt b = at_accepted_receipt a) \<and>
     (at_phase a = ProvenUnissued \<longrightarrow> at_phase b = ProvenUnissued \<and> at_proof_fact b = at_proof_fact a) \<and>
     (at_phase a = Uncertain \<longrightarrow> at_phase b \<in> {Uncertain, Confirmed}) \<and>
     (at_phase b = Reserved \<longrightarrow> at_phase a = Reserved) \<and>
     prefix (at_uncertainties a) (at_uncertainties b)"

lemma attempt_le_refl [simp]: "attempt_le a a"
  by (simp add: attempt_le_def)

lemma attempt_le_trans: "attempt_le a b \<Longrightarrow> attempt_le b c \<Longrightarrow> attempt_le a c"
proof -
  assume ab: "attempt_le a b" and bc: "attempt_le b c"
  then have "prefix (at_uncertainties a) (at_uncertainties c)"
    unfolding attempt_le_def using prefix_order.trans by blast
  with ab bc show "attempt_le a c"
    unfolding attempt_le_def by (cases "at_phase a"; cases "at_phase b") simp_all
qed

definition history_le :: "attempt list \<Rightarrow> attempt list \<Rightarrow> bool" where
  "history_le h h' \<longleftrightarrow> length h \<le> length h' \<and> (\<forall>i < length h. attempt_le (h ! i) (h' ! i))"

lemma history_leD:
  assumes "history_le h h'" and "i < length h"
  shows "i < length h'" and "attempt_le (h ! i) (h' ! i)"
  using assms by (auto simp: history_le_def)

lemma attempt_le_confirmed:
  "attempt_le a b \<Longrightarrow> at_phase a = Confirmed \<Longrightarrow> at_phase b = Confirmed \<and> at_message_id b = at_message_id a"
  by (simp add: attempt_le_def)

lemma attempt_le_contradicted: "attempt_le a b \<Longrightarrow> at_contradicted a \<Longrightarrow> at_contradicted b"
  by (simp add: attempt_le_def)

lemma history_le_refl [simp]: "history_le h h"
  by (simp add: history_le_def)

lemma history_le_trans: "history_le a b \<Longrightarrow> history_le b c \<Longrightarrow> history_le a c"
  unfolding history_le_def by (meson attempt_le_trans le_trans less_le_trans)

lemma history_le_append: "history_le h (h @ xs)"
  by (simp add: history_le_def nth_append)

lemma history_le_update: "attempt_le (h ! i) a \<Longrightarrow> history_le h (h[i := a])"
proof -
  assume le: "attempt_le (h ! i) a"
  have "attempt_le (h ! k) (h[i := a] ! k)" if "k < length h" for k
    using le that by (cases "k = i") simp_all
  then show "history_le h (h[i := a])" by (simp add: history_le_def)
qed

lemma history_le_last: "h \<noteq> [] \<Longrightarrow> attempt_le (last h) a \<Longrightarrow> history_le h (butlast h @ [a])"
  by (simp add: butlast_snoc_update history_le_update last_conv_nth)

lemma prefix_dict_fromkeys: "distinct xs \<Longrightarrow> prefix xs (dict_fromkeys (xs @ [x]))"
  by (simp add: dict_fromkeys_snoc)

lemma attempt_le_ops:
  assumes "attempt_valid a"
  shows "at_phase a = Reserved \<Longrightarrow> attempt_le a (a\<lparr>at_phase := DispatchMarked, at_dispatch_marked := True\<rparr>)"
    and "at_phase a \<in> {Reserved, DispatchMarked} \<Longrightarrow>
      attempt_le a (a\<lparr>at_phase := ProvenUnissued, at_proof := Some k, at_proof_fact := Some p\<rparr>)"
    and "at_phase a \<in> {DispatchMarked, Uncertain} \<Longrightarrow> attempt_le a (a\<lparr>at_phase := Uncertain,
      at_uncertainty := Some u, at_uncertainties := dict_fromkeys (at_uncertainties a @ [u])\<rparr>)"
    and "at_phase a \<in> {DispatchMarked, Uncertain} \<Longrightarrow> attempt_le a (settled a r valid raw)"
    and "attempt_le a (diagnose a r)"
  using assms
  by (auto simp: attempt_le_def attempt_valid_iff settled_def diagnose_def prefix_dict_fromkeys)

lemma retained_le:
  assumes "part_valid sha st" and "retained_receipt sha st ro claims = Inr (Some st')"
  shows "part_valid sha st' \<and> same_part st st' \<and> history_le (ps_history st) (ps_history st')"
proof -
  from assms(2) obtain r i where "ro = IsReceipt r" and i: "retained_index sha st r 0 (ps_history st) = Some i"
    and st': "st' = st \<or> st' = st\<lparr>ps_history := (ps_history st)[i := diagnose (ps_history st ! i) r]\<rparr> \<and> part_valid sha st'"
    by (auto simp: retained_receipt_def Let_def bind_result_eq_Inr replaced_iff
        split: receipt_object.splits option.splits if_splits)
  have "attempt_valid (ps_history st ! i)"
    using valid_attempts(1) [OF assms(1)] retained_index_Some [OF i] by simp
  then have "attempt_le (ps_history st ! i) (diagnose (ps_history st ! i) r)" by (rule attempt_le_ops(5))
  with st' assms(1) show ?thesis by (auto simp: same_part_def intro: history_le_update)
qed

lemma update_last_le:
  assumes "update_last sha st a = Inr st'" and "ps_history st \<noteq> []" and "attempt_le (last (ps_history st)) a"
  shows "part_valid sha st' \<and> same_part st st' \<and> history_le (ps_history st) (ps_history st')"
  using assms by (auto simp: update_last_def replaced_iff same_part_def intro: history_le_last)

lemma mark_uncertain_le:
  assumes "part_valid sha st" and "mark_uncertain sha st u = Inr st'"
  shows "part_valid sha st' \<and> same_part st st' \<and> history_le (ps_history st) (ps_history st')"
proof -
  let ?a = "last (ps_history st)"
  from assms(2) have ne: "ps_history st \<noteq> []" and ph: "at_phase ?a \<in> {DispatchMarked, Uncertain}"
    and up: "update_last sha st (?a\<lparr>at_phase := Uncertain, at_uncertainty := Some u,
        at_uncertainties := dict_fromkeys (at_uncertainties ?a @ [u])\<rparr>) = Inr st'"
    by (auto simp: mark_uncertain_def current_attempt_def bind_result_eq_Inr split: if_splits)
  show ?thesis by (rule update_last_le [OF up ne attempt_le_ops(3) [OF last_valid [OF assms(1) ne] ph]])
qed

lemma accept_receipt_le:
  assumes "part_valid sha st" and "accept_receipt sha st ro claims = Inr st'"
  shows "part_valid sha st' \<and> same_part st st' \<and> history_le (ps_history st) (ps_history st')"
proof -
  let ?a = "last (ps_history st)"
  from assms(2) have ne: "ps_history st \<noteq> []" by (auto simp: accept_receipt_def current_attempt_def bind_result_eq_Inr split: if_splits)
  from retained_receipt_total [OF assms(1)] obtain k where k: "retained_receipt sha st ro claims = Inr k" by blast
  show ?thesis
  proof (cases k)
    case (Some s)
    with k assms(2) ne have "s = st'" by (simp add: accept_receipt_def current_attempt_def)
    with Some k show ?thesis using retained_le [OF assms(1)] by simp
  next
    case None
    have ph: "at_phase ?a \<in> {DispatchMarked, Uncertain}"
      using None k assms(2) ne by (auto simp: accept_receipt_def current_attempt_def split: if_splits)
    show ?thesis
    proof (cases ro)
      case NotReceipt
      with None k assms(2) ne ph have "mark_uncertain sha st InvalidReceipt = Inr st'"
        by (auto simp: accept_receipt_def current_attempt_def split: if_splits)
      then show ?thesis by (rule mark_uncertain_le [OF assms(1)])
    next
      case (IsReceipt r)
      then obtain valid raw where "update_last sha st (settled ?a r valid raw) = Inr st'"
        using None k assms(2) ne ph by (auto simp: accept_receipt_def current_attempt_def Let_def split: if_splits)
      then show ?thesis
        by (rule update_last_le [OF _ ne attempt_le_ops(4) [OF last_valid [OF assms(1) ne] ph]])
    qed
  qed
qed

lemma dstep_le:
  assumes "dstep sha st st'" and "part_valid sha st"
  shows "part_valid sha st' \<and> same_part st st' \<and> history_le (ps_history st) (ps_history st')"
  using assms(1)
proof cases
  case (d_reserve now g)
  then obtain b where "part_valid sha st'"
    "st' = st\<lparr>ps_history := ps_history st @ [new_attempt (expected_identity st (length (ps_history st) + 1)) b]\<rparr>"
    unfolding reserve_def Let_def bind_result_eq_Inr replaced_iff by blast
  then show ?thesis by (simp add: same_part_def history_le_append)
next
  case d_mark
  then have ne: "ps_history st \<noteq> []" and ph: "at_phase (last (ps_history st)) = Reserved"
    and up: "update_last sha st ((last (ps_history st))\<lparr>at_phase := DispatchMarked, at_dispatch_marked := True\<rparr>) = Inr st'"
    by (auto simp: mark_dispatch_def current_attempt_def bind_result_eq_Inr split: if_splits)
  show ?thesis by (rule update_last_le [OF up ne attempt_le_ops(1) [OF last_valid [OF assms(2) ne] ph]])
next
  case (d_prove p)
  then have ne: "ps_history st \<noteq> []" and ph: "at_phase (last (ps_history st)) \<in> {Reserved, DispatchMarked}"
    and up: "update_last sha st ((last (ps_history st))\<lparr>at_phase := ProvenUnissued, at_proof := Some (nd_kind p),
        at_proof_fact := Some p\<rparr>) = Inr st'"
    by (auto simp: prove_unissued_def current_attempt_def bind_result_eq_Inr Let_def split: if_splits)
  show ?thesis by (rule update_last_le [OF up ne attempt_le_ops(2) [OF last_valid [OF assms(2) ne] ph]])
next
  case d_uncertain
  then show ?thesis using mark_uncertain_le [OF assms(2)] by blast
next
  case d_receipt
  then show ?thesis using accept_receipt_le [OF assms(2)] by blast
next
  case d_cancel
  then show ?thesis by (auto simp: cancel_def replaced_iff same_part_def split: if_splits)
next
  case d_supersede
  then show ?thesis by (auto simp: supersede_def replaced_iff same_part_def)
qed


section \<open>Runs\<close>

interpretation delivery_inv: step_invariant "dstep sha" "part_valid sha" for sha
  by unfold_locales (simp add: dstep_le)

text \<open>The steps that start from a valid state; a run from a valid state is made of these.\<close>

definition vstep :: "hash \<Rightarrow> part_state \<Rightarrow> part_state \<Rightarrow> bool" where
  "vstep sha st st' \<longleftrightarrow> dstep sha st st' \<and> part_valid sha st"

lemma vsteps:
  assumes "(dstep sha)\<^sup>*\<^sup>* st st'" and "part_valid sha st"
  shows "(vstep sha)\<^sup>*\<^sup>* st st'"
  using assms(1)
proof (induction rule: rtranclp_induct)
  case (step a b)
  have "part_valid sha a" using delivery_inv.run_invar [OF step(1) assms(2)] .
  with step show ?case by (auto simp: vstep_def intro: rtranclp.rtrancl_into_rtrancl)
qed simp

interpretation delivery_hist: step_history "vstep sha" ps_history history_le for sha
proof unfold_locales
  fix st st' assume "vstep sha st st'"
  then show "history_le (ps_history st) (ps_history st')" unfolding vstep_def using dstep_le by blast
qed (auto intro: history_le_trans)

lemma same_part_trans: "same_part a b \<Longrightarrow> same_part b c \<Longrightarrow> same_part a c"
  by (auto simp: same_part_def)

interpretation delivery_part: step_history "vstep sha" "\<lambda>st. st" same_part for sha
proof unfold_locales
  fix st st' assume "vstep sha st st'"
  then show "same_part st st'" unfolding vstep_def using dstep_le by blast
qed (auto intro: same_part_trans simp: same_part_def)

subsection \<open>Confirmations are correlated\<close>

definition confirmed_by :: "hash \<Rightarrow> part_state \<Rightarrow> attempt \<Rightarrow> bool" where
  "confirmed_by sha st a \<longleftrightarrow> (\<exists>r. at_accepted_receipt a = Some r \<and> correlated sha st a r)"

definition all_confirmed_by :: "hash \<Rightarrow> part_state \<Rightarrow> bool" where
  "all_confirmed_by sha st \<longleftrightarrow> (\<forall>a \<in> set (ps_history st). at_phase a = Confirmed \<longrightarrow> confirmed_by sha st a)"

lemma confirmed_by_cong:
  "same_part st st' \<Longrightarrow> confirmed_by sha st' a = confirmed_by sha st a"
  by (simp add: confirmed_by_def correlated_def same_part_def)

lemma all_confirmed_last:
  assumes "all_confirmed_by sha st" and "ps_history st' = butlast (ps_history st) @ [a]" and "same_part st st'"
    and "at_phase a = Confirmed \<Longrightarrow> confirmed_by sha st a"
  shows "all_confirmed_by sha st'"
  using assms by (auto simp: all_confirmed_by_def confirmed_by_cong dest: in_set_butlastD)

lemma update_last_confirmed:
  assumes "all_confirmed_by sha st" and "update_last sha st a = Inr st'"
    and "at_phase a = Confirmed \<Longrightarrow> confirmed_by sha st a"
  shows "all_confirmed_by sha st'"
proof -
  from assms(2) have "st' = st\<lparr>ps_history := butlast (ps_history st) @ [a]\<rparr>"
    by (simp add: update_last_def replaced_iff)
  then show ?thesis using all_confirmed_last [OF assms(1), of st' a] assms(3) by (simp add: same_part_def)
qed

lemma retained_confirmed:
  assumes "all_confirmed_by sha st" and "retained_receipt sha st ro claims = Inr (Some st')"
  shows "all_confirmed_by sha st'"
proof -
  from assms(2) obtain r i where i: "retained_index sha st r 0 (ps_history st) = Some i"
    and st': "st' = st \<or> st' = st\<lparr>ps_history := (ps_history st)[i := diagnose (ps_history st ! i) r]\<rparr>"
    by (auto simp: retained_receipt_def Let_def bind_result_eq_Inr replaced_iff
        split: receipt_object.splits option.splits if_splits)
  let ?a = "ps_history st ! i"
  have "?a \<in> set (ps_history st)" using retained_index_Some [OF i] by simp
  with assms(1) have "at_phase (diagnose ?a r) = Confirmed \<longrightarrow> confirmed_by sha st (diagnose ?a r)"
    by (auto simp: all_confirmed_by_def confirmed_by_def diagnose_def correlated_def)
  then show ?thesis using assms(1) st'
    by (auto simp: all_confirmed_by_def confirmed_by_def correlated_def dest!: set_update_subset_insert [THEN subsetD])
qed

lemma accept_receipt_confirmed:
  assumes "all_confirmed_by sha st" and "accept_receipt sha st ro claims = Inr st'"
  shows "all_confirmed_by sha st'"
proof -
  let ?a = "last (ps_history st)"
  from assms(2) obtain k where ne: "ps_history st \<noteq> []" and k: "retained_receipt sha st ro claims = Inr k"
    by (auto simp: accept_receipt_def current_attempt_def bind_result_eq_Inr split: if_splits)
  show ?thesis
  proof (cases k)
    case (Some s)
    with k assms(2) ne have "s = st'" by (simp add: accept_receipt_def current_attempt_def)
    with Some k show ?thesis using retained_confirmed [OF assms(1)] by simp
  next
    case None
    show ?thesis
    proof (cases ro)
      case NotReceipt
      then have "mark_uncertain sha st InvalidReceipt = Inr st'"
        using None k assms(2) ne by (auto simp: accept_receipt_def current_attempt_def split: if_splits)
      then show ?thesis using ne
        by (auto simp: mark_uncertain_def current_attempt_def split: if_splits intro: update_last_confirmed [OF assms(1)])
    next
      case (IsReceipt r)
      then obtain raw where up: "update_last sha st (settled ?a r (receipt_matches sha st ?a r claims) raw) = Inr st'"
        using None k assms(2) ne by (auto simp: accept_receipt_def current_attempt_def Let_def split: if_splits)
      show ?thesis
        by (rule update_last_confirmed [OF assms(1) up])
          (auto simp: settled_def confirmed_by_def receipt_matches_def correlated_def split: if_splits)
    qed
  qed
qed

lemma dstep_confirmed:
  assumes "dstep sha st st'" and "all_confirmed_by sha st"
  shows "all_confirmed_by sha st'"
  using assms(1)
proof cases
  case (d_reserve now g)
  then obtain b where
    "st' = st\<lparr>ps_history := ps_history st @ [new_attempt (expected_identity st (length (ps_history st) + 1)) b]\<rparr>"
    unfolding reserve_def Let_def bind_result_eq_Inr replaced_iff by blast
  then show ?thesis using assms(2)
    by (auto simp: all_confirmed_by_def new_attempt_def confirmed_by_def correlated_def)
next
  case d_receipt
  then show ?thesis by (rule accept_receipt_confirmed [OF assms(2)])
next
  case d_cancel
  then show ?thesis using assms(2)
    by (auto simp: cancel_def replaced_iff all_confirmed_by_def confirmed_by_def correlated_def split: if_splits)
next
  case d_supersede
  then show ?thesis using assms(2)
    by (auto simp: supersede_def replaced_iff all_confirmed_by_def confirmed_by_def correlated_def)
qed (auto simp: mark_dispatch_def prove_unissued_def mark_uncertain_def current_attempt_def Let_def bind_result_eq_Inr
    split: if_splits intro: update_last_confirmed [OF assms(2)])

interpretation delivery_confirmed: step_invariant "dstep sha" "all_confirmed_by sha" for sha
  by unfold_locales (rule dstep_confirmed)

end
