(* ===== verification/Delivery_Props.thy ===== *)
theory Delivery_Props
  imports Delivery_Runs
begin

text \<open>
  The guarantees of the delivery reducer (\<^verbatim>\<open>delivery.py\<close>), each with an example part: one text
  part of a display copy, under a hash that returns a fixed digest.
\<close>

section \<open>An example\<close>

definition zeros :: "nat \<Rightarrow> utext" where
  "zeros n = replicate n 48"

definition toy_sha :: hash where
  "toy_sha x = zeros 64"

definition example_request :: copy_request where
  "example_request = \<lparr>cr_source = \<lparr>s_producer = lit ''p'', s_kind = Question, s_canonical_id = lit ''c'',
       s_logical_id = lit ''l'', s_revision = lit ''r1''\<rparr>,
     cr_destination = \<lparr>ds_agent = lit ''a'', ds_workstream = lit ''w'', ds_queue = lit ''q'', ds_repository = lit ''r'',
       ds_epoch = lit ''e'', ds_account = zeros 64, ds_group = zeros 2\<rparr>,
     cr_reason = RInitial, cr_occurrence = lit ''r1'', cr_renderer = lit ''x'', cr_redactor = lit ''y'', cr_config = lit ''z''\<rparr>"

definition example_copy :: frozen_copy where
  "example_copy = \<lparr>fc_request = example_request, fc_copy_id = zeros 32, fc_profile = DisplayV1, fc_parts = [lit ''hello''],
     fc_chunk_chars = 100, fc_frame_bytes = 1000, fc_route = None, fc_token_override = Some (lit ''t'')\<rparr>"

definition example_part :: part_state where
  "example_part = \<lparr>ps_copy = example_copy, ps_owner = lit ''o'', ps_index = 0, ps_eligible_at = ClkInt 0, ps_history = [],
     ps_cancelled = False, ps_superseded = False, ps_reply_target = None\<rparr>"

definition example_gates :: gates where
  "example_gates = \<lparr>g_source_current = True, g_trust_current = True, g_parent_confirmed = True,
     g_binding = Some (raw_binding toy_sha example_part), g_parent = None\<rparr>"

lemma is_hex_zeros [simp]: "is_hex n (zeros n)"
  by (simp add: is_hex_def zeros_def hex_char_def list_all_iff)

lemma toy_digest [simp]: "digest toy_sha v = zeros 64"
  by (simp add: digest_def toy_sha_def)

lemma example_valid: "part_valid toy_sha example_part"
  by (simp add: part_valid_iff example_part_def example_copy_def clock_check_def float_range_def text_ok_def
      utf8_encode_def lit_def is_surrogate_def)

lemma example_well_made: "well_made toy_sha example_part"
proof -
  have "copy_check toy_sha example_copy = Inr ()"
    by (simp add: copy_check_def example_copy_def hex_check_def text_check_def text_ok_def source_token_def part_limit_def
        byte_limit_def part_size_def utf8_encode_def lit_def is_surrogate_def utf8_char_def)
  moreover have "destination_check (cr_destination example_request) = Inr ()"
    by (simp add: destination_check_def example_request_def hex_check_def text_check_def text_ok_def utf8_encode_def
        lit_def is_surrogate_def) (simp add: zeros_def is_hex_def hex_char_def numeral_2_eq_2)
  ultimately show ?thesis
    by (simp add: well_made_def example_part_def) (simp add: example_copy_def toy_sha_def)
qed

definition example_reserved :: part_state where
  "example_reserved = example_part\<lparr>ps_history := [new_attempt (expected_identity example_part 1) (raw_binding toy_sha example_part)]\<rparr>"

lemma example_reserve: "reserve toy_sha example_part (ClkInt 0) example_gates = Inr example_reserved"
proof -
  have "reserve_guards toy_sha example_part (ClkInt 0) example_gates"
    by (simp add: reserve_guards_def example_gates_def clock_check_def float_range_def effect_policy_def)
      (simp add: example_part_def example_copy_def example_request_def retry_delay_def)
  moreover have "length (ps_history example_part) + 1 = 1" by (simp add: example_part_def)
  ultimately show ?thesis
    using reserve_iff [OF example_valid example_well_made, of "ClkInt 0" example_gates example_reserved]
    by (simp add: example_reserved_def)
qed

definition example_sent :: part_state where
  "example_sent = example_reserved\<lparr>ps_history := [(new_attempt (expected_identity example_part 1) (raw_binding toy_sha example_part))
     \<lparr>at_phase := DispatchMarked, at_dispatch_marked := True\<rparr>]\<rparr>"

lemma example_reserved_valid: "part_valid toy_sha example_reserved"
  using delivery_inv.step_invar [OF d_reserve [OF example_reserve] example_valid] .

lemma example_mark: "mark_dispatch toy_sha example_reserved = Inr example_sent"
proof -
  have "\<exists>st'. mark_dispatch toy_sha example_reserved = Inr st'"
    unfolding mark_dispatch_ok [OF example_reserved_valid]
    by (simp add: example_reserved_def new_attempt_def effect_policy_def)
      (simp add: example_part_def example_copy_def example_request_def)
  then show ?thesis
    by (auto simp: mark_dispatch_def current_attempt_def bind_result_eq_Inr update_last_def replaced_iff
        example_reserved_def example_sent_def new_attempt_def split: if_splits)
qed

lemma example_run: "(dstep toy_sha)\<^sup>*\<^sup>* example_part example_sent"
  using d_reserve [OF example_reserve] d_mark [OF example_mark] by (meson r_into_rtranclp rtranclp_trans)


definition example_receipt :: "utext \<Rightarrow> delivery_receipt" where
  "example_receipt m = \<lparr>dr_identity = expected_identity example_part 1, dr_account = zeros 64, dr_group = zeros 2,
     dr_native_key = raw_native_key toy_sha example_copy 0, dr_text_hash = zeros 64,
     dr_message_ids = IdTuple [IdStr m], dr_binding = Some (raw_binding toy_sha example_part)\<rparr>"

lemma example_sent_valid: "part_valid toy_sha example_sent"
  using delivery_inv.step_invar [OF d_mark [OF example_mark] example_reserved_valid] .

lemma example_parts [simp]:
  "ps_copy example_sent = example_copy" "ps_index example_sent = 0"
  "cr_destination (fc_request example_copy) = cr_destination example_request"
  "ds_account (cr_destination example_request) = zeros 64" "ds_group (cr_destination example_request) = zeros 2"
  by (simp_all add: example_sent_def example_reserved_def example_part_def example_copy_def example_request_def)

lemma example_history:
  "\<exists>a. ps_history example_sent = [a] \<and> at_identity a = expected_identity example_part 1 \<and>
     at_binding a = raw_binding toy_sha example_part \<and> at_phase a = DispatchMarked"
  by (simp add: example_sent_def new_attempt_def)

lemma example_correlated:
  assumes "at_identity a = expected_identity example_part 1" and "at_binding a = raw_binding toy_sha example_part"
    and "ps_copy st = example_copy" and "ps_index st = 0"
  shows "correlated toy_sha st a (example_receipt m)"
  using assms by (simp add: correlated_def example_receipt_def text_hash_def toy_sha_def)

lemma example_confirm:
  "\<exists>st' a. accept_receipt toy_sha example_sent (IsReceipt (example_receipt (zeros 64))) [] = Inr st' \<and>
     ps_history st' = [a] \<and> at_phase a = Confirmed"
proof -
  from example_history obtain a where h: "ps_history example_sent = [a]" "at_phase a = DispatchMarked"
    and co: "correlated toy_sha example_sent a (example_receipt (zeros 64))"
    using example_correlated by fastforce
  have m: "receipt_matches toy_sha example_sent a (example_receipt (zeros 64)) []"
    using co by (simp add: receipt_matches_def example_receipt_def)
  from accept_receipt_ok [OF example_sent_valid, of "IsReceipt (example_receipt (zeros 64))" "[]"] h obtain st' where
    st': "accept_receipt toy_sha example_sent (IsReceipt (example_receipt (zeros 64))) [] = Inr st'" by auto
  then have "ps_history st' = [settled a (example_receipt (zeros 64)) True (joined_ids a (example_receipt (zeros 64)))]"
    using h m co by (auto simp: accept_receipt_def current_attempt_def retained_receipt_def update_last_def replaced_iff)
  then show ?thesis using st' by (auto simp: settled_def)
qed

section \<open>Properties\<close>

lemma valid_confirmed:
  assumes "attempt_valid a" and "at_phase a = Confirmed"
  obtains m r where "at_message_id a = Some m" "is_hex 64 m" "at_accepted_receipt a = Some r"
    "dr_message_ids r = IdTuple [IdStr m]"
proof -
  obtain m where m: "at_message_id a = Some m" "is_hex 64 m" using assms by (auto simp: attempt_valid_iff)
  have "receipt_fact_ok a" using assms by (simp add: attempt_valid_iff)
  with m that show thesis by (cases "at_accepted_receipt a") (simp_all add: receipt_fact_ok_def)
qed

lemma valid_earlier:
  "part_valid sha st \<Longrightarrow> i < j \<Longrightarrow> j < length (ps_history st) \<Longrightarrow> at_phase (ps_history st ! i) = ProvenUnissued"
  by (simp add: part_valid_iff)

text \<open>C26. A confirmation is final and earned: when a run from a fresh part has confirmed an attempt, then
  in every continuation that attempt stays confirmed under the same message id and the same receipt; the
  receipt names this attempt, binding, account, group, native key and text, and exactly one well-formed
  message id; and no attempt ever follows it.\<close>

theorem confirmation_final:
  assumes "(dstep sha)\<^sup>*\<^sup>* st0 st" and "part_valid sha st0" and "ps_history st0 = []"
    and "i < length (ps_history st)" and "at_phase (ps_history st ! i) = Confirmed"
    and "(dstep sha)\<^sup>*\<^sup>* st st'"
  shows "\<exists>m r. at_phase (ps_history st' ! i) = Confirmed \<and> length (ps_history st') = Suc i \<and>
    at_message_id (ps_history st ! i) = Some m \<and> at_message_id (ps_history st' ! i) = Some m \<and> is_hex 64 m \<and>
    at_accepted_receipt (ps_history st' ! i) = Some r \<and> dr_message_ids r = IdTuple [IdStr m] \<and>
    correlated sha st0 (ps_history st' ! i) r"
proof -
  let ?a = "ps_history st ! i" and ?b = "ps_history st' ! i"
  have v: "part_valid sha st" by (rule delivery_inv.run_invar [OF assms(1,2)])
  have v': "part_valid sha st'" by (rule delivery_inv.run_invar [OF assms(6) v])
  note le = history_leD [OF delivery_hist.run_le [OF vsteps [OF assms(6) v]] assms(4)]
  then have i: "i < length (ps_history st')" and b: "at_phase ?b = Confirmed" "at_message_id ?b = at_message_id ?a"
    using attempt_le_confirmed assms(5) by blast+
  then have "\<not> Suc i < length (ps_history st')" using valid_earlier [OF v', of i "Suc i"] by auto
  with i have "length (ps_history st') = Suc i" by simp
  moreover have "attempt_valid ?b" using v' i by (simp add: valid_attempts)
  from valid_confirmed [OF this b(1)] obtain m r where "at_message_id ?b = Some m" "is_hex 64 m" "at_accepted_receipt ?b = Some r"
    "dr_message_ids r = IdTuple [IdStr m]" by blast
  moreover have run: "(dstep sha)\<^sup>*\<^sup>* st0 st'" using assms(1,6) by (rule rtranclp_trans)
  have "all_confirmed_by sha st0" by (simp add: all_confirmed_by_def assms(3))
  from delivery_confirmed.run_invar [OF run this] have "confirmed_by sha st' ?b"
    using i b(1) by (simp add: all_confirmed_by_def)
  then have "confirmed_by sha st0 ?b"
    using confirmed_by_cong [OF delivery_part.run_le [OF vsteps [OF run assms(2)]]] by simp
  then obtain r' where "at_accepted_receipt ?b = Some r'" "correlated sha st0 ?b r'" unfolding confirmed_by_def by blast
  ultimately have "at_phase ?b = Confirmed \<and> length (ps_history st') = Suc i \<and> at_message_id ?a = Some m \<and>
      at_message_id ?b = Some m \<and> is_hex 64 m \<and> at_accepted_receipt ?b = Some r \<and> dr_message_ids r = IdTuple [IdStr m] \<and>
      correlated sha st0 ?b r" using b by simp
  then show ?thesis by blast
qed

theorem confirmation_final_witness:
  "\<exists>st' m. accept_receipt toy_sha example_sent (IsReceipt (example_receipt (zeros 64))) [] = Inr st' \<and>
     at_message_id (ps_history st' ! 0) = Some m \<and> is_hex 64 m"
proof -
  from example_confirm obtain st' a where
    st': "accept_receipt toy_sha example_sent (IsReceipt (example_receipt (zeros 64))) [] = Inr st'"
    and a: "ps_history st' = [a]" "at_phase a = Confirmed" by blast
  have run: "(dstep toy_sha)\<^sup>*\<^sup>* example_part st'"
    using example_run d_receipt [OF st'] by (rule rtranclp.rtrancl_into_rtrancl)
  have "ps_history example_part = []" by (simp add: example_part_def)
  from confirmation_final [OF run example_valid this, of 0 st'] a st' show ?thesis by auto
qed

text \<open>C27. Contradictory evidence is never forgotten: once any attempt of a part carries a contradiction,
  then after every further run the part is reported as held, no attempt can be reserved or dispatched and
  the part cannot be cancelled.\<close>

theorem contradiction_holds:
  assumes "part_valid sha st" and "a \<in> set (ps_history st)" and "at_contradicted a" and "(dstep sha)\<^sup>*\<^sup>* st st'"
  shows "part_status st' = StUncertainHeld \<and> (\<forall>now g s. reserve sha st' now g \<noteq> Inr s) \<and>
    (\<forall>s. mark_dispatch sha st' \<noteq> Inr s) \<and> cancel sha st' = Inl (PolicyError RecoveryRequired)"
proof -
  obtain i where i: "i < length (ps_history st)" "ps_history st ! i = a" using assms(2) by (meson in_set_conv_nth)
  note le = history_leD [OF delivery_hist.run_le [OF vsteps [OF assms(4,1)]] i(1)]
  then have "i < length (ps_history st')" "at_contradicted (ps_history st' ! i)"
    using assms(3) i(2) attempt_le_contradicted by blast+
  then have c: "list_ex at_contradicted (ps_history st')" by (auto simp: list_ex_iff)
  then have "effect_policy st' \<noteq> Inr ()" by (simp add: effect_policy_def checks_iff del: checks.simps)
  then have "reserve sha st' now g \<noteq> Inr s" "mark_dispatch sha st' \<noteq> Inr s" for now g s
    by (auto simp: reserve_def mark_dispatch_def bind_result_eq_Inr checks_iff Let_def simp del: checks.simps)
  with c show ?thesis by (simp add: part_status_def cancel_def)
qed


theorem contradiction_holds_witness:
  "\<exists>st1 st2. accept_receipt toy_sha example_sent (IsReceipt (example_receipt (zeros 64))) [] = Inr st1 \<and>
     accept_receipt toy_sha st1 (IsReceipt (example_receipt [])) [] = Inr st2 \<and> part_status st2 = StUncertainHeld"
proof -
  from example_confirm obtain st1 a where
    st1: "accept_receipt toy_sha example_sent (IsReceipt (example_receipt (zeros 64))) [] = Inr st1"
    and a: "ps_history st1 = [a]" "at_phase a = Confirmed" by blast
  note le = dstep_le [OF d_receipt [OF st1] example_sent_valid]
  then have v: "part_valid toy_sha st1" and sp: "same_part example_sent st1" by blast+
  have "attempt_le (ps_history example_sent ! 0) a"
  proof -
    obtain aa where aa: "ps_history example_sent = [aa]" using example_history by auto
    then have "history_le [aa] [a]" using le a by simp
    then show ?thesis using history_leD(2) [of "[aa]" "[a]" 0] aa by simp
  qed
  with example_history have "at_identity a = expected_identity example_part 1" "at_binding a = raw_binding toy_sha example_part"
    by (auto simp: attempt_le_def)
  then have co: "correlated toy_sha st1 a (example_receipt [])" using sp by (intro example_correlated) (simp_all add: same_part_def)
  then have i: "retained_index toy_sha st1 (example_receipt []) 0 (ps_history st1) = Some 0" using a by simp
  then obtain st2 where st2: "accept_receipt toy_sha st1 (IsReceipt (example_receipt [])) [] = Inr st2"
    using accept_receipt_iff [OF v, of "IsReceipt (example_receipt [])" "[]"] a(1) by auto
  have "\<not> receipt_matches toy_sha st1 a (example_receipt []) []"
    by (simp add: receipt_matches_def example_receipt_def is_hex_def)
  then have "ps_history st2 = [diagnose a (example_receipt [])]"
    using st2 a i by (auto simp: accept_receipt_def current_attempt_def retained_receipt_def Let_def bind_result_eq_Inr replaced_iff)
  moreover have "part_valid toy_sha st2" using dstep_le [OF d_receipt [OF st2] v] by blast
  ultimately have "part_status st2 = StUncertainHeld"
    using contradiction_holds [of toy_sha st2 "diagnose a (example_receipt [])" st2] by (simp add: diagnose_def)
  with st1 st2 show ?thesis by blast
qed

text \<open>C28. Exactly when the reducer's calls succeed, on every valid part of a well-made copy: in every other
  case the call raises and there is no new state. A write is reserved only under the complete guard (time,
  policy, trust, parent, binding and the retry budget), dispatched only from a reservation, declared
  unissued only on a proof about this attempt, settled only while it is open or by a receipt correlated
  with a retained attempt, cancelled only when nothing may have been sent; superseding always works.\<close>

theorem delivery_calls_exact:
  assumes "part_valid sha st" and "well_made sha st"
  shows "((\<exists>s. reserve sha st now g = Inr s) \<longleftrightarrow> reserve_guards sha st now g) \<and>
    ((\<exists>s. mark_dispatch sha st = Inr s) \<longleftrightarrow> effect_policy st = Inr () \<and> \<not> ps_cancelled st \<and> \<not> ps_superseded st \<and>
       ps_history st \<noteq> [] \<and> at_phase (last (ps_history st)) = Reserved) \<and>
    ((\<exists>s. prove_unissued sha st p = Inr s) \<longleftrightarrow> ps_history st \<noteq> [] \<and>
       (let a = last (ps_history st) in nd_identity p = at_identity a \<and> (nd_binding p = None \<or> nd_binding p = Some (at_binding a)) \<and>
         (at_phase a = Reserved \<or> at_phase a = DispatchMarked \<and> nd_kind p = PrewriteRefusal \<and> nd_write_not_invoked p \<and>
            nd_binding p = Some (at_binding a)))) \<and>
    ((\<exists>s. mark_uncertain sha st u = Inr s) \<longleftrightarrow>
       ps_history st \<noteq> [] \<and> at_phase (last (ps_history st)) \<in> {DispatchMarked, Uncertain}) \<and>
    ((\<exists>s. accept_receipt sha st ro claims = Inr s) \<longleftrightarrow> ps_history st \<noteq> [] \<and>
       (at_phase (last (ps_history st)) \<in> {DispatchMarked, Uncertain} \<or>
         (\<exists>r i. ro = IsReceipt r \<and> retained_index sha st r 0 (ps_history st) = Some i))) \<and>
    ((\<exists>s. cancel sha st = Inr s) \<longleftrightarrow> \<not> list_ex at_contradicted (ps_history st) \<and>
       (ps_history st = [] \<or> at_phase (last (ps_history st)) = ProvenUnissued)) \<and>
    supersede sha st = Inr (st\<lparr>ps_superseded := True\<rparr>)"
proof -
  have "(\<exists>s. reserve sha st now g = Inr s) \<longleftrightarrow> reserve_guards sha st now g"
    unfolding reserve_iff [OF assms] by simp
  from conjI [OF this conjI [OF mark_dispatch_ok [OF assms(1)] conjI [OF prove_unissued_ok [OF assms(1), of p]
    conjI [OF mark_uncertain_iff [OF assms(1), of u] conjI [OF accept_receipt_iff [OF assms(1), of ro claims]
    conjI [OF cancel_ok [OF assms(1)] supersede_ok [OF assms(1)]]]]]]]
  show ?thesis .
qed

theorem delivery_calls_exact_witness:
  "(\<exists>s. cancel toy_sha example_part = Inr s) \<and> \<not> (\<exists>s. mark_dispatch toy_sha example_part = Inr s)"
proof -
  have h: "ps_history example_part = []" by (simp add: example_part_def)
  note c = delivery_calls_exact [OF example_valid example_well_made]
  have "\<not> (\<exists>s. mark_dispatch toy_sha example_part = Inr s)"
    unfolding c [THEN conjunct2, THEN conjunct1] using h by simp
  moreover have "\<exists>s. cancel toy_sha example_part = Inr s"
    unfolding c [THEN conjunct2, THEN conjunct2, THEN conjunct2, THEN conjunct2, THEN conjunct2, THEN conjunct1]
    using h by simp
  ultimately show ?thesis by blast
qed

text \<open>C29. What completion of a copy means: \<^verbatim>\<open>copy_status\<close> reports a copy complete exactly when the states are
  the copy's parts in order under one owner, every part's last attempt is confirmed, all message ids are
  pairwise distinct, no attempt is contradicted, no part is cancelled or superseded, and every part after
  the first names the first part's confirmation as its parent.\<close>

theorem copy_complete_iff:
  "copy_status sts = Inr StComplete \<longleftrightarrow>
     (\<exists>first rest. sts = first # rest \<and> length sts = length (fc_parts (ps_copy first)) \<and>
        map ps_index sts = map int [0..<length sts] \<and>
        list_all (\<lambda>s. ps_copy s = ps_copy first \<and> ps_owner s = ps_owner first) sts \<and>
        list_all (\<lambda>s. confirmed_part s \<and> \<not> list_ex at_contradicted (ps_history s) \<and>
           \<not> ps_cancelled s \<and> \<not> ps_superseded s) sts \<and>
        distinct (map (\<lambda>s. at_message_id (last (ps_history s))) sts) \<and>
        list_all (\<lambda>s. parent_matches s (Some first)) rest)"
proof (cases sts)
  case (Cons first rest)
  show ?thesis
  proof (cases "list_all confirmed_part sts")
    case True
    then have f: "confirmed_ids sts = map (\<lambda>s. at_message_id (last (ps_history s))) sts"
      by (simp add: confirmed_ids_def list_all_iff)
    have o: "\<not> list_ex open_phase sts" and e: "\<not> list_ex (\<lambda>s. part_status s = StExhaustedHeld) sts"
      using True by (auto simp: list_all_iff list_ex_iff confirmed_part_def open_phase_def part_status_def)
    show ?thesis
      using True o e f Cons
      by (simp add: copy_status_def Let_def f o e list_all_iff list_ex_iff) blast
  next
    case False
    then have "length (confirmed_ids sts) \<noteq> length sts"
      by (simp add: confirmed_ids_def list_all_iff) (metis filter_id_conv length_filter_less less_irrefl)
    then have "copy_status sts \<noteq> Inr StComplete" using Cons by (simp add: copy_status_def Let_def)
    with False show ?thesis by (auto simp: list_all_iff)
  qed
qed (simp add: copy_status_def)


lemma lit_inj: "lit a = lit b \<longleftrightarrow> a = b"
proof -
  have "inj (of_char :: char \<Rightarrow> nat)" by (simp add: inj_def)
  then show ?thesis by (simp add: lit_def inj_map_eq_map)
qed

lemma route_check_iff:
  "route_check r = Inr () \<longleftrightarrow> length (ro_ask_id r) = 4 \<and> list_all ask_char (ro_ask_id r) \<and>
     (if ro_kind r = Ask then ro_request_id r = [] else is_hex 64 (ro_request_id r))"
  by (cases "ro_kind r") (auto simp: route_check_def checks_iff hex_check_def simp del: checks.simps)

text \<open>Native transport keys of canonical routes never meet: two checked routes and part numbers that
  produce the same key are the same route and the same part.\<close>

theorem route_key_injective:
  assumes "route_check r = Inr ()" and "route_check r' = Inr ()" and "route_key r i = route_key r' j"
  shows "r = r' \<and> i = j"
proof -
  note c = assms(1,2) [unfolded route_check_iff]
  have k: "ro_kind r = ro_kind r'"
    using assms(3) c by (cases "ro_kind r"; cases "ro_kind r'") (auto simp: route_key_def route_text_def lit_def)
  have l: "length (ro_ask_id r) = length (ro_ask_id r')" "length (ro_request_id r) = length (ro_request_id r')"
    using c k by (auto simp: is_hex_def split: if_splits)
  have e: "(ro_request_id r = []) = (ro_request_id r' = [])" using l by (metis length_0_conv)
  have "ro_ask_id r = ro_ask_id r' \<and> ro_request_id r = ro_request_id r' \<and> lit (show_int i) = lit (show_int j)"
    using assms(3) k l e by (auto simp: route_key_def split: if_splits)
  with k show ?thesis by (auto simp: lit_inj dest: show_int_inj)
qed


theorem route_key_injective_witness:
  "route_key \<lparr>ro_kind = Ask, ro_ask_id = lit ''abcd'', ro_request_id = []\<rparr> 1
     \<noteq> route_key \<lparr>ro_kind = Askr, ro_ask_id = lit ''abcd'', ro_request_id = zeros 64\<rparr> 1"
proof -
  have "route_check \<lparr>ro_kind = Ask, ro_ask_id = lit ''abcd'', ro_request_id = []\<rparr> = Inr ()"
    "route_check \<lparr>ro_kind = Askr, ro_ask_id = lit ''abcd'', ro_request_id = zeros 64\<rparr> = Inr ()"
    by (simp_all add: route_check_iff lit_def ask_char_def)
  from route_key_injective [OF this, of 1 1] show ?thesis by auto
qed

end
