(* ===== verification/Toml.thy ===== *)
theory Toml
  imports Prelude
begin

text \<open>
  Configuration trees as \<^verbatim>\<open>tomllib\<close> returns them, and how layers of them are merged and read
  (\<^verbatim>\<open>config/layers.py\<close>: \<^verbatim>\<open>as_table\<close>, \<^verbatim>\<open>merge\<close>, \<^verbatim>\<open>table_at\<close>, \<^verbatim>\<open>string_list\<close>;
  \<^verbatim>\<open>config/secret_scan.py\<close>: \<^verbatim>\<open>is_reference\<close>; \<^verbatim>\<open>Config.get\<close>). A table is an association
  list in insertion order, as a Python dict is; \<open>TOther\<close> stands for floats, dates and times, which no
  rule of the configuration accepts. Text is a list of the 256 characters of Isabelle's \<open>char\<close>.
\<close>

section \<open>Trees\<close>

datatype toml = TStr string | TInt int | TBool bool | TOther | TList "toml list" | TTable "(string \<times> toml) list"

type_synonym ttable = "(string, toml) table"

text \<open>What \<^verbatim>\<open>str.strip\<close> removes, among these characters.\<close>

definition blank_char :: "char \<Rightarrow> bool" where
  "blank_char c \<longleftrightarrow> (let n = (of_char c :: nat) in (9 \<le> n \<and> n \<le> 13) \<or> (28 \<le> n \<and> n \<le> 32) \<or> n = 133 \<or> n = 160)"

definition REFERENCE_KEYS :: "string list" where
  "REFERENCE_KEYS = [''file'', ''command'']"

definition is_reference :: "toml \<Rightarrow> bool" where
  "is_reference v =
     (case v of
        TTable [(key, TStr target)] \<Rightarrow> key \<in> set REFERENCE_KEYS \<and> \<not> list_all blank_char target
      | _ \<Rightarrow> False)"

definition as_table :: "toml \<Rightarrow> ttable option" where
  "as_table v = (case v of TTable t \<Rightarrow> if is_reference v then None else Some t | _ \<Rightarrow> None)"

lemma as_table_Some: "as_table v = Some t \<longleftrightarrow> v = TTable t \<and> \<not> is_reference v"
  by (auto simp: as_table_def split: toml.splits if_splits)

section \<open>Merging a layer\<close>

definition child_table :: "ttable \<Rightarrow> string \<Rightarrow> ttable" where
  "child_table base key = (case map_of base key of Some (TTable c) \<Rightarrow> c | _ \<Rightarrow> [])"

type_synonym provenance = "(string, string) table"

function merge :: "ttable \<Rightarrow> ttable \<Rightarrow> string \<Rightarrow> provenance \<Rightarrow> string \<Rightarrow> ttable \<times> provenance" where
  "merge base [] label sources prfx = (base, sources)"
| "merge base ((key, v) # overlay) label sources prfx =
     (case as_table v of
        None \<Rightarrow> merge (AList.update key v base) overlay label (AList.update (prfx @ key) label sources) prfx
      | Some t \<Rightarrow>
          (let (child, sources') = merge (child_table base key) t label sources (prfx @ key @ ''.'')
           in merge (AList.update key (TTable child) base) overlay label sources' prfx))"
  by pat_completeness auto

termination
  by (relation "measure (\<lambda>(base, ov, label, src, prfx). size (TTable ov))") (auto simp: as_table_Some)

section \<open>Reading\<close>

text \<open>\<^verbatim>\<open>Config.get\<close>, on the parts of the dotted name.\<close>

fun get_path :: "toml \<Rightarrow> string list \<Rightarrow> toml option" where
  "get_path v [] = Some v"
| "get_path v (part # parts) =
     (case v of
        TTable t \<Rightarrow> (case map_of t part of None \<Rightarrow> None | Some w \<Rightarrow> get_path w parts)
      | _ \<Rightarrow> None)"

fun split_on :: "char \<Rightarrow> string \<Rightarrow> string list" where
  "split_on d [] = [[]]"
| "split_on d (c # cs) =
     (if c = d then [] # split_on d cs
      else case split_on d cs of [] \<Rightarrow> [[c]] | w # ws \<Rightarrow> (c # w) # ws)"

definition config_get :: "ttable \<Rightarrow> string \<Rightarrow> toml option" where
  "config_get values dotted = get_path (TTable values) (split_on CHR ''.'' dotted)"

definition get_default :: "ttable \<Rightarrow> string \<Rightarrow> toml \<Rightarrow> toml" where
  "get_default t key d = (case map_of t key of None \<Rightarrow> d | Some v \<Rightarrow> v)"

fun strings_of :: "toml list \<Rightarrow> string list option" where
  "strings_of [] = Some []"
| "strings_of (v # vs) =
     (case v of TStr s \<Rightarrow> map_option (\<lambda>ss. s # ss) (strings_of vs) | _ \<Rightarrow> None)"

definition list_of_strings :: "toml \<Rightarrow> string list option" where
  "list_of_strings v = (case v of TList vs \<Rightarrow> strings_of vs | _ \<Rightarrow> None)"

section \<open>What a merged tree holds\<close>

text \<open>
  The contract of layering, on paths: a layer speaks at a path when it has a leaf (anything but a
  table) at the path or above it, and what it says is what a reader finds under that leaf. A layer with
  no value or only tables on the way is silent.
\<close>

fun speaks :: "ttable \<Rightarrow> string list \<Rightarrow> toml option option" where
  "speaks t [] = None"
| "speaks t (k # p) =
     (case map_of t k of
        None \<Rightarrow> None
      | Some v \<Rightarrow> (case as_table v of None \<Rightarrow> Some (get_path v p) | Some t' \<Rightarrow> speaks t' p))"

fun has_table :: "ttable \<Rightarrow> string list \<Rightarrow> bool" where
  "has_table t [] = True"
| "has_table t (k # p) =
     (case map_of t k of
        None \<Rightarrow> False
      | Some v \<Rightarrow> (case as_table v of None \<Rightarrow> False | Some t' \<Rightarrow> has_table t' p))"

text \<open>The dotted names of a layer's leaves.\<close>

function leaf_names :: "string \<Rightarrow> ttable \<Rightarrow> string list" where
  "leaf_names prfx [] = []"
| "leaf_names prfx ((key, v) # overlay) =
     (case as_table v of None \<Rightarrow> [prfx @ key] | Some t \<Rightarrow> leaf_names (prfx @ key @ ''.'') t)
     @ leaf_names prfx overlay"
  by pat_completeness auto

termination
  by (relation "measure (\<lambda>(prfx, ov). size (TTable ov))") (auto simp: as_table_Some)

text \<open>Every table of the tree has distinct keys, as a parsed document has.\<close>

fun keyed_tree :: "toml \<Rightarrow> bool" where
  "keyed_tree (TTable t) \<longleftrightarrow> keyed t \<and> list_all (\<lambda>(k, v). keyed_tree v) t"
| "keyed_tree (TList vs) \<longleftrightarrow> list_all keyed_tree vs"
| "keyed_tree _ \<longleftrightarrow> True"

lemma merge_get:
  assumes "keyed_tree (TTable ov)" and "p \<noteq> []" and "\<not> has_table ov p"
  shows "get_path (TTable (fst (merge base ov label src prfx))) p =
    (case speaks ov p of None \<Rightarrow> get_path (TTable base) p | Some r \<Rightarrow> r)"
  using assms
proof (induction base ov label src prfx arbitrary: p rule: merge.induct)
  case (1 base label src prfx)
  then show ?case by (cases p) simp_all
next
  case (2 base key v ov label src prfx)
  obtain k q where p: "p = k # q" using 2(5) by (cases p) auto
  have fresh: "map_of ov key = None" and kov: "keyed_tree (TTable ov)" and kv: "keyed_tree v"
    using 2(4) by (auto simp: keyed_def map_of_eq_None_iff)
  show ?case
  proof (cases "as_table v")
    case None
    show ?thesis
    proof (cases "k = key")
      case True
      then have "\<not> has_table ov p" "speaks ov p = None" using fresh p by simp_all
      with 2(1) [OF None kov 2(5)] None True p show ?thesis by simp
    next
      case False
      then have other: "\<not> has_table ov p" "speaks ((key, v) # ov) p = speaks ov p"
        "get_path (TTable (AList.update key v base)) p = get_path (TTable base) p" using 2(6) p by simp_all
      have "fst (merge base ((key, v) # ov) label src prfx) =
          fst (merge (AList.update key v base) ov label (AList.update (prfx @ key) label src) prfx)" using None by simp
      then show ?thesis using 2(1) [OF None kov 2(5) other(1)] other(2,3) by metis
    qed
  next
    case (Some t)
    obtain child src' where m: "merge (child_table base key) t label src (prfx @ key @ ''.'') = (child, src')" by fastforce
    note rest = 2(3) [OF Some m [symmetric] refl kov 2(5)]
    show ?thesis
    proof (cases "k = key")
      case True
      then have nt: "\<not> has_table ov p" "speaks ov p = None" using fresh p by simp_all
      have kt: "keyed_tree (TTable t)" using kv Some by (simp add: as_table_Some)
      have q: "\<not> has_table t q" using 2(6) p True Some by simp
      then have "q \<noteq> []" by auto
      from 2(2) [OF Some kt this q] m
      have "get_path (TTable child) q = (case speaks t q of None \<Rightarrow> get_path (TTable (child_table base key)) q | Some r \<Rightarrow> r)"
        by simp
      moreover have "get_path (TTable (child_table base key)) q = get_path (TTable base) p"
        using p True \<open>q \<noteq> []\<close> by (cases q) (auto simp: child_table_def split: option.splits toml.splits)
      ultimately show ?thesis using rest nt m Some p True by (cases "speaks t q") simp_all
    next
      case False
      then have other: "\<not> has_table ov p" "speaks ((key, v) # ov) p = speaks ov p"
        "get_path (TTable (AList.update key (TTable child) base)) p = get_path (TTable base) p" using 2(6) p by simp_all
      have "fst (merge base ((key, v) # ov) label src prfx) =
          fst (merge (AList.update key (TTable child) base) ov label src' prfx)" using Some m by simp
      then show ?thesis using rest [OF other(1)] other(2,3) by metis
    qed
  qed
qed


lemma merge_sources:
  "map_of (snd (merge base ov label src prfx)) d =
     (if d \<in> set (leaf_names prfx ov) then Some label else map_of src d)"
proof (induction base ov label src prfx rule: merge.induct)
  case (2 base key v ov label src prfx)
  show ?case
  proof (cases "as_table v")
    case None
    with 2(1) show ?thesis by auto
  next
    case (Some t)
    obtain child src' where m: "merge (child_table base key) t label src (prfx @ key @ ''.'') = (child, src')" by fastforce
    from 2(2) [OF Some] 2(3) [OF Some m [symmetric] refl] m Some show ?thesis by auto
  qed
qed simp

lemma keyed_tree_update:
  "keyed_tree (TTable t) \<Longrightarrow> keyed_tree v \<Longrightarrow> keyed_tree (TTable (AList.update k v t))"
proof -
  assume t: "keyed_tree (TTable t)" and v: "keyed_tree v"
  then have "keyed (AList.update k v t)" by simp
  moreover have "list_all (\<lambda>(k, v). keyed_tree v) (AList.update k v t)"
    using t v by (auto simp: list_all_iff set_update_keyed)
  ultimately show ?thesis by simp
qed

lemma keyed_child: "keyed_tree (TTable base) \<Longrightarrow> keyed_tree (TTable (child_table base key))"
proof (cases "map_of base key")
  case (Some v)
  assume "keyed_tree (TTable base)"
  then have "keyed_tree v" using Some by (auto simp: list_all_iff dest!: map_of_SomeD)
  with Some show ?thesis by (cases v) (simp_all add: child_table_def)
qed (simp add: child_table_def)

lemma merge_keyed:
  "keyed_tree (TTable base) \<Longrightarrow> keyed_tree (TTable ov) \<Longrightarrow>
   keyed_tree (TTable (fst (merge base ov label src prfx)))"
proof (induction base ov label src prfx rule: merge.induct)
  case (2 base key v ov label src prfx)
  have kov: "keyed_tree (TTable ov)" and kv: "keyed_tree v" using 2(5) by (auto simp: keyed_def)
  show ?case
  proof (cases "as_table v")
    case None
    with 2(1) [OF None _ kov] keyed_tree_update [OF 2(4) kv, of key] show ?thesis by simp
  next
    case (Some t)
    obtain child src' where m: "merge (child_table base key) t label src (prfx @ key @ ''.'') = (child, src')" by fastforce
    have "keyed_tree (TTable t)" using kv Some by (simp add: as_table_Some)
    from 2(2) [OF Some keyed_child [OF 2(4)] this] m have "keyed_tree (TTable child)" by simp
    from 2(3) [OF Some m [symmetric] refl keyed_tree_update [OF 2(4) this] kov] m Some show ?thesis by simp
  qed
qed simp

section \<open>A stack of layers\<close>

text \<open>The abstract configuration: what the last layer that speaks at a path says.\<close>

fun layered :: "ttable list \<Rightarrow> string list \<Rightarrow> toml option" where
  "layered [] p = None"
| "layered (t # below) p = (case speaks t p of Some r \<Rightarrow> r | None \<Rightarrow> layered below p)"

fun merge_layers :: "(ttable \<times> string) list \<Rightarrow> ttable \<Rightarrow> provenance \<Rightarrow> ttable \<times> provenance" where
  "merge_layers [] base src = (base, src)"
| "merge_layers ((t, label) # rest) base src =
     (let (base', src') = merge base t label src [] in merge_layers rest base' src')"

lemma merge_layers_get:
  assumes "list_all (\<lambda>(t, l). keyed_tree (TTable t) \<and> \<not> has_table t p) ls" and "p \<noteq> []"
    and "get_path (TTable base) p = layered below p"
  shows "get_path (TTable (fst (merge_layers ls base src))) p = layered (rev (map fst ls) @ below) p"
  using assms
proof (induction ls arbitrary: base src below)
  case (Cons x ls)
  obtain t l where x: "x = (t, l)" by fastforce
  obtain base' src' where m: "merge base t l src [] = (base', src')" by fastforce
  have "get_path (TTable base') p = layered (t # below) p"
    using merge_get [of t p base l src "[]"] Cons(2,3,4) x m by (cases "speaks t p") auto
  from Cons(1) [OF _ Cons(3) this] Cons(2) x m show ?case by simp
qed simp

end
