(* ===== verification/Secrets.thy ===== *)
theory Secrets
  imports Toml
begin

text \<open>
  The scan for inline secrets (\<^verbatim>\<open>config/secret_scan.py\<close>). The regular expressions are written out as
  matchers: \<open>search\<close> tries a matcher at every position, with the character before it for the look-behind
  \<^verbatim>\<open>(?<![A-Za-z0-9])\<close>. Error messages are left out; an error says which rule refused.
\<close>

section \<open>Characters\<close>

definition code :: "char \<Rightarrow> nat" where
  "code c = of_char c"

definition upper :: "char \<Rightarrow> bool" where
  "upper c \<longleftrightarrow> 65 \<le> code c \<and> code c \<le> 90"

definition lower :: "char \<Rightarrow> bool" where
  "lower c \<longleftrightarrow> 97 \<le> code c \<and> code c \<le> 122"

definition digit :: "char \<Rightarrow> bool" where
  "digit c \<longleftrightarrow> 48 \<le> code c \<and> code c \<le> 57"

definition alnum :: "char \<Rightarrow> bool" where
  "alnum c \<longleftrightarrow> upper c \<or> lower c \<or> digit c"

definition one_of :: "string \<Rightarrow> char \<Rightarrow> bool" where
  "one_of s c \<longleftrightarrow> c \<in> set s"

text \<open>\<^verbatim>\<open>str.lower\<close> on these characters.\<close>

definition lower_char :: "char \<Rightarrow> char" where
  "lower_char c =
     (if upper c \<or> (192 \<le> code c \<and> code c \<le> 222 \<and> code c \<noteq> 215) then char_of (code c + 32) else c)"

section \<open>Secret-like names\<close>

definition SECRET_WORDS :: "string list" where
  "SECRET_WORDS =
     [''credential'', ''credentials'', ''cred'', ''creds'', ''auth'', ''authorization'', ''bearer'', ''cookie'',
      ''cookies'', ''passphrase'', ''pass'', ''password'', ''passwd'', ''pwd'', ''secret'', ''secrets'', ''token'',
      ''tokens'', ''nsec'', ''apikey'', ''privkey'', ''session'', ''sessions'']"

definition KEY_SEGMENT :: string where "KEY_SEGMENT = ''key''"

definition EXEMPT_NAMES :: "string list" where "EXEMPT_NAMES = [''public_key'']"

fun camel :: "string \<Rightarrow> string" where
  "camel (c # d # cs) = (if (lower c \<or> digit c) \<and> upper d then c # CHR ''_'' # d # camel cs else c # camel (d # cs))"
| "camel cs = cs"

fun words :: "string \<Rightarrow> string list" where
  "words [] = [[]]"
| "words (c # cs) =
     (if one_of ''_-.'' c then [] # words cs
      else case words cs of [] \<Rightarrow> [[c]] | w # ws \<Rightarrow> (c # w) # ws)"

definition segments :: "string \<Rightarrow> string list" where
  "segments key = filter (\<lambda>s. s \<noteq> []) (words (map lower_char (camel key)))"

fun join_with :: "char \<Rightarrow> string list \<Rightarrow> string" where
  "join_with d [] = []"
| "join_with d [w] = w"
| "join_with d (w # ws) = w @ d # join_with d ws"

definition secret_name :: "string \<Rightarrow> bool" where
  "secret_name key =
     (let parts = segments key in
      if join_with CHR ''_'' parts \<in> set EXEMPT_NAMES then False
      else parts \<noteq> [] \<and> (last parts = KEY_SEGMENT \<or> list_ex (\<lambda>p. p \<in> set SECRET_WORDS) parts))"

section \<open>Secret-like values\<close>

type_synonym matcher = "char option \<Rightarrow> string \<Rightarrow> bool"

fun search :: "matcher \<Rightarrow> char option \<Rightarrow> string \<Rightarrow> bool" where
  "search m prev [] = m prev []"
| "search m prev (c # cs) \<longleftrightarrow> m prev (c # cs) \<or> search m (Some c) cs"

fun strip_prefix :: "string \<Rightarrow> string \<Rightarrow> string option" where
  "strip_prefix [] s = Some s"
| "strip_prefix (p # ps) [] = None"
| "strip_prefix (p # ps) (c # cs) = (if p = c then strip_prefix ps cs else None)"

definition boundary :: "char option \<Rightarrow> bool" where
  "boundary prev = (case prev of None \<Rightarrow> True | Some c \<Rightarrow> \<not> alnum c)"

definition run :: "(char \<Rightarrow> bool) \<Rightarrow> string \<Rightarrow> nat" where
  "run cls s = length (takeWhile cls s)"

definition bech :: "char \<Rightarrow> bool" where
  "bech c \<longleftrightarrow> (digit c \<and> c \<noteq> CHR ''1'') \<or> (lower c \<and> \<not> one_of ''bio'' c)"

definition token :: "string \<Rightarrow> (char \<Rightarrow> bool) \<Rightarrow> nat \<Rightarrow> matcher" where
  "token pre cls n prev s =
     (case strip_prefix pre s of None \<Rightarrow> False | Some r \<Rightarrow> boundary prev \<and> n \<le> run cls r)"

fun pem_end :: "string \<Rightarrow> bool" where
  "pem_end s \<longleftrightarrow> strip_prefix ''PRIVATE KEY-----'' s \<noteq> None \<or>
     (case s of [] \<Rightarrow> False | c # cs \<Rightarrow> (upper c \<or> digit c \<or> c = CHR '' '') \<and> pem_end cs)"

definition pem :: matcher where
  "pem prev s = (case strip_prefix ''-----BEGIN '' s of None \<Rightarrow> False | Some r \<Rightarrow> pem_end r)"

definition aws :: matcher where
  "aws prev s =
     list_ex (\<lambda>p. case strip_prefix p s of
        None \<Rightarrow> False | Some r \<Rightarrow> boundary prev \<and> run (\<lambda>c. digit c \<or> upper c) r = 16) [''AKIA'', ''ASIA'']"

definition jwt_char :: "char \<Rightarrow> bool" where
  "jwt_char c \<longleftrightarrow> alnum c \<or> one_of ''_-'' c"

definition jwt :: matcher where
  "jwt prev s =
     (case strip_prefix ''eyJ'' s of
        None \<Rightarrow> False
      | Some r \<Rightarrow> boundary prev \<and> 8 \<le> run jwt_char r \<and>
          (case strip_prefix ''.'' (dropWhile jwt_char r) of
             None \<Rightarrow> False
           | Some r2 \<Rightarrow> 8 \<le> run jwt_char r2 \<and>
               (case strip_prefix ''.'' (dropWhile jwt_char r2) of None \<Rightarrow> False | Some r3 \<Rightarrow> 8 \<le> run jwt_char r3)))"

datatype secret_kind = NostrNsec | PemKey | SkKey | GithubToken | GithubPat | SlackToken | AwsKey | Jwt

definition SECRET_VALUES :: "(secret_kind \<times> matcher) list" where
  "SECRET_VALUES =
     [(NostrNsec, token ''nsec1'' bech 20), (PemKey, pem), (SkKey, token ''sk-'' (\<lambda>c. alnum c \<or> one_of ''_-'' c) 16),
      (GithubToken, \<lambda>prev s. list_ex (\<lambda>x. token (''gh'' @ [x] @ ''_'') alnum 20 prev s) ''pousr''),
      (GithubPat, token ''github_pat_'' (\<lambda>c. alnum c \<or> c = CHR ''_'') 20),
      (SlackToken, \<lambda>prev s. list_ex (\<lambda>x. token (''xox'' @ [x] @ ''-'') (\<lambda>c. alnum c \<or> c = CHR ''-'') 10 prev s) ''baprs''),
      (AwsKey, aws), (Jwt, jwt)]"

definition secret_value :: "string \<Rightarrow> secret_kind option" where
  "secret_value s = map_option fst (find (\<lambda>(kind, m). search m None s) SECRET_VALUES)"

datatype identifier_kind = Npub | HexKey

definition npub :: matcher where
  "npub prev s = (case strip_prefix ''npub1'' (map lower_char s) of None \<Rightarrow> False | Some r \<Rightarrow> 20 \<le> run bech r)"

definition hex_key :: matcher where
  "hex_key prev s \<longleftrightarrow> 64 \<le> run (\<lambda>c. digit c \<or> one_of ''ABCDEFabcdef'' c) s"

definition identifier_of :: "string \<Rightarrow> identifier_kind option" where
  "identifier_of s = (if search npub None s then Some Npub else if search hex_key None s then Some HexKey else None)"

section \<open>The scan\<close>

datatype secret_error = InlineSecret secret_kind | NotReference string

definition reject_value :: "string \<Rightarrow> secret_error + unit" where
  "reject_value s = (case secret_value s of None \<Rightarrow> Inr () | Some k \<Rightarrow> Inl (InlineSecret k))"

fun walk :: "toml \<Rightarrow> secret_error + unit"
  and walk_list :: "toml list \<Rightarrow> secret_error + unit"
  and walk_table :: "(string \<times> toml) list \<Rightarrow> secret_error + unit" where
  "walk (TStr s) = reject_value s"
| "walk (TList vs) = walk_list vs"
| "walk (TTable t) = walk_table t"
| "walk (TInt i) = Inr ()"
| "walk (TBool b) = Inr ()"
| "walk TOther = Inr ()"
| "walk_list [] = Inr ()"
| "walk_list (v # vs) = bind_result (walk v) (\<lambda>_. walk_list vs)"
| "walk_table [] = Inr ()"
| "walk_table ((key, child) # t) =
     bind_result (reject_value key) (\<lambda>_.
       if secret_name key \<and> \<not> is_reference child then Inl (NotReference key)
       else bind_result (walk child) (\<lambda>_. walk_table t))"

definition check_secrets :: "ttable \<Rightarrow> secret_error + unit" where
  "check_secrets t = walk (TTable t)"

text \<open>Every value inside a tree, the tree included.\<close>

fun subtrees :: "toml \<Rightarrow> toml list" where
  "subtrees (TList vs) = TList vs # concat (map subtrees vs)"
| "subtrees (TTable t) = TTable t # concat (map (\<lambda>(k, v). subtrees v) t)"
| "subtrees v = [v]"

definition node_clean :: "toml \<Rightarrow> bool" where
  "node_clean v =
     (case v of
        TStr s \<Rightarrow> secret_value s = None
      | TTable t \<Rightarrow> list_all (\<lambda>(k, c). secret_value k = None \<and> (secret_name k \<longrightarrow> is_reference c)) t
      | _ \<Rightarrow> True)"

lemma reject_value_iff: "reject_value s = Inr () \<longleftrightarrow> secret_value s = None"
  by (simp add: reject_value_def split: option.splits)

lemma walk_iff:
  "walk v = Inr () \<longleftrightarrow> list_all node_clean (subtrees v)"
  "walk_list vs = Inr () \<longleftrightarrow> list_all node_clean (concat (map subtrees vs))"
  "walk_table t = Inr () \<longleftrightarrow> node_clean (TTable t) \<and> list_all node_clean (concat (map (\<lambda>(k, v). subtrees v) t))"
proof (induction v and vs and t rule: walk_walk_list_walk_table.induct)
  case (10 key child t)
  then show ?case by (cases "secret_name key \<and> \<not> is_reference child")
      (auto simp: bind_result_eq_Inr reject_value_iff node_clean_def)
qed (auto simp: node_clean_def reject_value_iff bind_result_eq_Inr)

lemma all_clean_iff:
  "(\<forall>v \<in> S. node_clean v) \<longleftrightarrow> (\<forall>s. TStr s \<in> S \<longrightarrow> secret_value s = None) \<and>
     (\<forall>t k c. TTable t \<in> S \<longrightarrow> (k, c) \<in> set t \<longrightarrow> secret_value k = None \<and> (secret_name k \<longrightarrow> is_reference c))"
  (is "?l \<longleftrightarrow> ?r")
proof
  assume r: ?r
  show ?l
  proof
    fix v assume "v \<in> S"
    then show "node_clean v" using r by (cases v) (auto simp: node_clean_def list_all_iff)
  qed
qed (fastforce simp: node_clean_def list_all_iff)

text \<open>C34. The scan is exact: a layer passes \<^verbatim>\<open>check_secrets\<close> exactly when no string anywhere in it, as a
  value, inside an array or as a key, looks like secret material, and every key with a secret-like name, at
  any depth, holds a file or command reference.\<close>

theorem check_secrets_exact:
  "check_secrets layer = Inr () \<longleftrightarrow>
     (\<forall>s. TStr s \<in> set (subtrees (TTable layer)) \<longrightarrow> secret_value s = None) \<and>
     (\<forall>t k c. TTable t \<in> set (subtrees (TTable layer)) \<longrightarrow> (k, c) \<in> set t \<longrightarrow>
        secret_value k = None \<and> (secret_name k \<longrightarrow> is_reference c))"
  unfolding check_secrets_def walk_iff(1) list_all_iff all_clean_iff ..

definition example_layer :: ttable where
  "example_layer = [(''apiKey'', TTable [(''file'', TStr ''/run/k'')]), (''model'', TList [TStr ''opus'', TInt 4])]"

theorem check_secrets_exact_witness:
  "check_secrets example_layer = Inr () \<and> is_reference (TTable [(''file'', TStr ''/run/k'')]) \<and>
   check_secrets [(''note'', TStr ''ghp_abcdefghijABCDEFGHIJ'')] = Inl (InlineSecret GithubToken)"
proof -
  have ok: "check_secrets example_layer = Inr ()" by code_simp
  have n: "secret_name ''apiKey''" by code_simp
  have "TTable example_layer \<in> set (subtrees (TTable example_layer))" by simp
  moreover have "(''apiKey'', TTable [(''file'', TStr ''/run/k'')]) \<in> set example_layer" by (simp add: example_layer_def)
  ultimately have "is_reference (TTable [(''file'', TStr ''/run/k'')])"
    using check_secrets_exact [of example_layer, THEN iffD1, OF ok] n by blast
  moreover have "check_secrets [(''note'', TStr ''ghp_abcdefghijABCDEFGHIJ'')] = Inl (InlineSecret GithubToken)" by code_simp
  ultimately show ?thesis using ok by blast
qed

end
