(* ===== verification/Config_Policy.thy ===== *)
theory Config_Policy
  imports Toml
begin

text \<open>
  Host policy and the effective tier of every action class (\<^verbatim>\<open>config/policy.py\<close>). The built-in tiers are
  a table from tier to classes; overrides and restrictions come from parsed files.
\<close>

definition RANK :: "(string, nat) table" where
  "RANK = [(''auto_approve'', 0), (''escalate'', 1), (''hard_deny'', 2)]"

definition rank :: "string \<Rightarrow> nat" where
  "rank t = (case map_of RANK t of None \<Rightarrow> 0 | Some n \<Rightarrow> n)"

definition POLICY_KEYS :: "string list" where
  "POLICY_KEYS = [''approvers'', ''identities'', ''operators'', ''tiers'', ''hard_deny_rules'', ''action_registry'',
     ''tier_floor'', ''policy'']"

definition RESTRICT_KEYS :: "string list" where
  "RESTRICT_KEYS = [''escalate'', ''hard_deny'']"

datatype policy_error = UnknownClassOrTier string | LockedLowered string | RestrictKeys | RestrictNotList string
  | RestrictUnknown string | RestrictRelaxes string | PolicyKeys | ApproversNotList | OperatorsNotList
  | OperatorsMissing | IdentitiesNotTable | IdentityNotStrings string | TiersNotStrings

record policy =
  p_approvers :: "string list"
  p_identities :: "(string, (string, string) table) table"
  p_tiers :: "(string, string) table"
  p_operators :: "string list"

section \<open>Effective tiers\<close>

definition classes_of :: "(string, string list) table \<Rightarrow> string \<Rightarrow> string list" where
  "classes_of default_tiers t = (case map_of default_tiers t of None \<Rightarrow> [] | Some cs \<Rightarrow> cs)"

definition default_tier :: "(string, string list) table \<Rightarrow> (string, string) table" where
  "default_tier d = foldl (\<lambda>m (c, t). AList.update c t m) []
     (concat (map (\<lambda>t. map (\<lambda>c. (c, t)) (classes_of d t)) (map fst RANK)))"

fun apply_overrides :: "string list \<Rightarrow> (string, string) table \<Rightarrow> (string, string) table \<Rightarrow>
    policy_error + (string, string) table" where
  "apply_overrides locked tier [] = Inr tier"
| "apply_overrides locked tier ((cls, target) # rest) =
     (case (map_of tier cls, map_of RANK target) of
        (Some t, Some n) \<Rightarrow>
          if cls \<in> set locked \<and> n < rank t then Inl (LockedLowered cls)
          else apply_overrides locked (AList.update cls target tier) rest
      | _ \<Rightarrow> Inl (UnknownClassOrTier cls))"

fun restrict_to :: "string \<Rightarrow> (string, string) table \<Rightarrow> string list \<Rightarrow> policy_error + (string, string) table" where
  "restrict_to key tier [] = Inr tier"
| "restrict_to key tier (cls # rest) =
     (case map_of tier cls of
        None \<Rightarrow> Inl (RestrictUnknown cls)
      | Some t \<Rightarrow> if rank key < rank t then Inl (RestrictRelaxes cls)
                  else restrict_to key (AList.update cls key tier) rest)"

definition restrict_key :: "ttable \<Rightarrow> (string, string) table \<Rightarrow> string \<Rightarrow> policy_error + (string, string) table" where
  "restrict_key r tier key =
     (case list_of_strings (get_default r key (TList [])) of
        None \<Rightarrow> Inl (RestrictNotList key)
      | Some classes \<Rightarrow> restrict_to key tier classes)"

definition effective_tiers :: "(string, string list) table \<Rightarrow> (string, string) table \<Rightarrow> ttable \<Rightarrow>
    policy_error + (string, string) table" where
  "effective_tiers default_tiers host_overrides restrict =
     bind_result (apply_overrides (classes_of default_tiers ''locked'') (default_tier default_tiers) host_overrides) (\<lambda>tier.
     if \<not> list_all (\<lambda>(k, v). k \<in> set RESTRICT_KEYS) restrict then Inl RestrictKeys
     else bind_result (restrict_key restrict tier ''escalate'') (\<lambda>tier.
          restrict_key restrict tier ''hard_deny''))"

section \<open>The host policy\<close>

fun string_values :: "ttable \<Rightarrow> (string, string) table option" where
  "string_values [] = Some []"
| "string_values ((k, v) # t) =
     (case v of TStr s \<Rightarrow> map_option (\<lambda>r. (k, s) # r) (string_values t) | _ \<Rightarrow> None)"

fun identity_tables :: "ttable \<Rightarrow> policy_error + (string, (string, string) table) table" where
  "identity_tables [] = Inr []"
| "identity_tables ((name, ids) # rest) =
     (case ids of
        TTable t \<Rightarrow>
          (case string_values t of
             None \<Rightarrow> Inl (IdentityNotStrings name)
           | Some fs \<Rightarrow> bind_result (identity_tables rest) (\<lambda>out. Inr ((name, fs) # out)))
      | _ \<Rightarrow> Inl (IdentityNotStrings name))"

definition identities :: "toml \<Rightarrow> policy_error + (string, (string, string) table) table" where
  "identities v = (case v of TTable t \<Rightarrow> identity_tables t | _ \<Rightarrow> Inl IdentitiesNotTable)"

definition tier_overrides :: "toml \<Rightarrow> policy_error + (string, string) table" where
  "tier_overrides v =
     (case v of
        TTable t \<Rightarrow> (case string_values t of None \<Rightarrow> Inl TiersNotStrings | Some m \<Rightarrow> Inr m)
      | _ \<Rightarrow> Inl TiersNotStrings)"

definition build_policy :: "ttable \<Rightarrow> (string, string list) table \<Rightarrow> ttable \<Rightarrow> policy_error + policy" where
  "build_policy raw default_tiers restrict =
     (if \<not> list_all (\<lambda>(k, v). k \<in> set POLICY_KEYS) raw then Inl PolicyKeys
      else case list_of_strings (get_default raw ''approvers'' (TList [])) of
        None \<Rightarrow> Inl ApproversNotList
      | Some approvers \<Rightarrow>
          (case list_of_strings (get_default raw ''operators'' (TList [])) of
             None \<Rightarrow> Inl OperatorsNotList
           | Some operators \<Rightarrow>
               if list_ex (\<lambda>o1. o1 \<notin> set approvers) operators then Inl OperatorsMissing
               else bind_result (identities (get_default raw ''identities'' (TTable []))) (\<lambda>ids.
                    bind_result (tier_overrides (get_default raw ''tiers'' (TTable []))) (\<lambda>over.
                    bind_result (effective_tiers default_tiers over restrict) (\<lambda>tiers.
                    Inr \<lparr>p_approvers = approvers, p_identities = ids, p_tiers = tiers, p_operators = operators\<rparr>)))))"

section \<open>Properties\<close>

definition at_least :: "(string, string) table \<Rightarrow> (string, string) table \<Rightarrow> string \<Rightarrow> bool" where
  "at_least low high c \<longleftrightarrow> (\<forall>t. map_of low c = Some t \<longrightarrow> (\<exists>t'. map_of high c = Some t' \<and> rank t \<le> rank t'))"

lemma at_least_refl [simp]: "at_least m m c"
  by (simp add: at_least_def)

lemma at_least_trans: "at_least a b c \<Longrightarrow> at_least b d c \<Longrightarrow> at_least a d c"
  unfolding at_least_def by (meson order_trans)

lemma at_least_update:
  "map_of m c = Some t \<Longrightarrow> rank t \<le> rank t' \<Longrightarrow> at_least m (AList.update c t' m) d"
  by (auto simp: at_least_def)

lemma overrides_locked:
  "apply_overrides locked tier over = Inr out \<Longrightarrow> c \<in> set locked \<Longrightarrow> at_least tier out c"
proof (induction locked tier over rule: apply_overrides.induct)
  case (2 locked tier cls target rest)
  obtain t n where t: "map_of tier cls = Some t" "map_of RANK target = Some n" "\<not> (cls \<in> set locked \<and> n < rank t)"
    and step: "apply_overrides locked (AList.update cls target tier) rest = Inr out"
    using 2(2) by (auto split: option.splits if_splits)
  have "at_least tier (AList.update cls target tier) c"
  proof (cases "c = cls")
    case True
    with t 2(3) show ?thesis by (intro at_least_update) (auto simp: rank_def)
  next
    case False
    then show ?thesis by (auto simp: at_least_def)
  qed
  moreover have "at_least (AList.update cls target tier) out c" using 2(1) [OF _ t(1,2) t(3) step 2(3)] by simp
  ultimately show ?case by (rule at_least_trans)
qed simp

lemma overrides_dom: "apply_overrides locked tier over = Inr out \<Longrightarrow> dom (map_of out) = dom (map_of tier)"
  by (induction locked tier over rule: apply_overrides.induct) (auto split: option.splits if_splits)

lemma restrict_to_spec:
  "restrict_to key tier cs = Inr out \<Longrightarrow>
     map_of out c = (if c \<in> set cs then Some key else map_of tier c) \<and> (c \<in> set cs \<longrightarrow> c \<in> dom (map_of tier)) \<and>
     at_least tier out c"
proof (induction key tier cs rule: restrict_to.induct)
  case (2 key tier cls rest)
  obtain t where t: "map_of tier cls = Some t" "\<not> rank key < rank t"
    and step: "restrict_to key (AList.update cls key tier) rest = Inr out"
    using 2(2) by (auto split: option.splits if_splits)
  have "at_least tier (AList.update cls key tier) c" using t by (intro at_least_update) auto
  with 2(1) [OF t step] t show ?case by (auto intro: at_least_trans split: if_splits)
qed simp

lemma restrict_to_dom: "restrict_to key tier cs = Inr out \<Longrightarrow> dom (map_of out) = dom (map_of tier)"
  by (induction key tier cs rule: restrict_to.induct) (auto split: option.splits if_splits)

text \<open>C33. A workstream can only tighten and a locked class is never relaxed: when the tiers are accepted,
  every class the host left at some tier is at that tier or a stricter one, exactly the listed classes are
  moved (a class listed as \<^verbatim>\<open>hard_deny\<close> ends there, one listed only as \<^verbatim>\<open>escalate\<close> ends there, every
  other class keeps the host's tier), no class appears or disappears, and a locked class is at its built-in
  tier or a stricter one whatever the host and the workstream say.\<close>

theorem restrictions_only_tighten:
  assumes "effective_tiers d over r = Inr tiers"
  shows "\<exists>host esc deny. apply_overrides (classes_of d ''locked'') (default_tier d) over = Inr host \<and>
    list_of_strings (get_default r ''escalate'' (TList [])) = Some esc \<and>
    list_of_strings (get_default r ''hard_deny'' (TList [])) = Some deny \<and>
    (\<forall>c. at_least host tiers c \<and>
       map_of tiers c = (if c \<in> set deny then Some ''hard_deny'' else if c \<in> set esc then Some ''escalate'' else map_of host c)) \<and>
    dom (map_of tiers) = dom (map_of (default_tier d)) \<and>
    (\<forall>c \<in> set (classes_of d ''locked''). at_least (default_tier d) tiers c)"
proof -
  from assms obtain host mid where host: "apply_overrides (classes_of d ''locked'') (default_tier d) over = Inr host"
    and mid: "restrict_key r host ''escalate'' = Inr mid" "restrict_key r mid ''hard_deny'' = Inr tiers"
    by (auto simp: effective_tiers_def bind_result_eq_Inr split: if_splits)
  from mid(1) obtain esc where esc: "list_of_strings (get_default r ''escalate'' (TList [])) = Some esc"
    "restrict_to ''escalate'' host esc = Inr mid" by (auto simp: restrict_key_def split: option.splits)
  from mid(2) obtain deny where deny: "list_of_strings (get_default r ''hard_deny'' (TList [])) = Some deny"
    "restrict_to ''hard_deny'' mid deny = Inr tiers" by (auto simp: restrict_key_def split: option.splits)
  note e = restrict_to_spec [OF esc(2)] and h = restrict_to_spec [OF deny(2)]
  have up: "at_least host tiers c" for c using e [of c] h [of c] by (blast intro: at_least_trans)
  have val: "map_of tiers c = (if c \<in> set deny then Some ''hard_deny'' else if c \<in> set esc then Some ''escalate'' else map_of host c)" for c
    using e [of c] h [of c] by simp
  have "dom (map_of tiers) = dom (map_of (default_tier d))"
    using overrides_dom [OF host] restrict_to_dom [OF esc(2)] restrict_to_dom [OF deny(2)] by simp
  moreover have "\<forall>c \<in> set (classes_of d ''locked''). at_least (default_tier d) tiers c"
    using overrides_locked [OF host] up by (blast intro: at_least_trans)
  ultimately show ?thesis using host esc(1) deny(1) up val by blast
qed

definition example_tiers :: "(string, string list) table" where
  "example_tiers = [(''auto_approve'', [''run_tests'']), (''escalate'', [''deploy'']), (''hard_deny'', [''modify_policy'']),
     (''locked'', [''modify_policy''])]"

theorem restrictions_only_tighten_witness:
  "\<exists>tiers. effective_tiers example_tiers [(''deploy'', ''auto_approve'')] [(''escalate'', TList [TStr ''run_tests''])] = Inr tiers \<and>
     map_of tiers ''run_tests'' = Some ''escalate'' \<and> at_least (default_tier example_tiers) tiers ''modify_policy'' \<and>
     effective_tiers example_tiers [(''modify_policy'', ''escalate'')] [] = Inl (LockedLowered ''modify_policy'')"
proof -
  let ?r = "[(''escalate'', TList [TStr ''run_tests''])]"
  have ok: "effective_tiers example_tiers [(''deploy'', ''auto_approve'')] ?r =
      Inr [(''run_tests'', ''escalate''), (''deploy'', ''auto_approve''), (''modify_policy'', ''hard_deny'')]" by code_simp
  have "\<forall>c \<in> set (classes_of example_tiers ''locked''). at_least (default_tier example_tiers)
      [(''run_tests'', ''escalate''), (''deploy'', ''auto_approve''), (''modify_policy'', ''hard_deny'')] c"
    using restrictions_only_tighten [OF ok] by blast
  then have "at_least (default_tier example_tiers)
      [(''run_tests'', ''escalate''), (''deploy'', ''auto_approve''), (''modify_policy'', ''hard_deny'')] ''modify_policy''"
    by (simp add: classes_of_def example_tiers_def)
  moreover have "effective_tiers example_tiers [(''modify_policy'', ''escalate'')] [] = Inl (LockedLowered ''modify_policy'')" by code_simp
  ultimately show ?thesis using ok by simp
qed

end
