(* ===== verification/Config_Layers.thy ===== *)
theory Config_Layers
  imports Secrets Config_Policy
begin

text \<open>
  The rules for each configuration layer (\<^verbatim>\<open>config/layers.py\<close>, \<^verbatim>\<open>config/profile_args.py\<close>): what the
  host file, a workstream file and the environment may set. \<^verbatim>\<open>Path.resolve\<close> reads the file system, so
  it is the argument \<open>resolve\<close>: from a path to the components of the real path, or \<open>None\<close> when it raises.
  An error names the rule that refused; the messages are left out.
\<close>

section \<open>Errors and checks in sequence\<close>

datatype cfg_error =
  NotTable string | NotStrings string | Misplaced | NotAbsolute string | Unresolvable string
  | HarnessesHostOnly | AccountsHostOnly | WorkstreamKeys | RoleNotString string | RoleUnknownProfile string
  | SandboxKeys | EgressNotApproved | MountNotApproved string
  | ProfileNotTable string | ProfileKeys string | ModelNotString string | AdapterNotKnown string
  | ArgsNotList string | ArgRefused nat | ArgNeedsValue nat | EffortUnsupported | EffortValue
  | EnvMetadata string | EnvUnknown string | EnvNotTable string
  | DecodeFailed string | SecretFound secret_error | PolicyRefused policy_error
  | NoLoginFiles string | AccountNotTable string | AccountName string | AccountReserved string | AccountKeys string
  | LoginReference string | LoginNotString string | LoginNotAbsolute string | LoginBinding string
  | ListNotNames string | ListEmpty string | ListRepeats string | ListDefault string | ListUnknown string
  | ListAdapter string | FailoverValue string | FailoverUnsupported string
  | LoginUnresolvable string | LoginUnchecked string | SharedLogin string string
  | UsageNotTable | UsageKeys | UsageValue string | RecheckBound | WindowBound string

fun check_each :: "('a \<Rightarrow> 'e + unit) \<Rightarrow> 'a list \<Rightarrow> 'e + unit" where
  "check_each f [] = Inr ()"
| "check_each f (x # xs) = bind_result (f x) (\<lambda>_. check_each f xs)"

lemma check_each_iff [result_simps]: "check_each f xs = Inr () \<longleftrightarrow> (\<forall>x \<in> set xs. f x = Inr ())"
  by (induction xs) (auto simp: bind_result_eq_Inr)

fun map_result :: "('a \<Rightarrow> 'e + 'b) \<Rightarrow> 'a list \<Rightarrow> 'e + 'b list" where
  "map_result f [] = Inr []"
| "map_result f (x # xs) = bind_result (f x) (\<lambda>y. bind_result (map_result f xs) (\<lambda>ys. Inr (y # ys)))"

lemma map_result_iff [result_simps]:
  "map_result f xs = Inr ys \<longleftrightarrow> length ys = length xs \<and> (\<forall>i < length xs. f (xs ! i) = Inr (ys ! i))"
proof (induction xs arbitrary: ys)
  case (Cons x xs)
  show ?case
  proof (cases ys)
    case (Cons y zs)
    then show ?thesis using Cons.IH [of zs] by (auto simp: bind_result_eq_Inr nth_Cons split: nat.splits)
  qed (auto simp: bind_result_eq_Inr)
qed auto

definition string_list :: "toml \<Rightarrow> string \<Rightarrow> cfg_error + string list" where
  "string_list v whr = (case list_of_strings v of None \<Rightarrow> Inl (NotStrings whr) | Some ss \<Rightarrow> Inr ss)"

definition table_at :: "ttable \<Rightarrow> string \<Rightarrow> cfg_error + ttable" where
  "table_at tree key = (case as_table (get_default tree key (TTable [])) of None \<Rightarrow> Inl (NotTable key) | Some t \<Rightarrow> Inr t)"

definition strings_at :: "ttable \<Rightarrow> string \<Rightarrow> cfg_error + string list" where
  "strings_at t key = string_list (get_default t key (TList [])) key"

type_synonym resolver = "string \<Rightarrow> string list option"

definition abs_path :: "resolver \<Rightarrow> string \<Rightarrow> cfg_error + string list" where
  "abs_path resolve v =
     (if strip_prefix ''/'' v = None then Inl (NotAbsolute v)
      else case resolve v of None \<Rightarrow> Inl (Unresolvable v) | Some p \<Rightarrow> Inr p)"

definition has_key :: "ttable \<Rightarrow> string \<Rightarrow> bool" where
  "has_key t k \<longleftrightarrow> k \<in> fst ` set t"

definition keys_within :: "ttable \<Rightarrow> string list \<Rightarrow> bool" where
  "keys_within t ks \<longleftrightarrow> list_all (\<lambda>(k, v). k \<in> set ks) t"

section \<open>The host layer\<close>

definition check_host :: "resolver \<Rightarrow> ttable \<Rightarrow> cfg_error + unit" where
  "check_host resolve host =
     (if list_ex (\<lambda>(k, v). k \<in> set POLICY_KEYS) host then Inl Misplaced
      else bind_result (table_at host ''sandbox'') (\<lambda>sandbox.
           bind_result (strings_at sandbox ''egress_approved'') (\<lambda>_.
           bind_result (strings_at sandbox ''ro_mounts_approved'') (\<lambda>roots.
           check_each (\<lambda>root. bind_result (abs_path resolve root) (\<lambda>_. Inr ())) roots))))"

section \<open>The workstream layer\<close>

definition WORKSTREAM_KEYS :: "string list" where
  "WORKSTREAM_KEYS = [''roles'', ''repos'', ''sandbox'', ''cron'', ''render'', ''timeouts'', ''restrict'']"

definition WORKSTREAM_SANDBOX_KEYS :: "string list" where
  "WORKSTREAM_SANDBOX_KEYS = [''extra_ro_mounts'', ''extra_egress'']"

definition HOST_ONLY_KEYS :: "string list" where
  "HOST_ONLY_KEYS = [''accounts'', ''usage'']"

definition check_role :: "ttable \<Rightarrow> string \<times> toml \<Rightarrow> cfg_error + unit" where
  "check_role profiles entry =
     (case entry of (role, v) \<Rightarrow>
        (case v of
           TStr profile \<Rightarrow> if has_key profiles profile then Inr () else Inl (RoleUnknownProfile role)
         | _ \<Rightarrow> Inl (RoleNotString role)))"

text \<open>\<^verbatim>\<open>Path.is_relative_to\<close> compares whole components.\<close>

definition is_relative_to :: "string list \<Rightarrow> string list \<Rightarrow> bool" where
  "is_relative_to path root \<longleftrightarrow> take (length root) path = root"

definition check_mount :: "resolver \<Rightarrow> string list list \<Rightarrow> string \<Rightarrow> cfg_error + unit" where
  "check_mount resolve roots mount =
     bind_result (abs_path resolve mount) (\<lambda>resolved.
       if list_ex (is_relative_to resolved) roots then Inr () else Inl (MountNotApproved mount))"

definition check_workstream :: "resolver \<Rightarrow> ttable \<Rightarrow> ttable \<Rightarrow> cfg_error + unit" where
  "check_workstream resolve ws merged_host =
     (if has_key ws ''harnesses'' then Inl HarnessesHostOnly
      else if list_ex (\<lambda>(k, v). k \<in> set HOST_ONLY_KEYS) ws then Inl AccountsHostOnly
      else if \<not> keys_within ws WORKSTREAM_KEYS then Inl WorkstreamKeys
      else bind_result (table_at merged_host ''profiles'') (\<lambda>profiles.
           bind_result (table_at ws ''roles'') (\<lambda>roles.
           bind_result (check_each (check_role profiles) roles) (\<lambda>_.
           bind_result (table_at ws ''sandbox'') (\<lambda>sandbox.
           bind_result (table_at ws ''restrict'') (\<lambda>restrict.
           bind_result (strings_at restrict ''escalate'') (\<lambda>_.
           bind_result (strings_at restrict ''hard_deny'') (\<lambda>_.
           if \<not> keys_within sandbox WORKSTREAM_SANDBOX_KEYS then Inl SandboxKeys
           else bind_result (table_at merged_host ''sandbox'') (\<lambda>host_sandbox.
                bind_result (strings_at host_sandbox ''egress_approved'') (\<lambda>approved.
                bind_result (strings_at sandbox ''extra_egress'') (\<lambda>extra.
                if \<not> set extra \<subseteq> set approved then Inl EgressNotApproved
                else bind_result (strings_at host_sandbox ''ro_mounts_approved'') (\<lambda>approved_roots.
                     bind_result (map_result (abs_path resolve) approved_roots) (\<lambda>roots.
                     bind_result (strings_at sandbox ''extra_ro_mounts'') (\<lambda>mounts.
                     check_each (check_mount resolve roots) mounts))))))))))))))"

section \<open>Profiles\<close>

type_synonym flag_table = "(string, bool) table"

definition FLAGS :: "(string, flag_table) table" where
  "FLAGS = [(''claude-code'', []), (''codex'', [])]"

fun check_tokens :: "flag_table \<Rightarrow> nat \<Rightarrow> string list \<Rightarrow> cfg_error + unit" where
  "check_tokens allowed i [] = Inr ()"
| "check_tokens allowed i (tok # rest) =
     (case map_of allowed tok of
        Some True \<Rightarrow> (case rest of [] \<Rightarrow> Inl (ArgNeedsValue i) | v # rest' \<Rightarrow> check_tokens allowed (i + 2) rest')
      | Some False \<Rightarrow> check_tokens allowed (i + 1) rest
      | None \<Rightarrow>
          if strip_prefix ''--'' tok \<noteq> None \<and> CHR ''='' \<in> set tok \<and>
             map_of allowed (takeWhile (\<lambda>c. c \<noteq> CHR ''='') tok) = Some True
          then check_tokens allowed (i + 1) rest else Inl (ArgRefused i))"

definition check_args :: "(string, flag_table) table \<Rightarrow> string \<Rightarrow> toml \<Rightarrow> cfg_error + unit" where
  "check_args flags adapter args =
     (case list_of_strings args of
        None \<Rightarrow> Inl (ArgsNotList adapter)
      | Some tokens \<Rightarrow> check_tokens (case map_of flags adapter of None \<Rightarrow> [] | Some a \<Rightarrow> a) 0 tokens)"

definition reasoning_effort :: "ttable \<Rightarrow> string \<Rightarrow> cfg_error + string option" where
  "reasoning_effort profile adapter =
     (case map_of profile ''reasoning_effort'' of
        None \<Rightarrow> Inr None
      | Some v \<Rightarrow>
          if adapter \<noteq> ''codex'' then Inl EffortUnsupported
          else case v of
                 TStr s \<Rightarrow> if s \<in> {''low'', ''medium'', ''high''} then Inr (Some s) else Inl EffortValue
               | _ \<Rightarrow> Inl EffortValue)"

definition PROFILE_KEYS :: "string list" where
  "PROFILE_KEYS = [''adapter'', ''model'', ''args'', ''reasoning_effort'', ''accounts'', ''failover'']"

definition model_ok :: "ttable \<Rightarrow> bool" where
  "model_ok profile = (case map_of profile ''model'' of None \<Rightarrow> True | Some (TStr m) \<Rightarrow> True | Some _ \<Rightarrow> False)"

definition check_profile :: "string list \<Rightarrow> string \<times> toml \<Rightarrow> cfg_error + unit" where
  "check_profile known entry =
     (case entry of (name, v) \<Rightarrow>
        (case as_table v of
           None \<Rightarrow> Inl (ProfileNotTable name)
         | Some profile \<Rightarrow>
             if \<not> keys_within profile PROFILE_KEYS then Inl (ProfileKeys name)
             else if \<not> model_ok profile then Inl (ModelNotString name)
             else case map_of profile ''adapter'' of
               Some (TStr adapter) \<Rightarrow>
                 if adapter \<notin> set known then Inl (AdapterNotKnown name)
                 else bind_result (check_args FLAGS adapter (get_default profile ''args'' (TList []))) (\<lambda>_.
                      bind_result (reasoning_effort profile adapter) (\<lambda>_. Inr ()))
             | _ \<Rightarrow> Inl (AdapterNotKnown name)))"

definition check_profiles :: "ttable \<Rightarrow> cfg_error + unit" where
  "check_profiles merged =
     bind_result (table_at merged ''adapters'') (\<lambda>adapters.
     bind_result (strings_at adapters ''known'') (\<lambda>known.
     bind_result (table_at merged ''profiles'') (\<lambda>profiles.
     check_each (check_profile known) profiles)))"

section \<open>The environment\<close>

definition ENV_KEYS :: "(string, string \<times> string) table" where
  "ENV_KEYS = [(''HETERODYNE_CONFIG_DIR'', (''paths'', ''config_dir'')),
     (''HETERODYNE_STATE_DIR'', (''paths'', ''state_dir'')), (''HETERODYNE_LOG_LEVEL'', (''debug'', ''log_level''))]"

definition lower_hex :: "string \<Rightarrow> bool" where
  "lower_hex s \<longleftrightarrow> list_all (\<lambda>c. digit c \<or> one_of ''abcdef'' c) s"

definition env_metadata :: "string \<Rightarrow> (string \<Rightarrow> bool) option" where
  "env_metadata var =
     (if var = ''HETERODYNE_RELEASE'' then Some (\<lambda>v. lower_hex v \<and> (length v = 40 \<or> length v = 64))
      else if var = ''HETERODYNE_UNIT_REV'' then Some (\<lambda>v. lower_hex v \<and> length v = 12)
      else None)"

definition is_ours :: "string \<Rightarrow> bool" where
  "is_ours var \<longleftrightarrow> strip_prefix ''HETERODYNE_'' var \<noteq> None"

type_synonym environment = "(string, string) table"

fun env_from :: "environment \<Rightarrow> (string, (string, toml) table) table \<Rightarrow> provenance \<Rightarrow>
    cfg_error + (string, (string, toml) table) table \<times> provenance" where
  "env_from [] layer labels = Inr (layer, labels)"
| "env_from ((var, v) # env) layer labels =
     (if \<not> is_ours var then env_from env layer labels
      else case env_metadata var of
        Some ok \<Rightarrow> if ok v then env_from env layer labels else Inl (EnvMetadata var)
      | None \<Rightarrow>
          (case map_of ENV_KEYS var of
             None \<Rightarrow> Inl (EnvUnknown var)
           | Some (tbl, key) \<Rightarrow>
               env_from env
                 (AList.update tbl (AList.update key (TStr v) (case map_of layer tbl of None \<Rightarrow> [] | Some t \<Rightarrow> t)) layer)
                 (AList.update (tbl @ ''.'' @ key) (''env:'' @ var) labels)))"

definition env_layer :: "environment \<Rightarrow> cfg_error + (string, (string, toml) table) table \<times> provenance" where
  "env_layer env = env_from env [] []"

section \<open>Properties\<close>

text \<open>C32. A workstream stays inside what the host approved: when its file is accepted it has only workstream
  keys and only the two sandbox keys, every role names a profile of the host, every extra egress host is one
  the host approved, and every extra read-only mount really resolves to a path inside a resolved approved
  root, component by component.\<close>

theorem workstream_contained:
  assumes "check_workstream resolve ws host = Inr ()"
  shows "keys_within ws WORKSTREAM_KEYS \<and>
    (\<exists>profiles roles. table_at host ''profiles'' = Inr profiles \<and> table_at ws ''roles'' = Inr roles \<and>
       (\<forall>(role, v) \<in> set roles. \<exists>profile. v = TStr profile \<and> has_key profiles profile)) \<and>
    (\<exists>sandbox host_sandbox approved extra roots mounts.
       table_at ws ''sandbox'' = Inr sandbox \<and> keys_within sandbox WORKSTREAM_SANDBOX_KEYS \<and>
       table_at host ''sandbox'' = Inr host_sandbox \<and>
       strings_at host_sandbox ''egress_approved'' = Inr approved \<and> strings_at sandbox ''extra_egress'' = Inr extra \<and>
       set extra \<subseteq> set approved \<and>
       strings_at host_sandbox ''ro_mounts_approved'' = Inr roots \<and> strings_at sandbox ''extra_ro_mounts'' = Inr mounts \<and>
       (\<forall>m \<in> set mounts. \<exists>root \<in> set roots. \<exists>p r. resolve m = Some p \<and> resolve root = Some r \<and> take (length r) p = r))"
proof -
  from assms obtain profiles roles sandbox host_sandbox approved extra roots rs mounts where
    k: "keys_within ws WORKSTREAM_KEYS" and pr: "table_at host ''profiles'' = Inr profiles" "table_at ws ''roles'' = Inr roles"
      "check_each (check_role profiles) roles = Inr ()"
    and sb: "table_at ws ''sandbox'' = Inr sandbox" "keys_within sandbox WORKSTREAM_SANDBOX_KEYS"
      "table_at host ''sandbox'' = Inr host_sandbox" "strings_at host_sandbox ''egress_approved'' = Inr approved"
      "strings_at sandbox ''extra_egress'' = Inr extra" "set extra \<subseteq> set approved"
    and mt: "strings_at host_sandbox ''ro_mounts_approved'' = Inr roots" "map_result (abs_path resolve) roots = Inr rs"
      "strings_at sandbox ''extra_ro_mounts'' = Inr mounts" "check_each (check_mount resolve rs) mounts = Inr ()"
    by (auto simp: check_workstream_def bind_result_eq_Inr simp del: check_each.simps map_result.simps split: if_splits)
  have roles: "\<forall>(role, v) \<in> set roles. \<exists>profile. v = TStr profile \<and> has_key profiles profile"
    using pr(3) unfolding check_each_iff by (fastforce simp: check_role_def split: toml.splits if_splits)
  have "\<exists>root \<in> set roots. \<exists>p r. resolve m = Some p \<and> resolve root = Some r \<and> take (length r) p = r" if "m \<in> set mounts" for m
  proof -
    have "check_mount resolve rs m = Inr ()" using mt(4) that unfolding check_each_iff by blast
    then obtain p r where p: "resolve m = Some p" and r: "r \<in> set rs" "take (length r) p = r"
      by (auto simp: check_mount_def abs_path_def bind_result_eq_Inr list_ex_iff is_relative_to_def split: if_splits option.splits)
    then obtain i where i: "i < length rs" "rs ! i = r" by (auto simp: in_set_conv_nth)
    then have "abs_path resolve (roots ! i) = Inr r" "i < length roots" using mt(2) unfolding map_result_iff by auto
    then have "resolve (roots ! i) = Some r" "roots ! i \<in> set roots" by (auto simp: abs_path_def split: if_splits option.splits)
    with p r show ?thesis by blast
  qed
  with k pr(1,2) roles sb mt(1,3) show ?thesis by blast
qed

definition example_resolve :: resolver where
  "example_resolve p = Some (filter (\<lambda>w. w \<noteq> []) (split_on CHR ''/'' p))"

definition example_host :: ttable where
  "example_host = [(''profiles'', TTable [(''main'', TTable [(''adapter'', TStr ''codex'')])]),
     (''sandbox'', TTable [(''egress_approved'', TList [TStr ''pypi.org'']), (''ro_mounts_approved'', TList [TStr ''/data''])])]"

definition example_ws :: ttable where
  "example_ws = [(''roles'', TTable [(''coder'', TStr ''main'')]),
     (''sandbox'', TTable [(''extra_egress'', TList [TStr ''pypi.org'']), (''extra_ro_mounts'', TList [TStr ''/data/x''])])]"

theorem workstream_contained_witness:
  "keys_within example_ws WORKSTREAM_KEYS \<and>
   check_workstream example_resolve [(''sandbox'', TTable [(''extra_ro_mounts'', TList [TStr ''/database''])])] example_host
     = Inl (MountNotApproved ''/database'')"
proof -
  have "check_workstream example_resolve example_ws example_host = Inr ()" by code_simp
  from workstream_contained [OF this] have "keys_within example_ws WORKSTREAM_KEYS" by blast
  moreover have "check_workstream example_resolve [(''sandbox'', TTable [(''extra_ro_mounts'', TList [TStr ''/database''])])]
      example_host = Inl (MountNotApproved ''/database'')" by code_simp
  ultimately show ?thesis by blast
qed

end
