(* ===== verification/Config_Accounts.thy ===== *)
theory Config_Accounts
  imports Config_Layers Headroom
begin

text \<open>
  Accounts, profile accounts, failover and \<^verbatim>\<open>[usage]\<close> (\<^verbatim>\<open>config/accounts.py\<close>) and the settings read
  from \<^verbatim>\<open>[usage]\<close> (\<^verbatim>\<open>UsageSettings.from_table\<close>). The file system is the record \<open>file_system\<close>:
  the real path behind a path (\<^verbatim>\<open>_resolve\<close>), the identity of a file (\<^verbatim>\<open>stat\<close>) and the home directory;
  SHA-256 is the argument \<open>sha\<close>, from text to the hex digest.
\<close>

section \<open>Logins\<close>

datatype stat_result = Missing | StatError | FileId "nat \<times> nat"

record file_system =
  fs_real :: "string \<Rightarrow> string list option"
  fs_stat :: "string list \<Rightarrow> stat_result"
  fs_home :: string

record cfg_account =
  cx_name :: string
  cx_adapter :: string
  cx_configured_dir :: string
  cx_login_dir :: "string list"
  cx_login_files :: "string list list"
  cx_key :: string

definition LOGIN_FILES :: "(string, string list) table" where
  "LOGIN_FILES = [(''claude-code'', [''.credentials.json'']), (''codex'', [''auth.json''])]"

definition path_text :: "string list \<Rightarrow> string" where
  "path_text cs = (if cs = [] then ''/'' else concat (map (\<lambda>c. CHR ''/'' # c) cs))"

definition credential_key :: "(string \<Rightarrow> string) \<Rightarrow> string \<Rightarrow> string list list \<Rightarrow> string" where
  "credential_key sha adapter login_files =
     ''ck1-'' @ take 32 (sha (join_with (CHR 0x00) (adapter # map path_text login_files)))"

definition home_dir :: "file_system \<Rightarrow> environment \<Rightarrow> string" where
  "home_dir fs env = (case map_of env ''HOME'' of Some h \<Rightarrow> if h \<noteq> [] then h else fs_home fs | None \<Rightarrow> fs_home fs)"

text \<open>Joined to the home directory, an absolute rest (\<^verbatim>\<open>~//x\<close>) stands alone, as \<^verbatim>\<open>Path\<close> joins.\<close>

definition expand :: "file_system \<Rightarrow> environment \<Rightarrow> string \<Rightarrow> string" where
  "expand fs env v =
     (if v = ''~'' \<or> strip_prefix ''~/'' v \<noteq> None
      then let rest = drop 2 v in if take 1 rest = ''/'' then rest else home_dir fs env @ ''/'' @ rest
      else v)"

definition canonical_login :: "file_system \<Rightarrow> string \<Rightarrow> string \<Rightarrow> string \<Rightarrow> environment \<Rightarrow>
    cfg_error + string list \<times> string list list" where
  "canonical_login fs name adapter dir env =
     (case fs_real fs (expand fs env dir) of
        None \<Rightarrow> Inl (LoginUnresolvable name)
      | Some login_dir \<Rightarrow>
          bind_result
            (map_result (\<lambda>f. case fs_real fs (path_text (login_dir @ [f])) of
                None \<Rightarrow> Inl (LoginUnresolvable name) | Some p \<Rightarrow> Inr p)
              (case map_of LOGIN_FILES adapter of None \<Rightarrow> [] | Some fl \<Rightarrow> fl))
            (\<lambda>files. Inr (login_dir, files)))"

definition file_id :: "file_system \<Rightarrow> cfg_account \<Rightarrow> string list \<Rightarrow> cfg_error + (nat \<times> nat) option" where
  "file_id fs account path =
     (case fs_stat fs path of
        FileId i \<Rightarrow> Inr (Some i) | Missing \<Rightarrow> Inr None | StatError \<Rightarrow> Inl (LoginUnchecked (cx_name account)))"

section \<open>Named accounts and profiles\<close>

definition NAME_ok :: "string \<Rightarrow> bool" where
  "NAME_ok name = (case name of
     [] \<Rightarrow> False
   | c # cs \<Rightarrow> (upper c \<or> lower c) \<and> length cs \<le> 63 \<and> list_all (\<lambda>c. alnum c \<or> one_of ''_-'' c) cs)"

definition ACCOUNT_KEYS :: "string list" where "ACCOUNT_KEYS = [''adapter'', ''login_dir'']"

definition named_account :: "string list \<Rightarrow> (string, capabilities) table \<Rightarrow> string \<times> toml \<Rightarrow>
    cfg_error + string \<times> string \<times> string" where
  "named_account known caps entry =
     (case entry of (name, v) \<Rightarrow>
        (case as_table v of
           None \<Rightarrow> Inl (AccountNotTable name)
         | Some account \<Rightarrow>
             if \<not> NAME_ok name then Inl (AccountName name)
             else if map lower_char name = ''default'' then Inl (AccountReserved name)
             else if \<not> keys_within account ACCOUNT_KEYS then Inl (AccountKeys name)
             else case map_of account ''adapter'' of
               Some (TStr adapter) \<Rightarrow>
                 if adapter \<notin> set known then Inl (AdapterNotKnown name)
                 else (case map_of account ''login_dir'' of
                    None \<Rightarrow> Inl (LoginNotString name)
                  | Some d \<Rightarrow>
                      if is_reference d then Inl (LoginReference name)
                      else case d of
                        TStr dir \<Rightarrow>
                          if dir = [] then Inl (LoginNotString name)
                          else if strip_prefix ''/'' dir = None \<and> strip_prefix ''~/'' dir = None
                          then Inl (LoginNotAbsolute name)
                          else if \<not> login_binding (get_or NO_CAPS caps adapter) then Inl (LoginBinding name)
                          else Inr (name, adapter, dir)
                      | _ \<Rightarrow> Inl (LoginNotString name))
             | _ \<Rightarrow> Inl (AdapterNotKnown name)))"

definition named_accounts :: "ttable \<Rightarrow> string list \<Rightarrow> (string, capabilities) table \<Rightarrow>
    cfg_error + (string, string \<times> string) table" where
  "named_accounts merged known caps =
     (case as_table (get_default merged ''accounts'' (TTable [])) of
        None \<Rightarrow> Inl (NotTable ''accounts'')
      | Some t \<Rightarrow> map_result (named_account known caps) t)"

definition listed_name :: "string \<Rightarrow> string \<Rightarrow> (string, string \<times> string) table \<Rightarrow> string list \<Rightarrow> string \<Rightarrow>
    cfg_error + unit" where
  "listed_name p adapter named names n =
     (if 1 < length (filter (\<lambda>x. x = n) names) then Inl (ListRepeats p)
      else if n = ''default'' then Inl (ListDefault p)
      else case map_of named n of
             None \<Rightarrow> Inl (ListUnknown p)
           | Some (a, d) \<Rightarrow> if a \<noteq> adapter then Inl (ListAdapter p) else Inr ())"

definition check_failover :: "string \<Rightarrow> string \<Rightarrow> (string, capabilities) table \<Rightarrow> toml \<Rightarrow> cfg_error + unit" where
  "check_failover p adapter caps v =
     (case v of
        TStr f \<Rightarrow>
          if f \<notin> {''none'', ''next''} then Inl (FailoverValue p)
          else if f = ''next'' \<and> \<not> trusted_read (get_or NO_CAPS caps adapter) then Inl (FailoverUnsupported p)
          else Inr ()
      | _ \<Rightarrow> Inl (FailoverValue p))"

text \<open>\<^verbatim>\<open>check_profiles\<close> has refused a profile that is no table or has no known adapter; those two branches
  repeat its error.\<close>

definition check_profile_accounts :: "(string, string \<times> string) table \<Rightarrow> (string, capabilities) table \<Rightarrow>
    string \<times> toml \<Rightarrow> cfg_error + unit" where
  "check_profile_accounts named caps entry =
     (case entry of
        (p, TTable profile) \<Rightarrow>
          (case map_of profile ''adapter'' of
             Some (TStr adapter) \<Rightarrow>
               bind_result
                 (case map_of profile ''accounts'' of
                    None \<Rightarrow> Inr ()
                  | Some listed \<Rightarrow>
                      (case list_of_strings listed of
                         None \<Rightarrow> Inl (ListNotNames p)
                       | Some names \<Rightarrow>
                           if names = [] then Inl (ListEmpty p)
                           else check_each (listed_name p adapter named names) names))
                 (\<lambda>_. check_failover p adapter caps (get_default profile ''failover'' (TStr ''none'')))
           | _ \<Rightarrow> Inl (AdapterNotKnown p))
      | (p, _) \<Rightarrow> Inl (ProfileNotTable p))"

section \<open>Resolving\<close>

datatype alias_kind = NestedDirs | SameFile | HardLinked

definition file_ids :: "file_system \<Rightarrow> cfg_account \<Rightarrow> cfg_error + (nat \<times> nat) option list" where
  "file_ids fs a = map_result (file_id fs a) (cx_login_files a)"

definition shares :: "'a option list \<Rightarrow> 'a option list \<Rightarrow> bool" where
  "shares xs ys \<longleftrightarrow> list_ex (\<lambda>x. x \<noteq> None \<and> x \<in> set ys) xs"

definition alias_of :: "file_system \<Rightarrow> cfg_account \<Rightarrow> cfg_account \<Rightarrow> cfg_error + alias_kind option" where
  "alias_of fs a b =
     (if is_relative_to (cx_login_dir a) (cx_login_dir b) \<or> is_relative_to (cx_login_dir b) (cx_login_dir a)
      then Inr (Some NestedDirs)
      else if list_ex (\<lambda>f. f \<in> set (cx_login_files b)) (cx_login_files a) then Inr (Some SameFile)
      else bind_result (file_ids fs a) (\<lambda>ia. bind_result (file_ids fs b) (\<lambda>ib.
           Inr (if shares ia ib then Some HardLinked else None))))"

fun pairs :: "'a list \<Rightarrow> ('a \<times> 'a) list" where
  "pairs [] = []"
| "pairs (x # xs) = map (Pair x) xs @ pairs xs"

definition check_pair :: "file_system \<Rightarrow> cfg_account \<times> cfg_account \<Rightarrow> cfg_error + unit" where
  "check_pair fs ab =
     (case ab of (a, b) \<Rightarrow>
        bind_result (alias_of fs a b) (\<lambda>why.
          case why of None \<Rightarrow> Inr () | Some k \<Rightarrow> Inl (SharedLogin (cx_name a) (cx_name b))))"

definition make_account :: "file_system \<Rightarrow> (string \<Rightarrow> string) \<Rightarrow> environment \<Rightarrow> string \<times> string \<times> string \<Rightarrow>
    cfg_error + (string \<times> string) \<times> cfg_account" where
  "make_account fs sha env entry =
     (case entry of (name, adapter, dir) \<Rightarrow>
        bind_result (canonical_login fs name adapter dir env) (\<lambda>(login_dir, files).
          Inr ((adapter, name), \<lparr>cx_name = name, cx_adapter = adapter, cx_configured_dir = dir,
            cx_login_dir = login_dir, cx_login_files = files, cx_key = credential_key sha adapter files\<rparr>)))"

definition store_accounts :: "((string \<times> string) \<times> cfg_account) list \<Rightarrow> (string \<times> string, cfg_account) table" where
  "store_accounts as = foldl (\<lambda>m (k, a). AList.update k a m) [] as"

definition resolve_accounts :: "file_system \<Rightarrow> (string \<Rightarrow> string) \<Rightarrow> ttable \<Rightarrow> environment \<Rightarrow>
    (string, capabilities) table \<Rightarrow> cfg_error + (string \<times> string, cfg_account) table" where
  "resolve_accounts fs sha merged env caps =
     bind_result (table_at merged ''adapters'') (\<lambda>adapters.
     bind_result (strings_at adapters ''known'') (\<lambda>known.
     bind_result (check_each (\<lambda>a. if map_of LOGIN_FILES a = None \<or> map_of DEFAULT_LOGIN_DIRS a = None
        then Inl (NoLoginFiles a) else Inr ()) known) (\<lambda>_.
     bind_result (named_accounts merged known caps) (\<lambda>named.
     bind_result (table_at merged ''profiles'') (\<lambda>profiles.
     bind_result (check_each (check_profile_accounts named caps) profiles) (\<lambda>_.
     bind_result (map_result (make_account fs sha env)
         (map (\<lambda>a. (''default'', a, the (map_of DEFAULT_LOGIN_DIRS a))) (sort known) @ map (\<lambda>(n, a, d). (n, a, d)) named)) (\<lambda>made.
     let found = store_accounts made in
     bind_result (check_each (check_pair fs) (pairs (map snd found))) (\<lambda>_. Inr found))))))))"

section \<open>Usage settings\<close>

definition USAGE_KEYS :: "string list" where
  "USAGE_KEYS = [''reserve_percent'', ''stale_minutes'', ''unknown_backoff_minutes'', ''untrusted_max_defer_minutes'',
     ''min_recheck_seconds'', ''max_window_hours'']"

definition usage_int :: "ttable \<Rightarrow> string \<Rightarrow> int" where
  "usage_int t k = (case map_of t k of Some (TInt i) \<Rightarrow> i | _ \<Rightarrow> 0)"

definition check_usage_key :: "ttable \<Rightarrow> string \<Rightarrow> cfg_error + unit" where
  "check_usage_key usage k =
     (case map_of usage k of
        Some (TInt i) \<Rightarrow>
          if k = ''reserve_percent'' then (if 0 \<le> i \<and> i \<le> 50 then Inr () else Inl (UsageValue k))
          else if i \<le> 0 then Inl (UsageValue k) else Inr ()
      | _ \<Rightarrow> Inl (UsageValue k))"

definition check_usage :: "ttable \<Rightarrow> cfg_error + unit" where
  "check_usage merged =
     (case as_table (get_default merged ''usage'' (TTable [])) of
        None \<Rightarrow> Inl UsageNotTable
      | Some usage \<Rightarrow>
          if \<not> keys_within usage USAGE_KEYS then Inl UsageKeys
          else bind_result (check_each (check_usage_key usage) USAGE_KEYS) (\<lambda>_.
            let bound = 60 * min (usage_int usage ''stale_minutes'')
                  (min (usage_int usage ''unknown_backoff_minutes'') (usage_int usage ''untrusted_max_defer_minutes''))
            in if usage_int usage ''min_recheck_seconds'' > bound then Inl RecheckBound
               else check_each (\<lambda>k. if usage_int usage k > 60 * usage_int usage ''max_window_hours''
                      then Inl (WindowBound k) else Inr ()) [''untrusted_max_defer_minutes'', ''unknown_backoff_minutes'']))"

text \<open>\<^verbatim>\<open>UsageSettings.from_table\<close>: a key that is absent keeps the default.\<close>

definition usage_field :: "ttable \<Rightarrow> string \<Rightarrow> int \<Rightarrow> int" where
  "usage_field t k d = (case map_of t k of Some (TInt i) \<Rightarrow> i | Some (TBool b) \<Rightarrow> (if b then 1 else 0) | _ \<Rightarrow> d)"

definition usage_from_table :: "ttable \<Rightarrow> usage_settings" where
  "usage_from_table t = \<lparr>reserve_percent = usage_field t ''reserve_percent'' 5,
     stale_minutes = usage_field t ''stale_minutes'' 30,
     unknown_backoff_minutes = usage_field t ''unknown_backoff_minutes'' 30,
     untrusted_max_defer_minutes = usage_field t ''untrusted_max_defer_minutes'' 60,
     min_recheck_seconds = usage_field t ''min_recheck_seconds'' 60,
     max_window_hours = usage_field t ''max_window_hours'' 192\<rparr>"

definition accounts_check :: "file_system \<Rightarrow> (string \<Rightarrow> string) \<Rightarrow> ttable \<Rightarrow> environment \<Rightarrow>
    (string, capabilities) table \<Rightarrow> cfg_error + (string \<times> string, cfg_account) table" where
  "accounts_check fs sha merged env caps =
     bind_result (resolve_accounts fs sha merged env caps) (\<lambda>found.
     bind_result (check_usage merged) (\<lambda>_. Inr found))"

datatype account_warning = UnusedAccounts string nat | NoFailoverAccounts string

definition warnings_of :: "string \<times> toml \<Rightarrow> account_warning list" where
  "warnings_of entry =
     (case entry of
        (p, TTable profile) \<Rightarrow>
          let listed = (case list_of_strings (get_default profile ''accounts'' (TList [])) of None \<Rightarrow> [] | Some l \<Rightarrow> l);
              failover = get_default profile ''failover'' (TStr ''none'')
          in (if 1 < length listed \<and> failover = TStr ''none'' then [UnusedAccounts p (length listed)] else [])
             @ (if failover = TStr ''next'' \<and> listed = [] then [NoFailoverAccounts p] else [])
      | _ \<Rightarrow> [])"

definition warnings :: "ttable \<Rightarrow> cfg_error + account_warning list" where
  "warnings values = bind_result (table_at values ''profiles'') (\<lambda>ps. Inr (concat (map warnings_of ps)))"

end
