(* ===== verification/Config_Rules.thy ===== *)
theory Config_Rules
  imports Config_Accounts
begin

text \<open>What the account and usage rules (\<^verbatim>\<open>config/accounts.py\<close>) guarantee.\<close>

section \<open>Usage settings\<close>

definition usage_sound :: "usage_settings \<Rightarrow> bool" where
  "usage_sound s \<longleftrightarrow> 0 \<le> reserve_percent s \<and> reserve_percent s \<le> 50 \<and> 0 < stale_minutes s \<and>
     0 < unknown_backoff_minutes s \<and> 0 < untrusted_max_defer_minutes s \<and> 0 < min_recheck_seconds s \<and> 0 < max_window_hours s \<and>
     min_recheck_seconds s \<le> 60 * stale_minutes s \<and> min_recheck_seconds s \<le> 60 * unknown_backoff_minutes s \<and>
     min_recheck_seconds s \<le> 60 * untrusted_max_defer_minutes s \<and>
     untrusted_max_defer_minutes s \<le> 60 * max_window_hours s \<and> unknown_backoff_minutes s \<le> 60 * max_window_hours s"

lemma check_usage_key_iff:
  "check_usage_key t k = Inr () \<longleftrightarrow>
     (\<exists>i. map_of t k = Some (TInt i) \<and> (if k = ''reserve_percent'' then 0 \<le> i \<and> i \<le> 50 else 0 < i))"
  by (auto simp: check_usage_key_def split: option.splits toml.splits)

lemma min3_bound:
  "(m :: int) \<le> 60 * min a (min b c) \<Longrightarrow> m \<le> 60 * a \<and> m \<le> 60 * b \<and> m \<le> 60 * c"
  by (auto simp: min_def split: if_splits)

lemma check_usage_sound:
  assumes "check_usage merged = Inr ()"
  shows "\<exists>t. table_at merged ''usage'' = Inr t \<and> usage_sound (usage_from_table t)"
proof -
  obtain t where t: "as_table (get_default merged ''usage'' (TTable [])) = Some t"
    using assms unfolding check_usage_def by (cases "as_table (get_default merged ''usage'' (TTable []))") simp_all
  let ?bound = "60 * min (usage_int t ''stale_minutes'')
      (min (usage_int t ''unknown_backoff_minutes'') (usage_int t ''untrusted_max_defer_minutes''))"
  have keys: "\<forall>k \<in> set USAGE_KEYS. check_usage_key t k = Inr ()"
    and rest: "\<not> ?bound < usage_int t ''min_recheck_seconds''"
      "check_each (\<lambda>k. if usage_int t k > 60 * usage_int t ''max_window_hours'' then Inl (WindowBound k) else Inr ())
         [''untrusted_max_defer_minutes'', ''unknown_backoff_minutes''] = Inr ()"
    using assms unfolding check_usage_def t option.case Let_def check_each_iff [symmetric]
    by (auto simp only: bind_result_eq_Inr split: if_splits) simp_all
  from rest(1) have b1: "usage_int t ''min_recheck_seconds'' \<le> ?bound" by (rule leI)
  have b2: "usage_int t ''untrusted_max_defer_minutes'' \<le> 60 * usage_int t ''max_window_hours''"
      "usage_int t ''unknown_backoff_minutes'' \<le> 60 * usage_int t ''max_window_hours''"
    using rest(2) unfolding check_each_iff by (simp_all split: if_splits)
  have f: "usage_field t k d = usage_int t k \<and> (if k = ''reserve_percent'' then 0 \<le> usage_int t k \<and> usage_int t k \<le> 50 else 0 < usage_int t k)"
    if "k \<in> set USAGE_KEYS" for k d
  proof -
    have "check_usage_key t k = Inr ()" using keys that by blast
    then obtain i where i: "map_of t k = Some (TInt i)" "if k = ''reserve_percent'' then 0 \<le> i \<and> i \<le> 50 else 0 < i"
      unfolding check_usage_key_iff by blast
    then have "usage_field t k d = i" "usage_int t k = i" by (simp_all add: usage_field_def usage_int_def)
    then show ?thesis using i(2) by (cases "k = ''reserve_percent''") simp_all
  qed
  have "usage_sound (usage_from_table t)"
    using f b2 min3_bound [OF b1] unfolding usage_sound_def usage_from_table_def by (simp add: USAGE_KEYS_def)
  moreover have "table_at merged ''usage'' = Inr t" using t by (simp add: table_at_def)
  ultimately show ?thesis by blast
qed

section \<open>Isolation of logins\<close>

definition isolated :: "file_system \<Rightarrow> cfg_account \<Rightarrow> cfg_account \<Rightarrow> bool" where
  "isolated fs a b \<longleftrightarrow> \<not> is_relative_to (cx_login_dir a) (cx_login_dir b) \<and> \<not> is_relative_to (cx_login_dir b) (cx_login_dir a) \<and>
     set (cx_login_files a) \<inter> set (cx_login_files b) = {} \<and>
     (\<forall>f \<in> set (cx_login_files a). \<forall>g \<in> set (cx_login_files b). \<forall>i. fs_stat fs f = FileId i \<longrightarrow> fs_stat fs g \<noteq> FileId i)"

lemma isolated_sym: "isolated fs a b \<Longrightarrow> isolated fs b a"
  by (auto simp: isolated_def)

lemma pairs_iff: "(\<forall>p \<in> set (pairs xs). P p) \<longleftrightarrow> sorted_wrt (\<lambda>a b. P (a, b)) xs"
  by (induction xs) auto

lemma file_ids_mem:
  assumes "file_ids fs a = Inr ids" and "f \<in> set (cx_login_files a)" and "fs_stat fs f = FileId i"
  shows "Some i \<in> set ids"
proof -
  from assms(2) obtain k where k: "k < length (cx_login_files a)" "cx_login_files a ! k = f" by (auto simp: in_set_conv_nth)
  then have "file_id fs a f = Inr (ids ! k)" "length ids = length (cx_login_files a)"
    using assms(1) unfolding file_ids_def map_result_iff by auto
  then show ?thesis using assms(3) k by (auto simp: file_id_def in_set_conv_nth split: stat_result.splits)
qed

lemma check_pair_isolated:
  assumes "check_pair fs (a, b) = Inr ()"
  shows "isolated fs a b"
proof -
  from assms have no: "alias_of fs a b = Inr None"
    by (auto simp: check_pair_def bind_result_eq_Inr split: option.splits)
  then obtain ia ib where d: "\<not> is_relative_to (cx_login_dir a) (cx_login_dir b)" "\<not> is_relative_to (cx_login_dir b) (cx_login_dir a)"
    "\<not> list_ex (\<lambda>f. f \<in> set (cx_login_files b)) (cx_login_files a)"
    and i: "file_ids fs a = Inr ia" "file_ids fs b = Inr ib" "\<not> shares ia ib"
    by (auto simp: alias_of_def bind_result_eq_Inr split: if_splits)
  have "fs_stat fs g \<noteq> FileId k" if "f \<in> set (cx_login_files a)" "g \<in> set (cx_login_files b)" "fs_stat fs f = FileId k" for f g k
  proof
    assume g: "fs_stat fs g = FileId k"
    have "Some k \<in> set ia" by (rule file_ids_mem [OF i(1) that(1,3)])
    moreover have "Some k \<in> set ib" by (rule file_ids_mem [OF i(2) that(2) g])
    ultimately show False using i(3) unfolding shares_def list_ex_iff by blast
  qed
  with d show ?thesis by (auto simp: isolated_def list_ex_iff)
qed

lemma store_keyed_gen: "keyed m \<Longrightarrow> keyed (foldl (\<lambda>m (k, a). AList.update k a m) m as)"
  by (induction as arbitrary: m) (auto simp: case_prod_beta)

lemma store_keyed: "keyed (store_accounts as)"
  unfolding store_accounts_def by (rule store_keyed_gen) simp

lemma map_of_foldl_update:
  "map_of (foldl (\<lambda>m (k, a). AList.update k a m) m as) k =
     (case map_of (rev as) k of Some a \<Rightarrow> Some a | None \<Rightarrow> map_of m k)"
  by (induction as arbitrary: m) (auto simp: map_add_def split: option.splits)

lemma resolve_accounts_isolated:
  assumes "resolve_accounts fs sha merged env caps = Inr found"
    and "map_of found k = Some a" and "map_of found k' = Some b" and "k \<noteq> k'"
  shows "isolated fs a b"
proof -
  from assms(1) obtain made where found: "found = store_accounts made" and c: "check_each (check_pair fs) (pairs (map snd found)) = Inr ()"
    by (auto simp: resolve_accounts_def bind_result_eq_Inr Let_def simp del: check_each.simps map_result.simps)
  then have s: "sorted_wrt (\<lambda>a b. check_pair fs (a, b) = Inr ()) (map snd found)"
    unfolding check_each_iff pairs_iff by blast
  obtain i j where i: "i < length found" "found ! i = (k, a)" and j: "j < length found" "found ! j = (k', b)"
    using assms(2,3) by (meson in_set_conv_nth map_of_SomeD)
  have "i \<noteq> j" using i(2) j(2) assms(4) by auto
  then consider "i < j" | "j < i" by linarith
  then show ?thesis
  proof cases
    case 1
    have "check_pair fs (map snd found ! i, map snd found ! j) = Inr ()"
      by (rule sorted_wrt_nth_less [OF s 1]) (simp add: j(1))
    then have "check_pair fs (a, b) = Inr ()" by (simp add: i j)
    then show ?thesis by (rule check_pair_isolated)
  next
    case 2
    have "check_pair fs (map snd found ! j, map snd found ! i) = Inr ()"
      by (rule sorted_wrt_nth_less [OF s 2]) (simp add: i(1))
    then have "check_pair fs (b, a) = Inr ()" by (simp add: i j)
    then show ?thesis by (rule isolated_sym [OF check_pair_isolated])
  qed
qed

end
