(* ===== verification/Config.thy ===== *)
theory Config
  imports Config_Rules
begin

text \<open>
  Loading the configuration (\<^verbatim>\<open>config/__init__.py\<close>: \<^verbatim>\<open>load\<close>, \<^verbatim>\<open>Config\<close>) and handing it to the launch
  guard (\<^verbatim>\<open>ConfiguredAccounts.from_config\<close>). The built-in defaults and the parsed files are arguments:
  \<open>read\<close> gives the table of a file under the configuration directory, empty when the file is missing, and
  \<open>None\<close> when it does not parse.
\<close>

section \<open>Loading\<close>

record config =
  cf_values :: ttable
  cf_sources :: provenance
  cf_policy :: policy
  cf_accounts :: "(string \<times> string, cfg_account) table"

definition secrets_ok :: "ttable \<Rightarrow> cfg_error + unit" where
  "secrets_ok t = (case check_secrets t of Inl e \<Rightarrow> Inl (SecretFound e) | Inr u \<Rightarrow> Inr ())"

definition read_toml :: "(string \<Rightarrow> ttable option) \<Rightarrow> string \<Rightarrow> cfg_error + ttable" where
  "read_toml read name = (case read name of None \<Rightarrow> Inl (DecodeFailed name) | Some t \<Rightarrow> Inr t)"

fun apply_env :: "ttable \<Rightarrow> (string, ttable) table \<Rightarrow> cfg_error + ttable" where
  "apply_env values [] = Inr values"
| "apply_env values ((tbl, entries) # rest) =
     (case (case map_of values tbl of None \<Rightarrow> TTable [] | Some v \<Rightarrow> v) of
        TTable t \<Rightarrow> apply_env (AList.update tbl (TTable (foldl (\<lambda>m (k, v). AList.update k v m) t entries)) values) rest
      | _ \<Rightarrow> Inl (EnvNotTable tbl))"

definition restrict_of :: "ttable \<Rightarrow> ttable" where
  "restrict_of ws = (case map_of ws ''restrict'' of Some (TTable r) \<Rightarrow> r | _ \<Rightarrow> [])"

text \<open>The packaged tiers are tables of lists of class names.\<close>

definition tiers_of :: "ttable \<Rightarrow> (string, string list) table" where
  "tiers_of defaults =
     (case map_of defaults ''tiers'' of
        Some (TTable t) \<Rightarrow> map (\<lambda>(k, v). (k, case list_of_strings v of None \<Rightarrow> [] | Some cs \<Rightarrow> cs)) t
      | _ \<Rightarrow> [])"

definition workstream_layer :: "resolver \<Rightarrow> (string \<Rightarrow> ttable option) \<Rightarrow> string \<Rightarrow> ttable \<Rightarrow> cfg_error + ttable" where
  "workstream_layer resolve read name values =
     bind_result (read_toml read (''workstreams/'' @ name @ ''.toml'')) (\<lambda>ws.
     bind_result (secrets_ok ws) (\<lambda>_.
     bind_result (check_workstream resolve ws values) (\<lambda>_. Inr ws)))"

definition apply_workstream :: "resolver \<Rightarrow> (string \<Rightarrow> ttable option) \<Rightarrow> string option \<Rightarrow> ttable \<Rightarrow> provenance \<Rightarrow>
    cfg_error + ttable \<times> provenance \<times> ttable" where
  "apply_workstream resolve read workstream values sources =
     (case workstream of
        None \<Rightarrow> Inr (values, sources, [])
      | Some name \<Rightarrow>
          if name = [] then Inr (values, sources, [])
          else bind_result (workstream_layer resolve read name values) (\<lambda>ws.
               let (values', sources') = merge values (AList.delete ''restrict'' ws) (''workstream:'' @ name @ ''.toml'') sources []
               in Inr (values', sources', restrict_of ws)))"

text \<open>The end of \<^verbatim>\<open>load\<close>: the environment, then the rules on the merged values.\<close>

definition finish_load :: "file_system \<Rightarrow> (string \<Rightarrow> string) \<Rightarrow> environment \<Rightarrow> (string, capabilities) table \<Rightarrow> ttable \<Rightarrow>
    (string, string list) table \<Rightarrow> ttable \<times> provenance \<times> ttable \<Rightarrow> cfg_error + config" where
  "finish_load fs sha env caps policy_raw tiers merged =
     (case merged of (values, sources, restrict) \<Rightarrow>
     bind_result (env_layer env) (\<lambda>(env_values, env_labels).
     bind_result (apply_env values env_values) (\<lambda>values.
     bind_result (check_profiles values) (\<lambda>_.
     bind_result (accounts_check fs sha values env caps) (\<lambda>found.
     (case build_policy policy_raw tiers restrict of
        Inl e \<Rightarrow> Inl (PolicyRefused e)
      | Inr p \<Rightarrow> Inr \<lparr>cf_values = values,
          cf_sources = foldl (\<lambda>m (k, v). AList.update k v m) sources env_labels, cf_policy = p, cf_accounts = found\<rparr>))))))"

definition load :: "file_system \<Rightarrow> (string \<Rightarrow> string) \<Rightarrow> ttable \<Rightarrow> (string \<Rightarrow> ttable option) \<Rightarrow> string option \<Rightarrow>
    environment \<Rightarrow> (string, capabilities) table \<Rightarrow> cfg_error + config" where
  "load fs sha defaults read workstream env caps =
     bind_result (secrets_ok defaults) (\<lambda>_.
     bind_result (secrets_ok (map (\<lambda>(k, v). (k, TStr v)) (filter (\<lambda>(k, v). is_ours k) env))) (\<lambda>_.
     bind_result (read_toml read ''config.toml'') (\<lambda>host.
     bind_result (secrets_ok host) (\<lambda>_.
     bind_result (check_host (fs_real fs) host) (\<lambda>_.
     bind_result (read_toml read ''policy.toml'') (\<lambda>policy_raw.
     bind_result (secrets_ok policy_raw) (\<lambda>_.
     let (values, sources) = merge_layers [(defaults, ''defaults''), (host, ''host:config.toml'')] [] [] in
     bind_result (apply_workstream (fs_real fs) read workstream values sources)
       (finish_load fs sha env caps policy_raw (tiers_of defaults)))))))))"

section \<open>The guard's view of a loaded configuration\<close>

definition failover_of :: "toml \<Rightarrow> failover" where
  "failover_of v = (if v = TStr ''next'' then FailoverNext else FailoverNone)"

definition profile_accounts_of :: "string \<times> toml \<Rightarrow> (string \<times> profile_accounts) list" where
  "profile_accounts_of entry =
     (case entry of
        (name, TTable p) \<Rightarrow>
          (case map_of p ''adapter'' of
             Some (TStr adapter) \<Rightarrow>
               [(name, \<lparr>pa_adapter = adapter,
                  pa_accounts = (case list_of_strings (get_default p ''accounts'' (TList [])) of None \<Rightarrow> [] | Some ns \<Rightarrow> ns),
                  pa_failover = failover_of (get_default p ''failover'' (TStr ''none''))\<rparr>)]
           | _ \<Rightarrow> [])
      | _ \<Rightarrow> [])"

definition from_config :: "config \<Rightarrow> (string, capabilities) table \<Rightarrow> cfg_error + configured_accounts" where
  "from_config cfg caps =
     bind_result (table_at (cf_values cfg) ''profiles'') (\<lambda>profiles.
       Inr (make_accounts (concat (map profile_accounts_of profiles))
         (map (\<lambda>(k, a). (k, cx_configured_dir a)) (cf_accounts cfg)) caps))"

definition login_key :: "file_system \<Rightarrow> (string \<Rightarrow> string) \<Rightarrow> environment \<Rightarrow> string \<Rightarrow> string \<Rightarrow> string \<Rightarrow>
    config_error + string" where
  "login_key fs sha env account adapter dir =
     (case canonical_login fs account adapter dir env of
        Inl e \<Rightarrow> Inl (LoginUnresolved account adapter)
      | Inr (login_dir, files) \<Rightarrow> Inr (credential_key sha adapter files))"

section \<open>Layering\<close>

definition env_table :: "(string, ttable) table \<Rightarrow> ttable" where
  "env_table layer = map (\<lambda>(t, e). (t, TTable e)) layer"

definition file_table :: "(string \<Rightarrow> ttable option) \<Rightarrow> string \<Rightarrow> ttable" where
  "file_table read name = (case read name of None \<Rightarrow> [] | Some t \<Rightarrow> t)"

definition ws_layer :: "(string \<Rightarrow> ttable option) \<Rightarrow> string option \<Rightarrow> ttable" where
  "ws_layer read workstream =
     (case workstream of
        None \<Rightarrow> []
      | Some name \<Rightarrow> if name = [] then []
                     else AList.delete ''restrict'' (file_table read (''workstreams/'' @ name @ ''.toml'')))"

lemma merge_leaves:
  "list_all (\<lambda>(k, v). as_table v = None) ov \<Longrightarrow>
   fst (merge base ov label src prfx) = foldl (\<lambda>m (k, v). AList.update k v m) base ov"
  by (induction base ov label src prfx rule: merge.induct) auto

text \<open>The environment's layer: one table per section, of strings, never a reference.\<close>

definition env_entries :: "ttable \<Rightarrow> bool" where
  "env_entries e \<longleftrightarrow> keyed e \<and> (\<forall>(k, v) \<in> set e. k \<notin> set REFERENCE_KEYS \<and> (\<exists>s. v = TStr s))"

definition env_shape :: "(string, ttable) table \<Rightarrow> bool" where
  "env_shape layer \<longleftrightarrow> keyed layer \<and> (\<forall>(t, e) \<in> set layer. env_entries e)"

lemma is_reference_entry: "is_reference (TTable e) \<Longrightarrow> \<exists>k v. (k, v) \<in> set e \<and> k \<in> set REFERENCE_KEYS"
  by (cases e; cases "tl e") (auto simp: is_reference_def split: toml.splits prod.splits)

lemma env_entries_leaves:
  assumes "env_entries e"
  shows "as_table (TTable e) = Some e" and "list_all (\<lambda>(k, v). as_table v = None) e"
proof -
  have "\<not> is_reference (TTable e)" using assms is_reference_entry [of e] by (auto simp: env_entries_def)
  then show "as_table (TTable e) = Some e" by (simp add: as_table_Some)
  show "list_all (\<lambda>(k, v). as_table v = None) e" using assms by (auto simp: env_entries_def list_all_iff as_table_def)
qed

lemma env_entries_update:
  "env_entries e \<Longrightarrow> k \<notin> set REFERENCE_KEYS \<Longrightarrow> env_entries (AList.update k (TStr v) e)"
  by (auto simp: env_entries_def set_update_keyed)

lemma env_shape_update:
  assumes "env_shape layer" and "k \<notin> set REFERENCE_KEYS"
  shows "env_shape (AList.update t (AList.update k (TStr v) (case map_of layer t of None \<Rightarrow> [] | Some e \<Rightarrow> e)) layer)"
proof -
  let ?e = "case map_of layer t of None \<Rightarrow> [] | Some e \<Rightarrow> e"
  have "env_entries ?e"
  proof (cases "map_of layer t")
    case (Some e)
    then have "(t, e) \<in> set layer" by (rule map_of_SomeD)
    then show ?thesis using assms(1) Some unfolding env_shape_def by fastforce
  qed (simp add: env_entries_def)
  from env_entries_update [OF this assms(2), of v] assms(1) show ?thesis
    unfolding env_shape_def by (auto simp: set_update_keyed)
qed

lemma env_from_shape:
  "env_from env layer labels = Inr (layer', labels') \<Longrightarrow> env_shape layer \<Longrightarrow> env_shape layer'"
proof (induction env layer labels rule: env_from.induct)
  case (2 var v env layer labels)
  show ?case
  proof (cases "\<not> is_ours var \<or> env_metadata var \<noteq> None")
    case True
    with 2 show ?thesis by (auto split: if_splits option.splits)
  next
    case False
    then obtain t k where tk: "map_of ENV_KEYS var = Some (t, k)" using 2(4) by (auto split: option.splits)
    then have "k \<notin> set REFERENCE_KEYS" by (auto simp: ENV_KEYS_def REFERENCE_KEYS_def split: if_splits)
    from env_shape_update [OF 2(5) this, of t v] show ?thesis
      using 2(2) [OF _ _ tk refl] 2(4) False tk by simp
  qed
qed simp

lemma apply_env_merge:
  "env_shape layer \<Longrightarrow> apply_env values layer = Inr values' \<Longrightarrow>
   values' = fst (merge values (env_table layer) label src [])"
proof (induction "values" layer arbitrary: src rule: apply_env.induct)
  case (2 vals t e rest)
  have "env_entries e" and rest: "env_shape rest" using 2(2) by (auto simp: env_shape_def keyed_def)
  note e = env_entries_leaves [OF this(1)]
  from 2(3) obtain c where c: "(case map_of vals t of None \<Rightarrow> TTable [] | Some v \<Rightarrow> v) = TTable c"
    by (auto split: toml.splits)
  then have child: "child_table vals t = c" by (auto simp: child_table_def split: option.splits)
  obtain child src' where m: "merge c e label src (t @ ''.'') = (child, src')" by fastforce
  then have "child = foldl (\<lambda>m (k, v). AList.update k v m) c e" using merge_leaves [OF e(2), of c label src "t @ ''.''"] by simp
  with 2(1) [OF c rest, of src'] 2(3) c show ?case by (simp add: env_table_def e(1) child m)
qed (simp add: env_table_def)

lemma keyed_env_table:
  assumes "env_shape layer"
  shows "keyed_tree (TTable (env_table layer))"
proof -
  have "map fst (env_table layer) = map fst layer" by (simp add: env_table_def comp_def case_prod_beta)
  then have "keyed (env_table layer)" using assms by (simp add: env_shape_def keyed_def)
  moreover have "keyed_tree (TTable e)" if "(t, e) \<in> set layer" for t e
    using assms that by (fastforce simp: env_shape_def env_entries_def list_all_iff)
  ultimately show ?thesis by (auto simp: env_table_def list_all_iff)
qed

section \<open>What a loaded configuration satisfies\<close>

lemma delete_keys_within: "keys_within t ks \<Longrightarrow> keys_within (AList.delete k t) ks"
  by (auto simp: keys_within_def list_all_iff AList.delete_eq)

lemma workstream_layer_Inr:
  assumes "workstream_layer resolve read name vals = Inr ws"
  shows "read (''workstreams/'' @ name @ ''.toml'') = Some ws \<and> keys_within ws WORKSTREAM_KEYS"
  using assms
  by (auto simp: workstream_layer_def bind_result_eq_Inr read_toml_def check_workstream_def split: option.splits if_splits)

lemma apply_workstream_Inr:
  assumes "apply_workstream resolve read workstream vals srcs = Inr (vals2, srcs2, restrict)"
  shows "\<exists>label. vals2 = fst (merge vals (ws_layer read workstream) label srcs []) \<and>
    keys_within (ws_layer read workstream) WORKSTREAM_KEYS"
proof (cases "workstream = None \<or> workstream = Some []")
  case True
  then have "ws_layer read workstream = []" "vals2 = vals"
    using assms by (auto simp: ws_layer_def apply_workstream_def)
  then show ?thesis by (simp add: keys_within_def)
next
  case False
  then obtain name where n: "workstream = Some name" "name \<noteq> []" by auto
  then obtain ws where ws: "workstream_layer resolve read name vals = Inr ws"
    and v: "vals2 = fst (merge vals (AList.delete ''restrict'' ws) (''workstream:'' @ name @ ''.toml'') srcs [])"
    using assms by (auto simp: apply_workstream_def bind_result_eq_Inr case_prod_beta)
  from workstream_layer_Inr [OF ws] have "ws_layer read workstream = AList.delete ''restrict'' ws" "keys_within ws WORKSTREAM_KEYS"
    using n by (simp_all add: ws_layer_def file_table_def)
  with v delete_keys_within show ?thesis by auto
qed

lemma finish_load_Inr:
  assumes "finish_load fs sha env caps pol tiers (vals, srcs, restrict) = Inr cfg"
  shows "\<exists>envv labels. env_layer env = Inr (envv, labels) \<and> apply_env vals envv = Inr (cf_values cfg) \<and>
    check_profiles (cf_values cfg) = Inr () \<and> accounts_check fs sha (cf_values cfg) env caps = Inr (cf_accounts cfg)"
proof -
  from assms obtain envv labels v found where "env_layer env = Inr (envv, labels)" "apply_env vals envv = Inr v"
    "check_profiles v = Inr ()" "accounts_check fs sha v env caps = Inr found"
    and b: "(case build_policy pol tiers restrict of Inl e \<Rightarrow> Inl (PolicyRefused e)
      | Inr p \<Rightarrow> Inr \<lparr>cf_values = v, cf_sources = foldl (\<lambda>m (k, v). AList.update k v m) srcs labels,
          cf_policy = p, cf_accounts = found\<rparr>) = Inr cfg"
    unfolding finish_load_def bind_result_eq_Inr prod.case by (auto simp: bind_result_eq_Inr)
  moreover from b have "cf_values cfg = v \<and> cf_accounts cfg = found" by (auto split: sum.splits)
  ultimately show ?thesis by blast
qed

lemma loadE:
  assumes "load fs sha defaults read workstream env caps = Inr cfg"
  obtains label envv labels where
    "keys_within (ws_layer read workstream) WORKSTREAM_KEYS"
    "env_layer env = Inr (envv, labels)"
    "apply_env (fst (merge_layers [(defaults, ''defaults''), (file_table read ''config.toml'', ''host:config.toml''),
        (ws_layer read workstream, label)] [] [])) envv = Inr (cf_values cfg)"
    "check_profiles (cf_values cfg) = Inr ()"
    "accounts_check fs sha (cf_values cfg) env caps = Inr (cf_accounts cfg)"
proof -
  from assms obtain host pol where host: "read ''config.toml'' = Some host"
    and l: "(let (vals, srcs) = merge_layers [(defaults, ''defaults''), (host, ''host:config.toml'')] [] [] in
      bind_result (apply_workstream (fs_real fs) read workstream vals srcs) (finish_load fs sha env caps pol (tiers_of defaults))) = Inr cfg"
    unfolding load_def bind_result_eq_Inr read_toml_def by (auto split: option.splits)
  obtain vals srcs where m: "merge_layers [(defaults, ''defaults''), (host, ''host:config.toml'')] [] [] = (vals, srcs)" by fastforce
  from l m obtain vals2 srcs2 restrict where w: "apply_workstream (fs_real fs) read workstream vals srcs = Inr (vals2, srcs2, restrict)"
    and f: "finish_load fs sha env caps pol (tiers_of defaults) (vals2, srcs2, restrict) = Inr cfg"
    by (auto simp: bind_result_eq_Inr simp del: merge_layers.simps)
  from apply_workstream_Inr [OF w] obtain label where v: "vals2 = fst (merge vals (ws_layer read workstream) label srcs [])"
    and k: "keys_within (ws_layer read workstream) WORKSTREAM_KEYS" by blast
  have "vals2 = fst (merge_layers [(defaults, ''defaults''), (file_table read ''config.toml'', ''host:config.toml''),
      (ws_layer read workstream, label)] [] [])"
    using m v host by (auto simp: file_table_def case_prod_beta)
  with finish_load_Inr [OF f] that [OF k] show thesis by blast
qed

lemma speaks_outside: "keys_within t ks \<Longrightarrow> k \<notin> set ks \<Longrightarrow> speaks t (k # p) = None \<and> \<not> has_table t (k # p)"
proof -
  assume "keys_within t ks" "k \<notin> set ks"
  then have "map_of t k = None" by (auto simp: keys_within_def list_all_iff map_of_eq_None_iff)
  then show ?thesis by simp
qed

lemma keyed_tree_delete: "keyed_tree (TTable t) \<Longrightarrow> keyed_tree (TTable (AList.delete k t))"
  by (auto simp: list_all_iff AList.delete_eq)

text \<open>The documents \<^verbatim>\<open>tomllib\<close> returns: dicts, so no table has a key twice.\<close>

definition parsed :: "ttable \<Rightarrow> (string \<Rightarrow> ttable option) \<Rightarrow> bool" where
  "parsed defaults read \<longleftrightarrow> keyed_tree (TTable defaults) \<and> (\<forall>f t. read f = Some t \<longrightarrow> keyed_tree (TTable t))"

lemma parsed_layers:
  assumes "parsed defaults read"
  shows "keyed_tree (TTable (file_table read f))" and "keyed_tree (TTable (ws_layer read w))"
proof -
  show f: "keyed_tree (TTable (file_table read f))" for f
    using assms by (cases "read f") (simp_all add: parsed_def file_table_def)
  show "keyed_tree (TTable (ws_layer read w))"
    using f keyed_tree_delete by (cases w) (simp_all add: ws_layer_def)
qed

lemma merge_layers_keyed:
  "list_all (\<lambda>(t, l). keyed_tree (TTable t)) ls \<Longrightarrow> keyed_tree (TTable base) \<Longrightarrow>
   keyed_tree (TTable (fst (merge_layers ls base src)))"
proof (induction ls arbitrary: base src)
  case (Cons x ls)
  obtain t l where x: "x = (t, l)" by fastforce
  have "keyed_tree (TTable (fst (merge base t l src [])))"
    by (rule merge_keyed [OF Cons(3)]) (use Cons(2) x in \<open>simp del: keyed_tree.simps\<close>)
  from Cons(1) [OF _ this] Cons(2) show ?case by (simp add: x case_prod_beta del: keyed_tree.simps)
qed simp

lemma load_env_shape: "env_layer env = Inr (envv, labels) \<Longrightarrow> env_shape envv"
  using env_from_shape [of env "[]" "[]" envv labels] by (simp add: env_layer_def env_shape_def)

lemma load_keyed:
  assumes "load fs sha defaults read workstream env caps = Inr cfg" and "parsed defaults read"
  shows "keyed_tree (TTable (cf_values cfg))"
proof -
  from loadE [OF assms(1)] obtain label envv labels where env: "env_layer env = Inr (envv, labels)"
    and ap: "apply_env (fst (merge_layers [(defaults, ''defaults''), (file_table read ''config.toml'', ''host:config.toml''),
        (ws_layer read workstream, label)] [] [])) envv = Inr (cf_values cfg)" by metis
  show ?thesis unfolding apply_env_merge [OF load_env_shape [OF env] ap, of label "[]"]
  proof (rule merge_keyed [OF merge_layers_keyed keyed_env_table [OF load_env_shape [OF env]]])
    show "list_all (\<lambda>(t, l). keyed_tree (TTable t)) [(defaults, ''defaults''), (file_table read ''config.toml'', ''host:config.toml''),
        (ws_layer read workstream, label)]"
      using assms(2) parsed_layers [OF assms(2)] by (simp add: parsed_def del: keyed_tree.simps)
  qed simp
qed

text \<open>C30. A loaded configuration is its layers: at every path where no layer has a table, a reader finds what
  the last layer says that says anything there, in the order environment, workstream (its restrictions
  aside), host file, built-in defaults; and outside the workstream keys (so for accounts, usage, profiles,
  adapters and every other host setting) the workstream has no say at all.\<close>

theorem load_refines_layers:
  assumes "load fs sha defaults read workstream env caps = Inr cfg" and "parsed defaults read"
  shows "\<exists>envv labels. env_layer env = Inr (envv, labels) \<and>
    (\<forall>k p. (\<forall>t \<in> {env_table envv, ws_layer read workstream, file_table read ''config.toml'', defaults}. \<not> has_table t (k # p)) \<longrightarrow>
       get_path (TTable (cf_values cfg)) (k # p) =
         layered [env_table envv, ws_layer read workstream, file_table read ''config.toml'', defaults] (k # p) \<and>
       (k \<notin> set WORKSTREAM_KEYS \<longrightarrow>
          get_path (TTable (cf_values cfg)) (k # p) = layered [env_table envv, file_table read ''config.toml'', defaults] (k # p)))"
proof -
  from loadE [OF assms(1)] obtain label envv labels where
    kw: "keys_within (ws_layer read workstream) WORKSTREAM_KEYS" and env: "env_layer env = Inr (envv, labels)"
    and ap: "apply_env (fst (merge_layers [(defaults, ''defaults''), (file_table read ''config.toml'', ''host:config.toml''),
        (ws_layer read workstream, label)] [] [])) envv = Inr (cf_values cfg)" by metis
  let ?below = "[(defaults, ''defaults''), (file_table read ''config.toml'', ''host:config.toml''), (ws_layer read workstream, label)]"
  have es: "env_shape envv" using env by (rule load_env_shape)
  have vals: "cf_values cfg = fst (merge (fst (merge_layers ?below [] [])) (env_table envv) label (snd (merge_layers ?below [] [])) [])"
    by (rule apply_env_merge [OF es ap])
  have keyed: "keyed_tree (TTable defaults)" "keyed_tree (TTable (file_table read ''config.toml''))"
    "keyed_tree (TTable (ws_layer read workstream))" "keyed_tree (TTable (env_table envv))"
    using assms(2) parsed_layers [OF assms(2)] keyed_env_table [OF es] by (simp_all add: parsed_def del: keyed_tree.simps)
  have "get_path (TTable (cf_values cfg)) (k # p) =
      layered [env_table envv, ws_layer read workstream, file_table read ''config.toml'', defaults] (k # p)"
    if no: "\<forall>t \<in> {env_table envv, ws_layer read workstream, file_table read ''config.toml'', defaults}. \<not> has_table t (k # p)" for k p
  proof -
    have "get_path (TTable (fst (merge_layers ?below [] []))) (k # p) = layered (rev (map fst ?below) @ []) (k # p)"
      by (rule merge_layers_get) (use keyed no in \<open>simp_all del: keyed_tree.simps has_table.simps\<close>)
    moreover have nt: "\<not> has_table (env_table envv) (k # p)" using no by blast
    ultimately show ?thesis
      unfolding vals merge_get [OF keyed(4) list.distinct(2) nt]
      by (cases "speaks (env_table envv) (k # p)") (simp_all del: get_path.simps speaks.simps)
  qed
  moreover have "layered [env_table envv, ws_layer read workstream, file_table read ''config.toml'', defaults] (k # p) =
      layered [env_table envv, file_table read ''config.toml'', defaults] (k # p)" if "k \<notin> set WORKSTREAM_KEYS" for k p
    using speaks_outside [OF kw that] by (cases "speaks (env_table envv) (k # p)") (simp_all del: speaks.simps has_table.simps)
  ultimately show ?thesis using env by metis
qed

definition example_fs :: file_system where
  "example_fs = \<lparr>fs_real = \<lambda>p. Some (filter (\<lambda>w. w \<noteq> []) (split_on CHR ''/'' p)), fs_stat = \<lambda>_. Missing, fs_home = ''/home/h''\<rparr>"

definition example_defaults :: ttable where
  "example_defaults = [(''adapters'', TTable [(''known'', TList [TStr ''codex''])]),
     (''timeouts'', TTable [(''reminder_hours'', TInt 4)]),
     (''usage'', TTable [(''reserve_percent'', TInt 5), (''stale_minutes'', TInt 30), (''unknown_backoff_minutes'', TInt 30),
        (''untrusted_max_defer_minutes'', TInt 60), (''min_recheck_seconds'', TInt 60), (''max_window_hours'', TInt 192)])]"

definition example_read :: "string \<Rightarrow> ttable option" where
  "example_read f =
     (if f = ''config.toml'' then
        Some [(''profiles'', TTable [(''main'', TTable [(''adapter'', TStr ''codex''), (''accounts'', TList [TStr ''work''])])]),
          (''accounts'', TTable [(''work'', TTable [(''adapter'', TStr ''codex''), (''login_dir'', TStr ''/srv/work'')])])]
      else if f = ''workstreams/w.toml'' then Some [(''timeouts'', TTable [(''reminder_hours'', TInt 8)])]
      else Some [])"

definition example_caps :: "(string, capabilities) table" where
  "example_caps = [(''codex'', NO_CAPS\<lparr>login_binding := True\<rparr>)]"

definition example_load :: "cfg_error + config" where
  "example_load = load example_fs (\<lambda>s. s) example_defaults example_read (Some ''w'') [(''HETERODYNE_LOG_LEVEL'', ''debug'')] example_caps"

lemma example_loads: "\<exists>cfg. example_load = Inr cfg"
proof -
  have "\<not> isl example_load" by code_simp
  then have "Inr (projr example_load) = example_load" by (rule sum.collapse(2))
  then show ?thesis by metis
qed

lemma example_parsed: "parsed example_defaults example_read"
  by (auto simp: parsed_def example_defaults_def example_read_def keyed_def split: if_splits)

theorem load_refines_layers_witness:
  "\<exists>cfg. example_load = Inr cfg \<and> get_path (TTable (cf_values cfg)) [''timeouts'', ''reminder_hours''] = Some (TInt 8)"
proof -
  from example_loads obtain cfg where l: "example_load = Inr cfg" by blast
  from load_refines_layers [OF l [unfolded example_load_def] example_parsed] obtain envv labels where
    e: "env_layer [(''HETERODYNE_LOG_LEVEL'', ''debug'')] = Inr (envv, labels)"
    and g: "\<forall>t \<in> {env_table envv, ws_layer example_read (Some ''w''), file_table example_read ''config.toml'', example_defaults}.
        \<not> has_table t [''timeouts'', ''reminder_hours''] \<Longrightarrow>
      get_path (TTable (cf_values cfg)) [''timeouts'', ''reminder_hours''] =
        layered [env_table envv, ws_layer example_read (Some ''w''), file_table example_read ''config.toml'', example_defaults]
          [''timeouts'', ''reminder_hours'']" by blast
  have "env_layer [(''HETERODYNE_LOG_LEVEL'', ''debug'')] = Inr ([(''debug'', [(''log_level'', TStr ''debug'')])],
      [(''debug.log_level'', ''env:HETERODYNE_LOG_LEVEL'')])" by code_simp
  with e have v: "envv = [(''debug'', [(''log_level'', TStr ''debug'')])]" by simp
  have n: "\<forall>t \<in> {env_table envv, ws_layer example_read (Some ''w''), file_table example_read ''config.toml'', example_defaults}.
        \<not> has_table t [''timeouts'', ''reminder_hours'']" unfolding v by code_simp
  have "layered [env_table envv, ws_layer example_read (Some ''w''), file_table example_read ''config.toml'', example_defaults]
          [''timeouts'', ''reminder_hours''] = Some (TInt 8)" unfolding v by code_simp
  with g [OF n] have "get_path (TTable (cf_values cfg)) [''timeouts'', ''reminder_hours''] = Some (TInt 8)" by (rule trans)
  with l show ?thesis by blast
qed

end
