(* ===== verification/Config_Guard.thy ===== *)
theory Config_Guard
  imports Config
begin

text \<open>
  A loaded configuration and the launch guard's accounts (\<^verbatim>\<open>ConfiguredAccounts\<close>): every profile resolves to
  the accounts the configuration found, under the keys it computed.
\<close>

lemma keyed_tree_at: "keyed_tree (TTable t) \<Longrightarrow> table_at t k = Inr u \<Longrightarrow> keyed_tree (TTable u)"
proof (cases "map_of t k")
  case (Some v)
  assume kt: "keyed_tree (TTable t)" and u: "table_at t k = Inr u"
  have "keyed_tree v" using kt Some by (auto simp: list_all_iff dest!: map_of_SomeD)
  then show ?thesis using u Some by (auto simp: table_at_def get_default_def as_table_Some split: option.splits)
qed (auto simp: table_at_def get_default_def as_table_def is_reference_def)

lemma named_account_Inr:
  assumes "named_account known caps e = Inr r"
  shows "fst r = fst e \<and> fst r \<noteq> ''default''"
proof -
  obtain n v where e: "e = (n, v)" by fastforce
  have l: "map lower_char ''default'' = ''default''" by code_simp
  from assms obtain a d where "r = (n, a, d)" "map lower_char n \<noteq> ''default''"
    unfolding e by (auto simp: named_account_def split: option.splits toml.splits if_splits)
  with e l show ?thesis by auto
qed

lemma make_account_Inr:
  assumes "make_account fs sha env (n, ad, d) = Inr r"
  obtains a where "r = ((ad, n), a)" "cx_configured_dir a = d" "login_key fs sha env n ad d = Inr (cx_key a)"
proof -
  from assms obtain ld fls where c: "canonical_login fs n ad d env = Inr (ld, fls)"
    and r: "r = ((ad, n), \<lparr>cx_name = n, cx_adapter = ad, cx_configured_dir = d, cx_login_dir = ld, cx_login_files = fls,
      cx_key = credential_key sha ad fls\<rparr>)" by (auto simp: make_account_def bind_result_eq_Inr)
  show thesis by (rule that [OF r]) (simp_all add: login_key_def c)
qed

lemma named_accounts_spec:
  assumes "named_accounts merged known caps = Inr named" and "keyed_tree (TTable merged)"
  shows "keyed named" and "''default'' \<notin> fst ` set named"
proof -
  obtain t where t: "as_table (get_default merged ''accounts'' (TTable [])) = Some t"
    and m: "map_result (named_account known caps) t = Inr named"
    using assms(1) by (auto simp: named_accounts_def split: option.splits)
  then have kt: "keyed_tree (TTable t)" using keyed_tree_at [OF assms(2), of "''accounts''" t] by (simp add: table_at_def)
  have nm: "fst (named ! i) = fst (t ! i) \<and> fst (named ! i) \<noteq> ''default''" if "i < length t" for i
  proof -
    have "named_account known caps (t ! i) = Inr (named ! i)" using m that unfolding map_result_iff by blast
    then show ?thesis using named_account_Inr by metis
  qed
  have len: "length named = length t" using m unfolding map_result_iff by blast
  then have "map fst named = map fst t" using nm by (simp add: list_eq_iff_nth_eq)
  then show "keyed named" using kt by (simp add: keyed_def)
  show "''default'' \<notin> fst ` set named"
  proof
    assume "''default'' \<in> fst ` set named"
    then obtain i where "i < length named" "fst (named ! i) = ''default''" by (auto simp: in_set_conv_nth)
    with nm len show False by metis
  qed
qed

lemma made_lookup:
  assumes "map_result (make_account fs sha env) entries = Inr made" and "(name, adapter, dir) \<in> set entries"
    and "\<And>d. (name, adapter, d) \<in> set entries \<Longrightarrow> d = dir"
  shows "\<exists>a. map_of (store_accounts made) (adapter, name) = Some a \<and> cx_configured_dir a = dir \<and>
    login_key fs sha env name adapter dir = Inr (cx_key a)"
proof -
  have len: "length made = length entries" and mk: "i < length entries \<Longrightarrow> make_account fs sha env (entries ! i) = Inr (made ! i)" for i
    using assms(1) unfolding map_result_iff by auto
  have good: "k = (adapter, name) \<Longrightarrow> cx_configured_dir a = dir \<and> login_key fs sha env name adapter dir = Inr (cx_key a)"
    if "(k, a) \<in> set made" for k a
  proof -
    assume k: "k = (adapter, name)"
    from that obtain i where i: "i < length entries" "made ! i = (k, a)" using len by (auto simp: in_set_conv_nth)
    obtain n ad d where e: "entries ! i = (n, ad, d)" by (metis prod_cases3)
    from mk [OF i(1)] i(2) e have "make_account fs sha env (n, ad, d) = Inr (k, a)" by simp
    from make_account_Inr [OF this] k have "n = name" "ad = adapter"
      and a: "cx_configured_dir a = d" "login_key fs sha env n ad d = Inr (cx_key a)" by auto
    moreover have "d = dir" using assms(3) nth_mem [OF i(1)] e calculation(1,2) by simp
    ultimately show ?thesis by simp
  qed
  obtain i where i: "i < length entries" "entries ! i = (name, adapter, dir)" using assms(2) by (auto simp: in_set_conv_nth)
  then obtain b where "made ! i = ((adapter, name), b)" using mk [OF i(1)] make_account_Inr by metis
  then have "((adapter, name), b) \<in> set (rev made)" using i(1) len by (metis nth_mem set_rev)
  then obtain a where a: "map_of (rev made) (adapter, name) = Some a" by (metis map_of_eq_None_iff fst_conv imageI option.exhaust)
  then have "map_of (store_accounts made) (adapter, name) = Some a" by (simp add: store_accounts_def map_of_foldl_update)
  moreover have "((adapter, name), a) \<in> set made" using a by (auto dest: map_of_SomeD)
  ultimately show ?thesis using good by blast
qed


lemma check_profile_accounts_Inr:
  assumes "check_profile_accounts named caps (p, v) = Inr ()"
  obtains profile adapter names where "v = TTable profile" "map_of profile ''adapter'' = Some (TStr adapter)"
    "list_of_strings (get_default profile ''accounts'' (TList [])) = Some names"
    "\<And>n. n \<in> set names \<Longrightarrow> n \<noteq> ''default'' \<and> (\<exists>d. map_of named n = Some (adapter, d))"
proof -
  from assms obtain profile adapter where pr: "v = TTable profile" "map_of profile ''adapter'' = Some (TStr adapter)"
    by (auto simp: check_profile_accounts_def split: toml.splits option.splits)
  show thesis
  proof (cases "map_of profile ''accounts''")
    case None
    then have "list_of_strings (get_default profile ''accounts'' (TList [])) = Some []"
      by (simp add: get_default_def list_of_strings_def)
    with that pr show thesis by fastforce
  next
    case (Some l)
    then obtain names where n: "list_of_strings l = Some names" "\<forall>n \<in> set names. listed_name p adapter named names n = Inr ()"
      using assms pr by (auto simp: check_profile_accounts_def bind_result_eq_Inr check_each_iff simp del: check_each.simps
          split: option.splits if_splits)
    have "n \<noteq> ''default'' \<and> (\<exists>d. map_of named n = Some (adapter, d))" if "n \<in> set names" for n
    proof -
      have "listed_name p adapter named names n = Inr ()" using n(2) that by blast
      then show ?thesis by (auto simp: listed_name_def split: if_splits option.splits)
    qed
    moreover have "list_of_strings (get_default profile ''accounts'' (TList [])) = Some names"
      using n(1) Some by (simp add: get_default_def)
    ultimately show thesis using that pr by blast
  qed
qed

lemma known_adapter:
  assumes "check_profile known (p, TTable profile) = Inr ()" and "map_of profile ''adapter'' = Some (TStr adapter)"
  shows "adapter \<in> set known"
  using assms by (auto simp: check_profile_def as_table_Some split: option.splits if_splits)

lemma resolve_all_ok:
  "(\<And>n. n \<in> set ns \<Longrightarrow> \<exists>k. key n = Inr k) \<Longrightarrow>
   \<exists>cs. resolve_all key ns = Inr cs \<and> map ca_account cs = ns \<and> (\<forall>c \<in> set cs. key (ca_account c) = Inr (ca_key c))"
proof (induction ns)
  case (Cons n ns)
  then obtain k cs where "key n = Inr k" "resolve_all key ns = Inr cs" "map ca_account cs = ns"
    "\<forall>c \<in> set cs. key (ca_account c) = Inr (ca_key c)" by (meson list.set_intros)
  then show ?case by auto
qed simp

lemma profiles_lookup:
  assumes "keyed ps" and "(p, TTable profile) \<in> set ps" and "map_of profile ''adapter'' = Some (TStr adapter)"
  shows "map_of (concat (map profile_accounts_of ps)) p =
    Some \<lparr>pa_adapter = adapter,
      pa_accounts = (case list_of_strings (get_default profile ''accounts'' (TList [])) of None \<Rightarrow> [] | Some ns \<Rightarrow> ns),
      pa_failover = failover_of (get_default profile ''failover'' (TStr ''none''))\<rparr>"
  using assms(1,2)
proof (induction ps)
  case (Cons x ps)
  have own: "fst ` set (profile_accounts_of y) \<subseteq> {fst y}" for y
    by (cases y) (auto simp: profile_accounts_of_def split: toml.splits option.splits)
  show ?case
  proof (cases "x = (p, TTable profile)")
    case True
    then show ?thesis using assms(3) by (simp add: profile_accounts_of_def)
  next
    case False
    then have "(p, TTable profile) \<in> set ps" "fst x \<noteq> p" using Cons(2,3) by (auto simp: keyed_def image_iff)
    moreover have "map_of (profile_accounts_of x) p = None"
      using own [of x] calculation(2) by (auto simp: map_of_eq_None_iff)
    ultimately show ?thesis using Cons(1) Cons(2) by (simp add: keyed_def map_add_def)
  qed
qed simp

lemma resolve_accountsE:
  assumes "resolve_accounts fs sha merged env caps = Inr found"
  obtains adapters known named profiles made where
    "table_at merged ''adapters'' = Inr adapters" "strings_at adapters ''known'' = Inr known"
    "\<And>a. a \<in> set known \<Longrightarrow> map_of DEFAULT_LOGIN_DIRS a \<noteq> None"
    "named_accounts merged known caps = Inr named" "table_at merged ''profiles'' = Inr profiles"
    "\<And>e. e \<in> set profiles \<Longrightarrow> check_profile_accounts named caps e = Inr ()"
    "map_result (make_account fs sha env)
      (map (\<lambda>a. (''default'', a, the (map_of DEFAULT_LOGIN_DIRS a))) (sort known) @ map (\<lambda>(n, a, d). (n, a, d)) named) = Inr made"
    "found = store_accounts made"
proof -
  from assms obtain adapters known named profiles made where a: "table_at merged ''adapters'' = Inr adapters"
    "strings_at adapters ''known'' = Inr known"
    and kn: "check_each (\<lambda>a. if map_of LOGIN_FILES a = None \<or> map_of DEFAULT_LOGIN_DIRS a = None
        then Inl (NoLoginFiles a) else Inr ()) known = Inr ()"
    and b: "named_accounts merged known caps = Inr named" "table_at merged ''profiles'' = Inr profiles"
    and pr: "check_each (check_profile_accounts named caps) profiles = Inr ()"
    and c: "map_result (make_account fs sha env)
      (map (\<lambda>a. (''default'', a, the (map_of DEFAULT_LOGIN_DIRS a))) (sort known) @ map (\<lambda>(n, a, d). (n, a, d)) named) = Inr made"
    "found = store_accounts made"
    unfolding resolve_accounts_def bind_result_eq_Inr Let_def by (auto simp del: check_each.simps map_result.simps)
  have "map_of DEFAULT_LOGIN_DIRS x \<noteq> None" if "x \<in> set known" for x
    using kn that unfolding check_each_iff by (auto split: if_splits)
  with that [OF a _ b _ c] pr show thesis unfolding check_each_iff by blast
qed

text \<open>The accounts of a profile, as the guard resolves them.\<close>

lemma configured_dir_found:
  assumes "map_of found (adapter, n) = Some a" and "n \<noteq> ''default''"
  shows "configured_dir (make_accounts ps (map (\<lambda>(k, a). (k, cx_configured_dir a)) found) caps) adapter n = Inr (cx_configured_dir a)"
proof -
  have "map_of (filter (\<lambda>((a, n), d). n \<noteq> DEFAULT_ACCOUNT) (map (\<lambda>(k, a). (k, cx_configured_dir a)) found)) (adapter, n) =
      map_option cx_configured_dir (map_of found (adapter, n))"
    using assms(2) by (induction found) (auto simp: DEFAULT_ACCOUNT_def)
  then show ?thesis using assms by (simp add: configured_dir_def make_accounts_def DEFAULT_ACCOUNT_def)
qed

lemma found_current_key:
  assumes "map_result (make_account fs sha env)
      (map (\<lambda>a. (''default'', a, the (map_of DEFAULT_LOGIN_DIRS a))) (sort known) @ map (\<lambda>(n, a, d). (n, a, d)) named) = Inr made"
    and "keyed named" and "''default'' \<notin> fst ` set named" and "adapter \<in> set known" and "map_of DEFAULT_LOGIN_DIRS adapter \<noteq> None"
    and "n = ''default'' \<or> n \<noteq> ''default'' \<and> (\<exists>d. map_of named n = Some (adapter, d))"
  shows "\<exists>a. map_of (store_accounts made) (adapter, n) = Some a \<and>
    current_key (login_key fs sha env)
      (make_accounts ps (map (\<lambda>(k, a). (k, cx_configured_dir a)) (store_accounts made)) caps) adapter n = Inr (cx_key a)"
proof (cases "n = ''default''")
  case True
  obtain d where d: "map_of DEFAULT_LOGIN_DIRS adapter = Some d" using assms(5) by blast
  have m: "(n, adapter, d) \<in> set (map (\<lambda>a. (''default'', a, the (map_of DEFAULT_LOGIN_DIRS a))) (sort known)
      @ map (\<lambda>(n, a, d). (n, a, d)) named)" using assms(4) d True by force
  have u: "d' = d" if "(n, adapter, d') \<in> set (map (\<lambda>a. (''default'', a, the (map_of DEFAULT_LOGIN_DIRS a))) (sort known)
      @ map (\<lambda>(n, a, d). (n, a, d)) named)" for d' using that assms(3) d True by force
  from made_lookup [OF assms(1) m u] True d show ?thesis
    by (auto simp: current_key_def configured_dir_def DEFAULT_ACCOUNT_def)
next
  case False
  then obtain d where d: "map_of named n = Some (adapter, d)" using assms(6) by blast
  have m: "(n, adapter, d) \<in> set (map (\<lambda>a. (''default'', a, the (map_of DEFAULT_LOGIN_DIRS a))) (sort known)
      @ map (\<lambda>(n, a, d). (n, a, d)) named)" using map_of_SomeD [OF d] by force
  have u: "d' = d" if "(n, adapter, d') \<in> set (map (\<lambda>a. (''default'', a, the (map_of DEFAULT_LOGIN_DIRS a))) (sort known)
      @ map (\<lambda>(n, a, d). (n, a, d)) named)" for d' using that d assms(2) False by (auto simp: keyed_mem_iff)
  from made_lookup [OF assms(1) m u] obtain a where a: "map_of (store_accounts made) (adapter, n) = Some a"
    "cx_configured_dir a = d" "login_key fs sha env n adapter d = Inr (cx_key a)" by blast
  then show ?thesis using configured_dir_found [OF a(1) False] by (simp add: current_key_def)
qed

lemma load_checked:
  assumes "load fs sha defaults read workstream env caps = Inr cfg"
  shows "check_profiles (cf_values cfg) = Inr ()"
    and "resolve_accounts fs sha (cf_values cfg) env caps = Inr (cf_accounts cfg)"
    and "check_usage (cf_values cfg) = Inr ()"
proof -
  show "check_profiles (cf_values cfg) = Inr ()" using loadE [OF assms] by blast
  have "accounts_check fs sha (cf_values cfg) env caps = Inr (cf_accounts cfg)" using loadE [OF assms] by blast
  then show "resolve_accounts fs sha (cf_values cfg) env caps = Inr (cf_accounts cfg)" "check_usage (cf_values cfg) = Inr ()"
    by (auto simp: accounts_check_def bind_result_eq_Inr)
qed

lemma profile_view_ok:
  assumes "load fs sha defaults read workstream env caps = Inr cfg" and "parsed defaults read"
    and "table_at (cf_values cfg) ''profiles'' = Inr profiles" and "(p, v) \<in> set profiles"
    and "ac = make_accounts (concat (map profile_accounts_of profiles)) (map (\<lambda>(k, a). (k, cx_configured_dir a)) (cf_accounts cfg)) caps"
  shows "\<exists>pv. view (login_key fs sha env) ac p = Inr pv \<and> pv_accounts pv \<noteq> [] \<and>
    (\<forall>c \<in> set (pv_accounts pv). \<exists>a. map_of (cf_accounts cfg) (pv_adapter pv, ca_account c) = Some a \<and> ca_key c = cx_key a)"
proof -
  have kt: "keyed_tree (TTable (cf_values cfg))" by (rule load_keyed [OF assms(1,2)])
  note cp = load_checked(1) [OF assms(1)] and ra = load_checked(2) [OF assms(1)]
  from ra obtain adapters known named profiles' made where
    ad: "table_at (cf_values cfg) ''adapters'' = Inr adapters" "strings_at adapters ''known'' = Inr known"
    and dd: "\<And>a. a \<in> set known \<Longrightarrow> map_of DEFAULT_LOGIN_DIRS a \<noteq> None"
    and na: "named_accounts (cf_values cfg) known caps = Inr named" and ps: "table_at (cf_values cfg) ''profiles'' = Inr profiles'"
    and cpa: "\<And>e. e \<in> set profiles' \<Longrightarrow> check_profile_accounts named caps e = Inr ()"
    and mr: "map_result (make_account fs sha env)
      (map (\<lambda>a. (''default'', a, the (map_of DEFAULT_LOGIN_DIRS a))) (sort known) @ map (\<lambda>(n, a, d). (n, a, d)) named) = Inr made"
    and found: "cf_accounts cfg = store_accounts made"
    by (rule resolve_accountsE) (rule that)
  have "profiles' = profiles" using assms(3) ps by simp
  then have "check_profile_accounts named caps (p, v) = Inr ()" using cpa assms(4) by simp
  then obtain profile adapter names where
    pr: "v = TTable profile" "map_of profile ''adapter'' = Some (TStr adapter)"
    "list_of_strings (get_default profile ''accounts'' (TList [])) = Some names"
    and nm: "\<And>n. n \<in> set names \<Longrightarrow> n \<noteq> ''default'' \<and> (\<exists>d. map_of named n = Some (adapter, d))"
    by (rule check_profile_accounts_Inr) (rule that)
  have "check_profile known (p, v) = Inr ()"
    using cp ad assms(3,4) by (auto simp: check_profiles_def bind_result_eq_Inr check_each_iff simp del: check_each.simps)
  then have adk: "adapter \<in> set known" using known_adapter pr by blast
  note named = named_accounts_spec [OF na kt]
  have key: "\<exists>a. map_of (cf_accounts cfg) (adapter, n) = Some a \<and> current_key (login_key fs sha env) ac adapter n = Inr (cx_key a)"
    if "n = ''default'' \<or> n \<in> set names" for n
    unfolding assms(5) found
    by (rule found_current_key [OF mr named adk dd [OF adk]]) (use nm that in blast)
  let ?ns = "if names = [] then [DEFAULT_ACCOUNT] else names"
  have ns: "n = ''default'' \<or> n \<in> set names" if "n \<in> set ?ns" for n using that by (auto simp: DEFAULT_ACCOUNT_def split: if_splits)
  have kex: "\<exists>k. current_key (login_key fs sha env) ac adapter n = Inr k" if "n \<in> set ?ns" for n
    using key [OF ns [OF that]] by blast
  from resolve_all_ok [of ?ns "current_key (login_key fs sha env) ac adapter", OF kex] obtain cs where cs: "resolve_all (current_key (login_key fs sha env) ac adapter) ?ns = Inr cs"
    "map ca_account cs = ?ns" "\<forall>c \<in> set cs. current_key (login_key fs sha env) ac adapter (ca_account c) = Inr (ca_key c)" by blast
  have kp: "keyed profiles" using keyed_tree_at [OF kt assms(3)] by simp
  have sp: "map_of (ac_profiles ac) p = Some \<lparr>pa_adapter = adapter, pa_accounts = names,
      pa_failover = failover_of (get_default profile ''failover'' (TStr ''none''))\<rparr>"
    using profiles_lookup [OF kp assms(4) [unfolded pr(1)] pr(2)] pr(3) by (simp add: assms(5) make_accounts_def)
  have "\<exists>a. map_of (cf_accounts cfg) (adapter, ca_account c) = Some a \<and> ca_key c = cx_key a" if "c \<in> set cs" for c
  proof -
    have "ca_account c \<in> set (map ca_account cs)" using that by simp
    then have "ca_account c \<in> set ?ns" unfolding cs(2) .
    from key [OF ns [OF this]] obtain a where "map_of (cf_accounts cfg) (adapter, ca_account c) = Some a"
      "current_key (login_key fs sha env) ac adapter (ca_account c) = Inr (cx_key a)" by blast
    moreover have "current_key (login_key fs sha env) ac adapter (ca_account c) = Inr (ca_key c)" using cs(3) that by blast
    ultimately show ?thesis by simp
  qed
  moreover have "cs \<noteq> []" using cs(2) by (auto split: if_splits)
  moreover have "\<exists>pv. view (login_key fs sha env) ac p = Inr pv \<and> pv_accounts pv = cs \<and> pv_adapter pv = adapter"
    unfolding view_def sp option.case Let_def profile_accounts.select_convs cs(1) bind_result_simps by simp
  ultimately show ?thesis by blast
qed

text \<open>C31. A loaded configuration is usable and its logins are apart: the launch guard's accounts can be built
  from it, and while the file system stays as it was every configured profile resolves to at least one
  candidate; each candidate is an account the configuration found, under exactly the credential key
  computed at load. Two different accounts never share a login: neither directory contains the other, no
  login file resolves to the same path and none is the same file by device and inode.\<close>

theorem guard_sees_loaded_accounts:
  assumes "load fs sha defaults read workstream env caps = Inr cfg" and "parsed defaults read"
  shows "\<exists>ac profiles. from_config cfg caps = Inr ac \<and> table_at (cf_values cfg) ''profiles'' = Inr profiles \<and>
    (\<forall>(p, v) \<in> set profiles. \<exists>pv. view (login_key fs sha env) ac p = Inr pv \<and> pv_accounts pv \<noteq> [] \<and>
       (\<forall>c \<in> set (pv_accounts pv). \<exists>a. map_of (cf_accounts cfg) (pv_adapter pv, ca_account c) = Some a \<and> ca_key c = cx_key a)) \<and>
    (\<forall>k k' a b. map_of (cf_accounts cfg) k = Some a \<longrightarrow> map_of (cf_accounts cfg) k' = Some b \<longrightarrow> k \<noteq> k' \<longrightarrow> isolated fs a b)"
proof -
  note ra = load_checked(2) [OF assms(1)]
  obtain profiles where ps: "table_at (cf_values cfg) ''profiles'' = Inr profiles" using ra by (rule resolve_accountsE)
  let ?ac = "make_accounts (concat (map profile_accounts_of profiles)) (map (\<lambda>(k, a). (k, cx_configured_dir a)) (cf_accounts cfg)) caps"
  have "from_config cfg caps = Inr ?ac" by (simp add: from_config_def ps)
  moreover have "\<forall>(p, v) \<in> set profiles. \<exists>pv. view (login_key fs sha env) ?ac p = Inr pv \<and> pv_accounts pv \<noteq> [] \<and>
       (\<forall>c \<in> set (pv_accounts pv). \<exists>a. map_of (cf_accounts cfg) (pv_adapter pv, ca_account c) = Some a \<and> ca_key c = cx_key a)"
    using profile_view_ok [OF assms ps _ refl] by blast
  moreover have "\<forall>k k' a b. map_of (cf_accounts cfg) k = Some a \<longrightarrow> map_of (cf_accounts cfg) k' = Some b \<longrightarrow> k \<noteq> k' \<longrightarrow> isolated fs a b"
    using resolve_accounts_isolated [OF ra] by blast
  ultimately show ?thesis using ps by blast
qed

theorem guard_sees_loaded_accounts_witness:
  "\<exists>cfg ac. example_load = Inr cfg \<and> from_config cfg example_caps = Inr ac"
proof -
  from example_loads obtain cfg where l: "example_load = Inr cfg" by blast
  from guard_sees_loaded_accounts [OF l [unfolded example_load_def] example_parsed] l show ?thesis by blast
qed

end
