(* ===== verification/Chunk.thy ===== *)
theory Chunk
  imports Json
begin

text \<open>
  Splitting replies and packing cards into message-sized chunks (\<^verbatim>\<open>admind/chunk.py\<close>). Text is a list of
  code points. Python's loops are recursive functions with a termination proof. In \<^verbatim>\<open>pack\<close> the variable
  \<^verbatim>\<open>size\<close> is the length of the joined current lines; here it is computed from them.
\<close>

section \<open>Replies\<close>

datatype chunk_error = ChunkValue string | TooWide nat int

definition newline :: nat where "newline = 10"

text \<open>\<^verbatim>\<open>str.rfind\<close> of a newline between two offsets.\<close>

definition rfind_newline :: "utext \<Rightarrow> nat \<Rightarrow> nat \<Rightarrow> nat option" where
  "rfind_newline t lo hi =
     (let ks = filter (\<lambda>i. t ! i = newline) [lo..<min hi (length t)] in if ks = [] then None else Some (last ks))"

definition cut_at :: "utext \<Rightarrow> nat \<Rightarrow> nat \<Rightarrow> nat" where
  "cut_at t lm pos =
     (case rfind_newline t pos (pos + lm) of
        Some k \<Rightarrow> if lm div 2 \<le> k - pos then k + 1 else pos + lm
      | None \<Rightarrow> pos + lm)"

lemma rfind_newline_Some: "rfind_newline t lo hi = Some k \<Longrightarrow> lo \<le> k \<and> k < hi \<and> k < length t \<and> t ! k = newline"
proof -
  let ?ks = "filter (\<lambda>i. t ! i = newline) [lo..<min hi (length t)]"
  assume "rfind_newline t lo hi = Some k"
  then have "k \<in> set ?ks" by (auto simp: rfind_newline_def Let_def split: if_splits dest: last_in_set)
  then show ?thesis by auto
qed

lemma cut_at_bounds: "1 \<le> lm \<Longrightarrow> pos < cut_at t lm pos \<and> cut_at t lm pos \<le> pos + lm \<and> pos + lm div 2 < cut_at t lm pos"
  by (auto simp: cut_at_def split: option.splits dest!: rfind_newline_Some)

text \<open>The loop; \<^verbatim>\<open>split\<close> has refused a limit below one.\<close>

function split_from :: "utext \<Rightarrow> nat \<Rightarrow> nat \<Rightarrow> utext list" where
  "split_from t lm pos =
     (if 1 \<le> lm \<and> lm < length t - pos
      then take (cut_at t lm pos - pos) (drop pos t) # split_from t lm (cut_at t lm pos)
      else if pos < length t then [drop pos t] else [])"
  by pat_completeness auto

termination
proof (relation "measure (\<lambda>(t, lm, pos). length t - pos)")
  fix t :: utext and lm pos :: nat
  assume "1 \<le> lm \<and> lm < length t - pos"
  then show "((t, lm, cut_at t lm pos), (t, lm, pos)) \<in> measure (\<lambda>(t, lm, pos). length t - pos)"
    using cut_at_bounds [of lm pos t] by auto
qed simp

declare split_from.simps [simp del]

definition split_text :: "utext \<Rightarrow> int \<Rightarrow> chunk_error + utext list" where
  "split_text t limit =
     (if limit < 1 then Inl (ChunkValue ''limit must be positive'') else Inr (split_from t (nat limit) 0))"

section \<open>Cards\<close>

datatype line_kind = Body | Atomic | Closing

definition MARKER_ROOM :: int where "MARKER_ROOM = 16"
definition MAX_PARTS :: nat where "MAX_PARTS = 999"

definition usable :: "int \<Rightarrow> int" where
  "usable chunk_chars = chunk_chars - MARKER_ROOM"

definition marker :: "nat \<Rightarrow> nat \<Rightarrow> utext" where
  "marker i n = 8627 # lit '' part '' @ lit (show_nat i) @ lit ''/'' @ lit (show_nat n) @ [newline]"

definition first_marker :: "nat \<Rightarrow> utext" where
  "first_marker n = newline # 8627 # lit '' part 1/'' @ lit (show_nat n)"

fun join_lines :: "utext list \<Rightarrow> utext" where
  "join_lines [] = []"
| "join_lines [x] = x"
| "join_lines (x # xs) = x @ newline # join_lines xs"

type_synonym packing = "utext list \<times> utext list"

definition free :: "int \<Rightarrow> packing \<Rightarrow> int" where
  "free room st = room - int (length (join_lines (snd st))) - (if snd st \<noteq> [] then 1 else 0)"

definition add_line :: "utext \<Rightarrow> packing \<Rightarrow> packing" where
  "add_line t st = (fst st, snd st @ [t])"

definition flush :: "packing \<Rightarrow> packing" where
  "flush st = (if snd st \<noteq> [] then (fst st @ [join_lines (snd st)], []) else st)"

definition whole_line :: "int \<Rightarrow> utext \<Rightarrow> packing \<Rightarrow> chunk_error + packing" where
  "whole_line room t st =
     (if int (length t) > room then Inl (TooWide (length t) room)
      else Inr (add_line t (if int (length t) > free room st then flush st else st)))"

lemma free_empty: "snd st = [] \<Longrightarrow> free room st = room"
  by (simp add: free_def)

lemma snd_flush [simp]: "snd (flush st) = []"
  by (simp add: flush_def)

text \<open>Filling chunks from a line that is too long; \<^verbatim>\<open>pack\<close> has refused a room below one.\<close>

function fill :: "int \<Rightarrow> utext \<Rightarrow> packing \<Rightarrow> utext \<times> packing" where
  "fill room t st =
     (if 1 \<le> room \<and> int (length t) > free room st
      then if free room st < 1 then fill room t (flush st)
           else fill room (drop (nat (free room st)) t) (flush (add_line (take (nat (free room st)) t) st))
      else (t, st))"
  by pat_completeness auto

termination
proof (relation "measure (\<lambda>(room, t, st). 2 * length t + (if snd st = [] then 0 else 1))")
  fix room :: int and t :: utext and st :: packing
  assume a: "1 \<le> room \<and> free room st < int (length t)"
  show "((room, t, flush st), (room, t, st)) \<in> measure (\<lambda>(room, t, st). 2 * length t + (if snd st = [] then 0 else 1))"
    if "free room st < 1"
  proof -
    have "snd st \<noteq> []" using a that free_empty [of st room] by auto
    then show ?thesis by simp
  qed
  show "((room, drop (nat (free room st)) t, flush (add_line (take (nat (free room st)) t) st)), (room, t, st))
      \<in> measure (\<lambda>(room, t, st). 2 * length t + (if snd st = [] then 0 else 1))" if "\<not> free room st < 1"
  proof -
    have "length (drop (nat (free room st)) t) < length t" using a that by auto
    then show ?thesis by simp
  qed
qed simp

declare fill.simps [simp del]

definition body_line :: "int \<Rightarrow> utext \<Rightarrow> packing \<Rightarrow> packing" where
  "body_line room t st =
     (if int (length t) \<le> free room st then add_line t st
      else let st1 = (if int (length t) \<le> room \<or> int (length (join_lines (snd st))) \<ge> room div 2 then flush st else st);
               (t', st2) = fill room t st1
           in add_line t' st2)"

fun pack_lines :: "int \<Rightarrow> (utext \<times> line_kind) list \<Rightarrow> packing \<Rightarrow> chunk_error + packing" where
  "pack_lines room [] st = Inr st"
| "pack_lines room ((t, kind) # ls) st =
     bind_result (if kind = Atomic then whole_line room t st else Inr (body_line room t st)) (pack_lines room ls)"

fun whole_lines :: "int \<Rightarrow> utext list \<Rightarrow> packing \<Rightarrow> chunk_error + packing" where
  "whole_lines room [] st = Inr st"
| "whole_lines room (t # ts) st = bind_result (whole_line room t st) (whole_lines room ts)"

definition closing_lines :: "(utext \<times> line_kind) list \<Rightarrow> utext list" where
  "closing_lines ls = map fst (filter (\<lambda>(t, k). k = Closing) ls)"

definition pack_closing :: "int \<Rightarrow> utext list \<Rightarrow> packing \<Rightarrow> chunk_error + packing" where
  "pack_closing room closing st =
     (if closing = [] then Inr st
      else if int (length (join_lines closing)) \<le> room then whole_line room (join_lines closing) st
      else whole_lines room closing st)"

definition mark_chunk :: "nat \<Rightarrow> nat \<Rightarrow> utext \<Rightarrow> utext" where
  "mark_chunk n i c = (if i = 0 then c @ first_marker n else marker (i + 1) n @ c)"

definition mark_chunks :: "utext list \<Rightarrow> utext list" where
  "mark_chunks chunks =
     (if length chunks = 1 then chunks
      else map (\<lambda>i. mark_chunk (length chunks) i (chunks ! i)) [0..<length chunks])"

definition pack_chunks :: "int \<Rightarrow> (utext \<times> line_kind) list \<Rightarrow> chunk_error + utext list" where
  "pack_chunks room ls =
     (let closing = closing_lines ls; n = length ls - length closing in
      if closing \<noteq> [] \<and> list_ex (\<lambda>(t, k). k \<noteq> Closing) (drop n ls) then Inl (ChunkValue ''closing lines must come last'')
      else bind_result (pack_lines room (take n ls) ([], [])) (\<lambda>st.
           bind_result (pack_closing room closing st) (\<lambda>st. Inr (fst (flush st)))))"

definition pack :: "(utext \<times> line_kind) list \<Rightarrow> int \<Rightarrow> chunk_error + utext list" where
  "pack ls chunk_chars =
     (if usable chunk_chars < 1 then Inl (ChunkValue ''chunk_chars leaves no room'')
      else bind_result (pack_chunks (usable chunk_chars) ls) (\<lambda>chunks.
        if length chunks > MAX_PARTS then Inl (ChunkValue ''too many parts'') else Inr (mark_chunks chunks)))"

section \<open>Splitting loses nothing\<close>

lemma split_from_spec:
  assumes "1 \<le> lm"
  shows "concat (split_from t lm pos) = drop pos t \<and>
    (\<forall>c \<in> set (split_from t lm pos). c \<noteq> [] \<and> length c \<le> lm) \<and>
    (\<forall>c \<in> set (butlast (split_from t lm pos)). lm div 2 < length c)"
  using assms
proof (induction t lm pos rule: split_from.induct)
  case (1 t lm pos)
  show ?case
  proof (cases "lm < length t - pos")
    case True
    let ?cut = "cut_at t lm pos" and ?c = "take (cut_at t lm pos - pos) (drop pos t)"
    note b = cut_at_bounds [OF 1(2), of pos t]
    have eq: "split_from t lm pos = ?c # split_from t lm ?cut" using True 1(2) by (simp add: split_from.simps)
    note ih = 1(1) [OF conjI [OF 1(2) True] 1(2)]
    have "?c @ drop ?cut t = drop pos t" using b by (metis append_take_drop_id drop_drop le_add_diff_inverse2 less_imp_le)
    moreover have "length ?c = ?cut - pos" using b True by auto
    moreover have "?c \<noteq> []" "length ?c \<le> lm" "lm div 2 < length ?c" using calculation(2) b by (auto simp del: length_take)
    ultimately show ?thesis using ih unfolding eq by (auto split: if_splits)
  next
    case False
    then show ?thesis by (auto simp: split_from.simps [of t lm pos])
  qed
qed

lemma split_from_count:
  "1 \<le> lm \<Longrightarrow> length (split_from t lm pos) \<le> (length t - pos) div (lm div 2 + 1) + 1"
proof (induction t lm pos rule: split_from.induct)
  case (1 t lm pos)
  show ?case
  proof (cases "lm < length t - pos")
    case True
    let ?cut = "cut_at t lm pos" and ?h = "lm div 2 + 1"
    note b = cut_at_bounds [OF 1(2), of pos t]
    have "length (split_from t lm ?cut) \<le> (length t - ?cut) div ?h + 1" by (rule 1(1) [OF conjI [OF 1(2) True] 1(2)])
    also have "(length t - ?cut) div ?h \<le> (length t - pos - ?h) div ?h" using b by (intro div_le_mono) auto
    also have "(length t - pos - ?h) div ?h + 1 = (length t - pos) div ?h"
    proof -
      have "?h \<le> length t - pos" using True 1(2) by simp
      then show ?thesis using le_div_geq [of ?h "length t - pos"] by simp
    qed
    finally show ?thesis using True 1(2) by (simp add: split_from.simps [of t lm pos])
  qed (simp add: split_from.simps)
qed

text \<open>C38. Splitting a reply always ends and loses nothing: for every positive limit the loop returns after at
  most one chunk per half limit of text, the chunks joined are exactly the text, every chunk is non-empty and
  within the limit, and every chunk but the last is more than half full.\<close>

theorem split_text_total:
  assumes "1 \<le> limit"
  shows "\<exists>cs. split_text t limit = Inr cs \<and> concat cs = t \<and> length cs \<le> length t div (nat limit div 2 + 1) + 1 \<and>
    (\<forall>c \<in> set cs. c \<noteq> [] \<and> int (length c) \<le> limit) \<and> (\<forall>c \<in> set (butlast cs). nat limit div 2 < length c)"
proof -
  have l: "1 \<le> nat limit" using assms by simp
  have "int (length c) \<le> limit" if "length c \<le> nat limit" for c :: utext using that assms by linarith
  then show ?thesis using split_from_spec [OF l, of t 0] split_from_count [OF l, of t 0] assms
    by (auto simp: split_text_def)
qed

theorem split_text_total_witness:
  "split_text (lit ''ab cd'' @ [newline] @ lit ''ef'') 7 = Inr [lit ''ab cd'' @ [newline], lit ''ef''] \<and>
   (\<exists>cs. split_text (lit ''ab cd'' @ [newline] @ lit ''ef'') 7 = Inr cs \<and> concat cs = lit ''ab cd'' @ [newline] @ lit ''ef'')"
proof -
  have "split_text (lit ''ab cd'' @ [newline] @ lit ''ef'') 7 = Inr [lit ''ab cd'' @ [newline], lit ''ef'']" by code_simp
  moreover have "(1 :: int) \<le> 7" by simp
  from split_text_total [OF this, of "lit ''ab cd'' @ [newline] @ lit ''ef''"] have
    "\<exists>cs. split_text (lit ''ab cd'' @ [newline] @ lit ''ef'') 7 = Inr cs \<and> concat cs = lit ''ab cd'' @ [newline] @ lit ''ef''" by blast
  ultimately show ?thesis by blast
qed

section \<open>Packing keeps lines whole and chunks small\<close>

lemma join_lines_snoc: "join_lines (xs @ [t]) = (if xs = [] then t else join_lines xs @ newline # t)"
proof (induction xs)
  case (Cons x xs)
  then show ?case by (cases xs) simp_all
qed simp

lemma sublist_join: "t \<in> set ts \<Longrightarrow> sublist t (join_lines ts)"
proof (induction ts rule: join_lines.induct)
  case (3 x y xs)
  show ?case
  proof (cases "t = x")
    case False
    then have "sublist t (join_lines (y # xs))" using 3 by simp
    moreover have "sublist (join_lines (y # xs)) (join_lines (x # y # xs))"
      by (simp add: sublist_def) (metis append.assoc append_Cons append_Nil append_Nil2)
    ultimately show ?thesis by (rule sublist_order.order_trans)
  qed simp
qed simp_all

text \<open>What packing keeps true of the finished chunks and the current lines.\<close>

definition within :: "int \<Rightarrow> packing \<Rightarrow> bool" where
  "within room st \<longleftrightarrow> (\<forall>c \<in> set (fst st). int (length c) \<le> room) \<and> int (length (join_lines (snd st))) \<le> room"

definition holds_line :: "utext \<Rightarrow> packing \<Rightarrow> bool" where
  "holds_line t st \<longleftrightarrow> (\<exists>c \<in> set (fst st). sublist t c) \<or> (\<exists>u \<in> set (snd st). sublist t u)"

definition visible :: "utext \<Rightarrow> utext" where
  "visible t = filter (\<lambda>c. c \<noteq> newline) t"

definition shown :: "packing \<Rightarrow> utext" where
  "shown st = visible (concat (fst st) @ concat (snd st))"

lemma visible_append [simp]: "visible [] = []" "visible (a @ b) = visible a @ visible b"
  by (simp_all add: visible_def)

lemma visible_join [simp]: "visible (join_lines ts) = visible (concat ts)"
  by (induction ts rule: join_lines.induct) (simp_all add: visible_def newline_def)

lemma flush_keeps:
  "1 \<le> room \<Longrightarrow> within room st \<Longrightarrow> within room (flush st)" "shown (flush st) = shown st"
  "holds_line t st \<Longrightarrow> holds_line t (flush st)"
proof -
  show "1 \<le> room \<Longrightarrow> within room st \<Longrightarrow> within room (flush st)" by (auto simp: within_def flush_def)
  show "shown (flush st) = shown st" by (simp add: shown_def flush_def)
  show "holds_line t st \<Longrightarrow> holds_line t (flush st)"
    unfolding holds_line_def flush_def using sublist_join by (auto intro: sublist_order.order_trans)
qed

lemma add_line_keeps:
  "int (length u) \<le> free room st \<Longrightarrow> within room st \<Longrightarrow> within room (add_line u st)"
  "shown (add_line u st) = shown st @ visible u"
  "holds_line t st \<Longrightarrow> holds_line t (add_line u st)" "holds_line u (add_line u st)"
  by (auto simp: within_def add_line_def free_def join_lines_snoc shown_def holds_line_def split: if_splits)

lemma whole_line_keeps:
  assumes "whole_line room u st = Inr st'" and "1 \<le> room" and "within room st"
  shows "within room st'" and "shown st' = shown st @ visible u" and "holds_line t st \<Longrightarrow> holds_line t st'"
    and "holds_line u st'" and "snd st' \<noteq> [] \<and> last (snd st') = u"
proof -
  let ?st = "if int (length u) > free room st then flush st else st"
  have u: "int (length u) \<le> room" and st': "st' = add_line u ?st" using assms(1) by (auto simp: whole_line_def split: if_splits)
  have "int (length u) \<le> free room ?st" using u free_empty [of "flush st" room] by simp
  moreover have "within room ?st" using flush_keeps(1) [OF assms(2,3)] assms(3) by simp
  ultimately show "within room st'" unfolding st' by (rule add_line_keeps(1))
  show "shown st' = shown st @ visible u" unfolding st' add_line_keeps(2) by (simp add: flush_keeps(2))
  show "holds_line t st \<Longrightarrow> holds_line t st'" unfolding st' using flush_keeps(3) add_line_keeps(3) by metis
  show "holds_line u st'" unfolding st' by (rule add_line_keeps(4))
  show "snd st' \<noteq> [] \<and> last (snd st') = u" unfolding st' by (simp add: add_line_def)
qed

lemma fill_keeps:
  assumes "1 \<le> room" and "within room st" and "fill room u st = (u', st')"
  shows "within room st' \<and> int (length u') \<le> free room st' \<and> shown st' @ visible u' = shown st @ visible u \<and>
    (holds_line t st \<longrightarrow> holds_line t st')"
  using assms
proof (induction room u st rule: fill.induct)
  case (1 room u st)
  let ?n = "nat (free room st)"
  let ?st = "flush (add_line (take ?n u) st)"
  show ?case
  proof (cases "int (length u) > free room st")
    case False
    then show ?thesis using 1(4,5) by (auto simp: fill.simps [of room u st])
  next
    case big: True
    show ?thesis
    proof (cases "free room st < 1")
      case True
      then have "fill room u (flush st) = (u', st')" using 1(3,5) big by (simp add: fill.simps [of room u st])
      from 1(1) [OF _ True 1(3) flush_keeps(1) [OF 1(3,4)] this] 1(3) big show ?thesis
        using flush_keeps(2,3) by (metis (no_types))
    next
      case False
      then have f: "fill room (drop ?n u) ?st = (u', st')" using 1(3,5) big by (simp add: fill.simps [of room u st])
      have "within room ?st" using False by (intro flush_keeps(1) [OF 1(3)] add_line_keeps(1) 1(4)) simp
      from 1(2) [OF _ False 1(3) this f] 1(3) big have ih: "within room st' \<and> int (length u') \<le> free room st' \<and>
          shown st' @ visible u' = shown ?st @ visible (drop ?n u) \<and> (holds_line t ?st \<longrightarrow> holds_line t st')" by blast
      moreover have "shown ?st @ visible (drop ?n u) = shown st @ visible u"
        by (simp add: flush_keeps(2) add_line_keeps(2) flip: visible_append)
      ultimately show ?thesis using flush_keeps(3) add_line_keeps(3) by metis
    qed
  qed
qed

lemma body_line_keeps:
  assumes "1 \<le> room" and "within room st"
  shows "within room (body_line room u st) \<and> shown (body_line room u st) = shown st @ visible u \<and>
    (holds_line t st \<longrightarrow> holds_line t (body_line room u st))"
proof (cases "int (length u) \<le> free room st")
  case True
  then show ?thesis using add_line_keeps(1) [OF True assms(2)] by (simp add: body_line_def add_line_keeps)
next
  case False
  let ?st = "if int (length u) \<le> room \<or> int (length (join_lines (snd st))) \<ge> room div 2 then flush st else st"
  obtain u' st2 where f: "fill room u ?st = (u', st2)" by (metis surj_pair)
  have b: "body_line room u st = add_line u' st2" using False f by (simp add: body_line_def Let_def)
  have k: "within room ?st" "shown ?st = shown st" "holds_line t st \<Longrightarrow> holds_line t ?st"
    using flush_keeps(1) [OF assms] flush_keeps(2,3) assms(2) by simp_all
  from fill_keeps [OF assms(1) k(1) f, of t] k(2,3) show ?thesis unfolding b by (simp add: add_line_keeps)
qed

lemma pack_lines_keeps:
  "pack_lines room ls st = Inr st' \<Longrightarrow> 1 \<le> room \<Longrightarrow> within room st \<Longrightarrow>
   within room st' \<and> shown st' = shown st @ visible (concat (map fst ls)) \<and> (holds_line t st \<longrightarrow> holds_line t st') \<and>
   (\<forall>u. (u, Atomic) \<in> set ls \<longrightarrow> holds_line u st')"
proof (induction room ls st arbitrary: t rule: pack_lines.induct)
  case (2 room u kind ls st)
  from 2(2) obtain mid where mid: "(if kind = Atomic then whole_line room u st else Inr (body_line room u st)) = Inr mid"
    and rest: "pack_lines room ls mid = Inr st'" by (auto simp: bind_result_eq_Inr)
  have m: "within room mid \<and> shown mid = shown st @ visible u \<and> (holds_line t st \<longrightarrow> holds_line t mid) \<and>
      (kind = Atomic \<longrightarrow> holds_line u mid)" for t
  proof (cases "kind = Atomic")
    case True
    then have "whole_line room u st = Inr mid" using mid by simp
    from whole_line_keeps [OF this 2(3,4)] show ?thesis by blast
  next
    case False
    then show ?thesis using mid body_line_keeps [OF 2(3,4), of u t] by simp
  qed
  have "within room mid" using m by blast
  note ih = 2(1) [OF rest 2(3) this]
  show ?case using m [of t] ih [of t] ih [of u] by auto
qed (simp add: visible_def)

lemma whole_lines_keeps:
  "whole_lines room ts st = Inr st' \<Longrightarrow> 1 \<le> room \<Longrightarrow> within room st \<Longrightarrow>
   within room st' \<and> shown st' = shown st @ visible (concat ts) \<and> (holds_line t st \<longrightarrow> holds_line t st') \<and>
   (\<forall>u \<in> set ts. holds_line u st') \<and> (ts \<noteq> [] \<longrightarrow> snd st' \<noteq> [] \<and> last (snd st') = last ts)"
proof (induction room ts st arbitrary: t rule: whole_lines.induct)
  case (2 room u ts st)
  from 2(2) obtain mid where mid: "whole_line room u st = Inr mid" and rest: "whole_lines room ts mid = Inr st'"
    by (auto simp: bind_result_eq_Inr)
  note m = whole_line_keeps [OF mid 2(3,4)]
  note ih = 2(1) [OF rest 2(3) m(1)]
  show ?case
  proof (cases "ts = []")
    case True
    then show ?thesis using rest m by (simp add: visible_def)
  next
    case False
    then show ?thesis using ih [of t] ih [of u] m by auto
  qed
qed (simp add: visible_def)

lemma pack_closing_keeps:
  assumes "pack_closing room cl st = Inr st'" and "1 \<le> room" and "within room st"
  shows "within room st' \<and> shown st' = shown st @ visible (concat cl) \<and> (holds_line t st \<longrightarrow> holds_line t st') \<and>
   (\<forall>u \<in> set cl. holds_line u st') \<and> (cl \<noteq> [] \<longrightarrow> suffix (last cl) (join_lines (snd (st'))) \<and> snd st' \<noteq> [])"
proof (cases "cl = [] \<or> int (length (join_lines cl)) \<le> room")
  case False
  then have w: "whole_lines room cl st = Inr st'" using assms(1) by (simp add: pack_closing_def split: if_splits)
  note k = whole_lines_keeps [OF w assms(2,3), of t]
  then have "snd st' \<noteq> []" "last (snd st') = last cl" using False by blast+
  then have "suffix (last cl) (join_lines (snd st'))"
    by (metis append_butlast_last_id join_lines_snoc suffixI suffix_ConsI suffix_appendI suffix_order.refl)
  with k \<open>snd st' \<noteq> []\<close> show ?thesis by blast
next
  case True
  show ?thesis
  proof (cases "cl = []")
    case False
    then have w: "whole_line room (join_lines cl) st = Inr st'" using assms(1) True by (simp add: pack_closing_def)
    note k = whole_line_keeps [OF w assms(2,3)]
    have "holds_line u st'" if "u \<in> set cl" for u
      using k(4) sublist_join [OF that] unfolding holds_line_def by (meson sublist_order.order_trans)
    moreover have "suffix (last cl) (join_lines (snd st'))"
    proof -
      have "suffix (join_lines cl) (join_lines (snd st'))"
        using k(5) by (metis append_butlast_last_id join_lines_snoc suffixI suffix_ConsI suffix_appendI suffix_order.refl)
      moreover have "suffix (last cl) (join_lines cl)"
        using False by (metis append_butlast_last_id join_lines_snoc suffixI suffix_ConsI suffix_appendI suffix_order.refl)
      ultimately show ?thesis using suffix_order.trans by blast
    qed
    ultimately show ?thesis using k by simp
  qed (use assms in \<open>simp add: pack_closing_def\<close>)
qed

lemma marker_lengths: "n \<le> 999 \<Longrightarrow> i \<le> n \<Longrightarrow> length (marker i n) \<le> 16 \<and> length (first_marker n) \<le> 16"
proof -
  assume "n \<le> 999" "i \<le> n"
  then have "length (show_nat n) \<le> 3" "length (show_nat i) \<le> 3" using length_show_nat_le [of _ 3] by simp_all
  then show ?thesis by (simp add: marker_def first_marker_def lit_def)
qed

lemma mark_chunks_nth:
  assumes "i < length chunks"
  shows "length (mark_chunks chunks) = length chunks"
    and "mark_chunks chunks ! i = (if length chunks = 1 then chunks ! i else mark_chunk (length chunks) i (chunks ! i))"
  using assms by (simp_all add: mark_chunks_def)

lemma mark_chunk_spec:
  assumes "n \<le> 999" and "i < n"
  shows "int (length (mark_chunk n i c)) \<le> int (length c) + 16" and "sublist c (mark_chunk n i c)"
    and "0 < i \<Longrightarrow> suffix c (mark_chunk n i c)"
proof -
  show "int (length (mark_chunk n i c)) \<le> int (length c) + 16"
    using marker_lengths [of n "i + 1"] assms by (simp add: mark_chunk_def)
  show "sublist c (mark_chunk n i c)" by (simp add: mark_chunk_def)
  show "0 < i \<Longrightarrow> suffix c (mark_chunk n i c)" by (simp add: mark_chunk_def suffix_def)
qed

lemma closing_split:
  assumes "\<not> (closing_lines ls \<noteq> [] \<and> list_ex (\<lambda>(t, k). k \<noteq> Closing) (drop (length ls - length (closing_lines ls)) ls))"
  defines "n \<equiv> length ls - length (closing_lines ls)"
  shows "map fst (drop n ls) = closing_lines ls"
    and "(t, k) \<in> set ls \<Longrightarrow> k \<noteq> Body \<Longrightarrow> (t, Atomic) \<in> set (take n ls) \<or> t \<in> set (closing_lines ls)"
proof -
  have len: "length (closing_lines ls) = length (filter (\<lambda>(t, k). k = Closing) ls)" by (simp add: closing_lines_def)
  have le: "length (closing_lines ls) \<le> length ls" unfolding len by (rule length_filter_le)
  have all: "filter (\<lambda>(t, k). k = Closing) (drop n ls) = drop n ls"
    using assms(1) le unfolding n_def by (cases "closing_lines ls = []") (auto simp: list_ex_iff filter_id_conv)
  have "length (filter (\<lambda>(t, k). k = Closing) (take n ls)) + length (drop n ls) = length (closing_lines ls)"
    unfolding len by (subst (3) append_take_drop_id [of n ls, symmetric]) (simp add: all del: append_take_drop_id)
  moreover have "length (drop n ls) = length (closing_lines ls)" using le by (simp add: n_def)
  ultimately have none: "filter (\<lambda>(t, k). k = Closing) (take n ls) = []" by simp
  have "closing_lines ls = map fst (filter (\<lambda>(t, k). k = Closing) (take n ls @ drop n ls))"
    unfolding closing_lines_def by simp
  then show d: "map fst (drop n ls) = closing_lines ls" by (simp add: none all del: append_take_drop_id)
  show "(t, k) \<in> set ls \<Longrightarrow> k \<noteq> Body \<Longrightarrow> (t, Atomic) \<in> set (take n ls) \<or> t \<in> set (closing_lines ls)"
  proof -
    assume tk: "(t, k) \<in> set ls" "k \<noteq> Body"
    show ?thesis
    proof (cases "k = Closing")
      case True
      then show ?thesis using tk(1) by (force simp: closing_lines_def)
    next
      case False
      then have "k = Atomic" using tk(2) by (cases k) simp_all
      moreover have "(t, k) \<in> set (take n ls) \<or> (t, k) \<in> set (drop n ls)"
        using tk(1) by (metis Un_iff append_take_drop_id set_append)
      moreover have "(t, k) \<notin> set (drop n ls)" using all False unfolding filter_id_conv by auto
      ultimately show ?thesis by blast
    qed
  qed
qed

lemma pack_chunks_keeps:
  assumes "pack_chunks room ls = Inr raw" and "1 \<le> room"
  shows "(\<forall>c \<in> set raw. int (length c) \<le> room) \<and> visible (concat raw) = visible (concat (map fst ls)) \<and>
    (\<forall>t k. (t, k) \<in> set ls \<longrightarrow> k \<noteq> Body \<longrightarrow> (\<exists>c \<in> set raw. sublist t c)) \<and>
    (closing_lines ls \<noteq> [] \<longrightarrow> raw \<noteq> [] \<and> suffix (last (closing_lines ls)) (last raw))"
proof -
  let ?n = "length ls - length (closing_lines ls)"
  from assms(1) obtain st1 st2 where ok: "\<not> (closing_lines ls \<noteq> [] \<and> list_ex (\<lambda>(t, k). k \<noteq> Closing) (drop ?n ls))"
    and s1: "pack_lines room (take ?n ls) ([], []) = Inr st1" and s2: "pack_closing room (closing_lines ls) st1 = Inr st2"
    and raw: "raw = fst (flush st2)"
    by (auto simp: pack_chunks_def Let_def bind_result_eq_Inr split: if_splits)
  note cs = closing_split [OF ok]
  have w0: "within room ([], [])" using assms(2) by (simp add: within_def)
  note k1 = pack_lines_keeps [OF s1 assms(2) w0]
  then have w1: "within room st1" by blast
  note k2 = pack_closing_keeps [OF s2 assms(2) w1]
  have w: "within room (flush st2)" using k2 flush_keeps(1) [OF assms(2)] by blast
  have "visible (concat raw) = shown (flush st2)" unfolding raw shown_def by simp
  also have "\<dots> = visible (concat (map fst (take ?n ls))) @ visible (concat (closing_lines ls))"
    unfolding flush_keeps(2) using k1 k2 by (simp add: shown_def [of "([], [])"])
  also have "\<dots> = visible (concat (map fst ls))"
  proof -
    have "map fst ls = map fst (take ?n ls) @ closing_lines ls" using cs(1) by (metis append_take_drop_id map_append)
    then have "concat (map fst ls) = concat (map fst (take ?n ls)) @ concat (closing_lines ls)" by (metis concat_append)
    then show ?thesis by (metis visible_append(2))
  qed
  finally have v: "visible (concat raw) = visible (concat (map fst ls))" .
  have held: "\<exists>c \<in> set raw. sublist t c" if "holds_line t st2" for t
    using flush_keeps(3) [OF that] unfolding holds_line_def raw by simp
  have "\<exists>c \<in> set raw. sublist t c" if "(t, k) \<in> set ls" "k \<noteq> Body" for t k
    using cs(2) [OF that] k1 k2 held by blast
  moreover have "raw \<noteq> [] \<and> suffix (last (closing_lines ls)) (last raw)" if "closing_lines ls \<noteq> []"
    using k2 that unfolding raw by (simp add: flush_def)
  ultimately show ?thesis using w v unfolding within_def raw by blast
qed

text \<open>C39. A packed card fits and keeps its promises: every chunk is at most \<^verbatim>\<open>chunk_chars\<close> long with its part
  marker, no atomic or closing line is ever cut (each lies whole inside one chunk), the last closing line is
  the end of the last chunk, there are at most 999 parts, and before the part markers are put on the chunks
  hold exactly the characters of the card in order, newlines aside.\<close>

theorem pack_faithful:
  assumes "pack ls chunk_chars = Inr cs"
  shows "\<exists>raw. cs = mark_chunks raw \<and> length cs \<le> 999 \<and> visible (concat raw) = visible (concat (map fst ls)) \<and>
    (\<forall>c \<in> set cs. int (length c) \<le> chunk_chars) \<and>
    (\<forall>t k. (t, k) \<in> set ls \<longrightarrow> k \<noteq> Body \<longrightarrow> (\<exists>c \<in> set cs. sublist t c)) \<and>
    (closing_lines ls \<noteq> [] \<longrightarrow> cs \<noteq> [] \<and> suffix (last (closing_lines ls)) (last cs))"
proof -
  from assms obtain raw where room: "1 \<le> usable chunk_chars" and raw: "pack_chunks (usable chunk_chars) ls = Inr raw"
    and n: "length raw \<le> 999" and cs: "cs = mark_chunks raw"
    by (auto simp: pack_def bind_result_eq_Inr MAX_PARTS_def split: if_splits)
  note k = pack_chunks_keeps [OF raw room]
  have len: "length cs = length raw" unfolding cs by (cases raw) (simp_all add: mark_chunks_def)
  have x: "int (length (cs ! i)) \<le> chunk_chars \<and> sublist (raw ! i) (cs ! i) \<and> (Suc i = length raw \<longrightarrow> suffix (raw ! i) (cs ! i))"
    if i: "i < length raw" for i
  proof -
    have c: "int (length (raw ! i)) \<le> chunk_chars - 16" using k nth_mem [OF i] by (simp add: usable_def MARKER_ROOM_def)
    show ?thesis
    proof (cases "length raw = 1")
      case True
      then show ?thesis using c by (simp add: cs mark_chunks_def)
    next
      case False
      then have "Suc i = length raw \<longrightarrow> 0 < i" using i by auto
      then show ?thesis using c False mark_chunk_spec [OF n i, of "raw ! i"] by (auto simp: cs mark_chunks_nth(2) [OF i])
    qed
  qed
  have b: "\<forall>c \<in> set cs. int (length c) \<le> chunk_chars" using x len by (auto simp: in_set_conv_nth)
  have "\<exists>c \<in> set cs. sublist t c" if tk: "(t, kd) \<in> set ls" "kd \<noteq> Body" for t kd
  proof -
    obtain i where i: "i < length raw" "sublist t (raw ! i)" using k tk by (metis in_set_conv_nth)
    then have "sublist t (cs ! i)" using x sublist_order.order_trans by blast
    then show ?thesis using i(1) len nth_mem by metis
  qed
  moreover have "cs \<noteq> [] \<and> suffix (last (closing_lines ls)) (last cs)" if "closing_lines ls \<noteq> []"
  proof -
    have r: "raw \<noteq> []" "suffix (last (closing_lines ls)) (last raw)" using k that by blast+
    then have "cs \<noteq> []" using len by auto
    then have "suffix (last raw) (last cs)" using x [of "length raw - 1"] len r(1) by (simp add: last_conv_nth)
    with r len show ?thesis using suffix_order.trans by (metis length_0_conv)
  qed
  ultimately show ?thesis using cs n len k b by auto
qed

theorem pack_faithful_witness:
  "\<exists>cs. pack [(lit ''hello'', Body), (lit ''link'', Atomic), (lit ''bye'', Closing)] 26 = Inr cs \<and>
     (\<forall>c \<in> set cs. int (length c) \<le> 26)"
proof -
  have "\<not> isl (pack [(lit ''hello'', Body), (lit ''link'', Atomic), (lit ''bye'', Closing)] 26)" by code_simp
  then obtain cs where "pack [(lit ''hello'', Body), (lit ''link'', Atomic), (lit ''bye'', Closing)] 26 = Inr cs"
    by (metis sum.collapse(2))
  with pack_faithful [OF this] show ?thesis by blast
qed

end
