(* ===== verification/Gate.thy ===== *)
theory Gate
  imports Ids "HOL-Library.Word"
begin

text \<open>
  The pause gate and the claim lock of a workstream (\<^verbatim>\<open>wsd/gate.py\<close>). \<^verbatim>\<open>pause\<close>, \<^verbatim>\<open>resume\<close> and
  \<^verbatim>\<open>claim\<close> run in several processes and threads at once, so each is a program of small steps over the
  shared state: who holds each workstream's lock file, the btq \<^verbatim>\<open>paused\<close> flag, and a log of what
  happened. A direct \<^verbatim>\<open>btq pause\<close> sets the flag without the lock. A process that dies inside a btq call is
  not modelled.
\<close>

section \<open>Lock files\<close>

datatype lock_error = NotRegular | NotOwned | AlreadyRunning | BadSlug string

record lock_stat =
  ls_regular :: bool
  ls_uid :: nat
  ls_mode :: int

text \<open>The mode of the lock file once it is open: 0600 (384) unless it was already within it.\<close>

definition open_lock_file :: "nat \<Rightarrow> lock_stat \<Rightarrow> lock_error + int" where
  "open_lock_file euid st =
     (if \<not> ls_regular st then Inl NotRegular
      else if ls_uid st \<noteq> euid then Inl NotOwned
      else if and (ls_mode st) (not 384) \<noteq> 0 then Inr 384
      else Inr (ls_mode st))"

lemma open_lock_file_private: "open_lock_file euid st = Inr m \<Longrightarrow> and m (not 384) = 0"
  by (auto simp: open_lock_file_def split: if_splits)

text \<open>The instance lock: taken only when no one holds it.\<close>

definition instance_lock :: "nat \<Rightarrow> lock_stat \<Rightarrow> nat option \<Rightarrow> nat \<Rightarrow> lock_error + nat option" where
  "instance_lock euid st holder pid =
     bind_result (open_lock_file euid st) (\<lambda>_.
       case holder of None \<Rightarrow> Inr (Some pid) | Some p \<Rightarrow> Inl AlreadyRunning)"

section \<open>Processes\<close>

type_synonym pid = nat

datatype gate_call = CallPause ws_name | CallResume ws_name | CallClaim ws_name bead_id

primrec call_ws :: "gate_call \<Rightarrow> ws_name" where
  "call_ws (CallPause w) = w"
| "call_ws (CallResume w) = w"
| "call_ws (CallClaim w b) = w"

text \<open>Where a process is: idle, waiting for the lock, holding it, past the flag check inside \<^verbatim>\<open>claim\<close>,
  inside btq's claim, or done and about to release the lock.\<close>

datatype gate_pc = Idle | Waiting gate_call | Locked gate_call | Checked ws_name bead_id | InClaim ws_name bead_id
  | Leaving ws_name

datatype gate_event = PauseSet ws_name | Cleared ws_name | Refused ws_name bead_id | ClaimStarted ws_name bead_id
  | ClaimReturned ws_name bead_id bool | DirectPause ws_name

record gate_state =
  gs_lock :: "ws_name \<Rightarrow> pid option"
  gs_paused :: "ws_name \<Rightarrow> bool"
  gs_pc :: "pid \<Rightarrow> gate_pc"
  gs_log :: "gate_event list"

definition initial_gate :: gate_state where
  "initial_gate = \<lparr>gs_lock = (\<lambda>w. None), gs_paused = (\<lambda>w. False), gs_pc = (\<lambda>p. Idle), gs_log = []\<rparr>"

definition goto :: "pid \<Rightarrow> gate_pc \<Rightarrow> gate_state \<Rightarrow> gate_state" where
  "goto p c s = s\<lparr>gs_pc := (gs_pc s)(p := c)\<rparr>"

definition log_event :: "gate_event \<Rightarrow> gate_state \<Rightarrow> gate_state" where
  "log_event e s = s\<lparr>gs_log := gs_log s @ [e]\<rparr>"

definition set_paused :: "ws_name \<Rightarrow> bool \<Rightarrow> gate_state \<Rightarrow> gate_state" where
  "set_paused w b s = s\<lparr>gs_paused := (gs_paused s)(w := b)\<rparr>"

inductive gate_step :: "gate_state \<Rightarrow> gate_state \<Rightarrow> bool" where
  g_call: "gs_pc s p = Idle \<Longrightarrow> gate_step s (goto p (Waiting c) s)"
| g_lock: "gs_pc s p = Waiting c \<Longrightarrow> gs_lock s (call_ws c) = None \<Longrightarrow>
    gate_step s (goto p (Locked c) (s\<lparr>gs_lock := (gs_lock s)(call_ws c := Some p)\<rparr>))"
| g_pause: "gs_pc s p = Locked (CallPause w) \<Longrightarrow>
    gate_step s (goto p (Leaving w) (log_event (PauseSet w) (set_paused w True s)))"
| g_resume: "gs_pc s p = Locked (CallResume w) \<Longrightarrow>
    gate_step s (goto p (Leaving w) (log_event (Cleared w) (set_paused w False s)))"
| g_refused: "gs_pc s p = Locked (CallClaim w b) \<Longrightarrow> gs_paused s w \<Longrightarrow>
    gate_step s (goto p (Leaving w) (log_event (Refused w b) s))"
| g_checked: "gs_pc s p = Locked (CallClaim w b) \<Longrightarrow> \<not> gs_paused s w \<Longrightarrow> gate_step s (goto p (Checked w b) s)"
| g_claim: "gs_pc s p = Checked w b \<Longrightarrow> gate_step s (goto p (InClaim w b) (log_event (ClaimStarted w b) s))"
| g_return: "gs_pc s p = InClaim w b \<Longrightarrow> gate_step s (goto p (Leaving w) (log_event (ClaimReturned w b ok) s))"
| g_unlock: "gs_pc s p = Leaving w \<Longrightarrow> gate_step s (goto p Idle (s\<lparr>gs_lock := (gs_lock s)(w := None)\<rparr>))"
| g_direct: "gate_step s (log_event (DirectPause w) (set_paused w True s))"

section \<open>The lock excludes\<close>

primrec holds_ws :: "gate_pc \<Rightarrow> ws_name option" where
  "holds_ws Idle = None"
| "holds_ws (Waiting c) = None"
| "holds_ws (Locked c) = Some (call_ws c)"
| "holds_ws (Checked w b) = Some w"
| "holds_ws (InClaim w b) = Some w"
| "holds_ws (Leaving w) = Some w"

primrec claiming :: "gate_pc \<Rightarrow> ws_name option" where
  "claiming Idle = None"
| "claiming (Waiting c) = None"
| "claiming (Locked c) = None"
| "claiming (Checked w b) = Some w"
| "claiming (InClaim w b) = Some w"
| "claiming (Leaving w) = None"

lemma claiming_holds: "claiming c = Some w \<Longrightarrow> holds_ws c = Some w"
  by (cases c) simp_all

text \<open>Whether the last word on a workstream is a pause through the gate.\<close>

fun pause_stands :: "ws_name \<Rightarrow> gate_event list \<Rightarrow> bool" where
  "pause_stands w [] = False"
| "pause_stands w (e # es) =
     (if e = PauseSet w \<or> e = Cleared w then e = PauseSet w else pause_stands w es)"

definition gate_inv :: "gate_state \<Rightarrow> bool" where
  "gate_inv s \<longleftrightarrow> (\<forall>p w. holds_ws (gs_pc s p) = Some w \<longrightarrow> gs_lock s w = Some p) \<and>
     (\<forall>w. pause_stands w (rev (gs_log s)) \<longrightarrow> gs_paused s w \<and> (\<forall>p. claiming (gs_pc s p) \<noteq> Some w))"

lemma gate_invD:
  "gate_inv s \<Longrightarrow> holds_ws (gs_pc s p) = Some w \<Longrightarrow> gs_lock s w = Some p"
  "gate_inv s \<Longrightarrow> pause_stands w (rev (gs_log s)) \<Longrightarrow> gs_paused s w"
  "gate_inv s \<Longrightarrow> pause_stands w (rev (gs_log s)) \<Longrightarrow> claiming (gs_pc s p) \<noteq> Some w"
  by (auto simp: gate_inv_def)

lemma gate_inv_exclusive:
  "gate_inv s \<Longrightarrow> holds_ws (gs_pc s p) = Some w \<Longrightarrow> holds_ws (gs_pc s q) = Some w \<Longrightarrow> p = q"
  by (metis gate_invD(1) option.inject)

lemmas gate_defs = goto_def log_event_def set_paused_def

lemma gate_step_inv:
  assumes "gate_step s s'" and "gate_inv s"
  shows "gate_inv s'"
  using assms(1)
proof cases
  case (g_call p c)
  then show ?thesis using assms(2) by (auto simp: gate_inv_def gate_defs)
next
  case (g_lock p c)
  then show ?thesis using assms(2) by (auto simp: gate_inv_def gate_defs)
next
  case (g_pause p w)
  have "claiming (gs_pc s q) \<noteq> Some w" if "q \<noteq> p" for q
    using gate_inv_exclusive [OF assms(2), of p w q] that g_pause(2) claiming_holds by fastforce
  then show ?thesis using assms(2) g_pause by (auto simp: gate_inv_def gate_defs)
next
  case (g_resume p w)
  then show ?thesis using assms(2) by (auto simp: gate_inv_def gate_defs)
next
  case (g_refused p w b)
  then show ?thesis using assms(2) by (auto simp: gate_inv_def gate_defs)
next
  case (g_checked p w b)
  then show ?thesis using assms(2) by (auto simp: gate_inv_def gate_defs)
next
  case (g_claim p w b)
  then have "\<not> pause_stands w (rev (gs_log s))" using gate_invD(3) [OF assms(2), of w p] by auto
  then show ?thesis using assms(2) g_claim by (auto simp: gate_inv_def gate_defs)
next
  case (g_return p w b ok)
  then show ?thesis using assms(2) by (auto simp: gate_inv_def gate_defs)
next
  case (g_unlock p w)
  then show ?thesis using assms(2) gate_inv_exclusive [OF assms(2), of p w] by (auto simp: gate_inv_def gate_defs)
next
  case (g_direct w)
  then show ?thesis using assms(2) by (auto simp: gate_inv_def gate_defs)
qed

interpretation gate_safe: step_invariant gate_step gate_inv
  by unfold_locales (rule gate_step_inv)

lemma initial_gate_inv: "gate_inv initial_gate"
  by (simp add: gate_inv_def initial_gate_def)

section \<open>Nothing is claimed under a standing pause\<close>

definition claim_event :: "ws_name \<Rightarrow> gate_event \<Rightarrow> bool" where
  "claim_event w e \<longleftrightarrow> (\<exists>b ok. e = ClaimStarted w b \<or> e = ClaimReturned w b ok)"

lemma gate_step_log:
  assumes "gate_step s s'" and "gate_inv s"
  shows "gs_log s' = gs_log s \<or>
    (\<exists>e. gs_log s' = gs_log s @ [e] \<and> (\<forall>w. claim_event w e \<longrightarrow> \<not> pause_stands w (rev (gs_log s))))"
proof -
  have no: "\<not> pause_stands w (rev (gs_log s))" if "claiming (gs_pc s p) = Some w" for p w
    using gate_invD(3) [OF assms(2), of w p] that by blast
  from assms(1) show ?thesis
  proof cases
    case (g_claim p w b)
    then show ?thesis using no [of p w] by (auto simp: gate_defs claim_event_def)
  next
    case (g_return p w b ok)
    then show ?thesis using no [of p w] by (auto simp: gate_defs claim_event_def)
  qed (auto simp: gate_defs claim_event_def)
qed

text \<open>The claim events of a log never follow a standing pause.\<close>

definition log_safe :: "gate_event list \<Rightarrow> bool" where
  "log_safe es \<longleftrightarrow> (\<forall>i w. i < length es \<longrightarrow> claim_event w (es ! i) \<longrightarrow> \<not> pause_stands w (rev (take i es)))"

lemma log_safe_snoc: "log_safe (es @ [e]) \<longleftrightarrow> log_safe es \<and> (\<forall>w. claim_event w e \<longrightarrow> \<not> pause_stands w (rev es))"
  unfolding log_safe_def by (auto simp: nth_append less_Suc_eq)

interpretation gate_log: step_invariant gate_step "\<lambda>s. gate_inv s \<and> log_safe (gs_log s)"
proof unfold_locales
  fix s t assume "gate_step s t" and "gate_inv s \<and> log_safe (gs_log s)"
  then show "gate_inv t \<and> log_safe (gs_log t)" using gate_step_inv [of s t] gate_step_log [of s t] log_safe_snoc by auto
qed

lemma pause_stands_after:
  "Cleared w \<notin> set ys \<Longrightarrow> pause_stands w (rev (xs @ PauseSet w # ys))"
  by (induction ys rule: rev_induct) auto

text \<open>C37. Once a pause is acknowledged no claim runs: in every interleaving of any number of processes that
  pause, resume and claim, with direct btq pauses in between, after the point at which a gate pause has set
  the flag (which is before it is acknowledged) and as long as no resume has cleared it, btq's claim for that
  workstream is neither started nor still in flight, and no two processes are ever inside the same
  workstream's lock.\<close>

theorem no_claim_after_pause:
  assumes "gate_step\<^sup>*\<^sup>* initial_gate s"
  shows "(\<forall>w xs ys e. gs_log s = xs @ PauseSet w # ys \<longrightarrow> Cleared w \<notin> set ys \<longrightarrow> e \<in> set ys \<longrightarrow> \<not> claim_event w e) \<and>
    (\<forall>p q w. holds_ws (gs_pc s p) = Some w \<longrightarrow> holds_ws (gs_pc s q) = Some w \<longrightarrow> p = q)"
proof -
  have "gate_inv s \<and> log_safe (gs_log s)"
    using gate_log.run_invar [OF assms] initial_gate_inv by (simp add: initial_gate_def log_safe_def)
  then have inv: "gate_inv s" and safe: "log_safe (gs_log s)" by blast+
  have "\<not> claim_event w e" if l: "gs_log s = xs @ PauseSet w # ys" and c: "Cleared w \<notin> set ys" and e: "e \<in> set ys" for w xs ys e
  proof -
    obtain i where i: "i < length ys" "ys ! i = e" using e by (auto simp: in_set_conv_nth)
    have "pause_stands w (rev (xs @ PauseSet w # take i ys))"
      by (rule pause_stands_after) (use c in \<open>auto dest: in_set_takeD\<close>)
    moreover have "take (Suc (length xs + i)) (gs_log s) = xs @ PauseSet w # take i ys" "gs_log s ! Suc (length xs + i) = e"
      using l i by (simp_all add: nth_append)
    ultimately show ?thesis using safe l i(1) unfolding log_safe_def
      by (metis add_Suc_right length_append length_Cons nat_add_left_cancel_less Suc_less_eq)
  qed
  then show ?thesis using gate_inv_exclusive [OF inv] by blast
qed

lemma example_gate_run:
  "\<exists>s. gate_step\<^sup>*\<^sup>* initial_gate s \<and> gs_log s = [PauseSet ''w'']"
proof -
  let ?c = "CallPause ''w''"
  let ?s1 = "goto 0 (Waiting ?c) initial_gate"
  let ?s2 = "goto 0 (Locked ?c) (?s1\<lparr>gs_lock := (gs_lock ?s1)(call_ws ?c := Some 0)\<rparr>)"
  let ?s3 = "goto 0 (Leaving ''w'') (log_event (PauseSet ''w'') (set_paused ''w'' True ?s2))"
  have "gate_step initial_gate ?s1" by (rule g_call) (simp add: initial_gate_def)
  moreover have "gate_step ?s1 ?s2" by (rule g_lock) (simp_all add: gate_defs initial_gate_def)
  moreover have "gate_step ?s2 ?s3" by (rule g_pause) (simp add: gate_defs)
  ultimately have "gate_step\<^sup>*\<^sup>* initial_gate ?s3" by (meson r_into_rtranclp rtranclp_trans)
  moreover have "gs_log ?s3 = [PauseSet ''w'']" by (simp add: gate_defs initial_gate_def)
  ultimately show ?thesis by blast
qed

theorem no_claim_after_pause_witness:
  "\<exists>s :: gate_state. gs_log s = [PauseSet ''w''] \<and> (\<forall>p q w. holds_ws (gs_pc s p) = Some w \<longrightarrow> holds_ws (gs_pc s q) = Some w \<longrightarrow> p = q)"
proof -
  from example_gate_run obtain s where r: "gate_step\<^sup>*\<^sup>* initial_gate s" and l: "gs_log s = [PauseSet ''w'']" by blast
  show ?thesis by (rule exI [of _ s], rule conjI [OF l no_claim_after_pause [OF r, THEN conjunct2]])
qed

end
