(* ===== verification/Beads.thy ===== *)
theory Beads
  imports States Launches
begin

text \<open>
  A bead as btq shows it (\<^verbatim>\<open>wsd/beads.py\<close>: \<^verbatim>\<open>Dep\<close>, \<^verbatim>\<open>Bead\<close>) and what its labels and open
  blockers mean for a parked bead (\<^verbatim>\<open>wsd/park.py\<close>). Only the fields wsd decides on are kept. The
  launched-session record is JSON metadata; what reading it gives is the field \<open>bd_record\<close>, and the
  metadata value of the launch entries is \<open>bd_launches\<close>.
\<close>

section \<open>Labels and dependencies\<close>

definition L_PARKED :: string where "L_PARKED = ''v2:parked''"
definition L_HELD :: string where "L_HELD = ''v2:held''"
definition L_DEFERRED :: string where "L_DEFERRED = ''v2:deferred''"
definition L_NEEDS_HUMAN :: string where "L_NEEDS_HUMAN = ''needs-human''"

definition OPERATOR_INPUT_LABELS :: "string list" where
  "OPERATOR_INPUT_LABELS = [''kind:approval'', ''kind:question'', ''kind:confirm'']"

definition NON_BLOCKING_DEPS :: "string list" where
  "NON_BLOCKING_DEPS = [''parent-child'', ''related'', ''discovered-from'']"

record dep =
  dp_id :: string
  dp_status :: string
  dp_kind :: string
  dp_labels :: "string list"

definition dep_blocking :: "dep \<Rightarrow> bool" where
  "dep_blocking d \<longleftrightarrow> dp_kind d \<notin> set NON_BLOCKING_DEPS \<and> dp_status d \<noteq> ''closed''"

text \<open>The launched-session record: absent, present but unreadable, or what was launched. \<open>bd_thread\<close> is the
  record's \<^verbatim>\<open>thread_id\<close> field and \<open>bd_repo\<close> the metadata's \<^verbatim>\<open>repo\<close>.\<close>

record session_record =
  sr_role :: string
  sr_profile :: string
  sr_session_key :: session_key
  sr_repo :: string
  sr_worktree :: string

datatype bead_record = NoRecord | RecordUnreadable | RecordOf session_record

record bead =
  bd_id :: bead_id
  bd_status :: string
  bd_labels :: "string list"
  bd_record :: bead_record
  bd_thread :: "string option"
  bd_launches :: metadata_value
  bd_repo :: metadata_value
  bd_deps :: "dep list"

definition labelled :: "bead \<Rightarrow> string \<Rightarrow> bool" where
  "labelled b l \<longleftrightarrow> l \<in> set (bd_labels b)"

definition open_blockers :: "bead \<Rightarrow> dep list" where
  "open_blockers b = filter dep_blocking (bd_deps b)"

definition waits_on_operator :: "bead \<Rightarrow> bool" where
  "waits_on_operator b \<longleftrightarrow>
     list_ex (\<lambda>d. list_ex (\<lambda>l. l \<in> set (dp_labels d)) OPERATOR_INPUT_LABELS) (open_blockers b)"

section \<open>What a parked bead waits for\<close>

definition parked_state :: "bead \<Rightarrow> BeadState" where
  "parked_state b =
     (if labelled b L_HELD then HELD else if waits_on_operator b then WAITING_INPUT else PARKED)"

fun commas :: "string list \<Rightarrow> string" where
  "commas [] = []"
| "commas [x] = x"
| "commas (x # xs) = x @ '','' @ commas xs"

definition blocker_detail :: "bead \<Rightarrow> string" where
  "blocker_detail b = commas (sort (map dp_id (open_blockers b)))"

definition resumable :: "bead \<Rightarrow> bool" where
  "resumable b \<longleftrightarrow> labelled b L_PARKED \<and> \<not> labelled b L_HELD \<and> \<not> labelled b L_NEEDS_HUMAN \<and> open_blockers b = []"

text \<open>\<^verbatim>\<open>REASONS\<close>: the reason that goes with each state \<open>parked_state\<close> gives.\<close>

definition parked_reason :: "BeadState \<Rightarrow> Reason" where
  "parked_reason st =
     (if st = HELD then HELD_BY_OPERATOR else if st = WAITING_INPUT then WAITING_ON_OPERATOR else BLOCKED_ON_BEAD)"

lemma resumable_parked: "resumable b \<Longrightarrow> parked_state b = PARKED"
  by (simp add: resumable_def parked_state_def waits_on_operator_def)

lemma parked_state_waiting: "parked_state b \<in> WAITING"
  by (simp add: parked_state_def WAITING_def)

end
