(* ===== verification/Sweep.thy ===== *)
theory Sweep
  imports Beads Journal_Steps
begin

text \<open>
  The reconciliation sweep (\<^verbatim>\<open>wsd/sweep.py\<close>) with the escalation it uses (\<^verbatim>\<open>wsd/park.py\<close>:
  \<^verbatim>\<open>escalate\<close>, \<^verbatim>\<open>replay_escalate\<close>, \<^verbatim>\<open>_finish\<close>, \<^verbatim>\<open>_settle_uncertain\<close>, \<^verbatim>\<open>current_deferral\<close>). The beads
  queue and the agent runtime are services: the record \<open>services\<close> holds what they answer during one sweep,
  where \<open>None\<close> is BeadsUnavailable or RuntimeUnavailable. The sweep changes the journal and counts what it
  did; an exception leaves what was done before it. All journal writes of a sweep carry one timestamp, and
  \<open>new_id\<close> gives the id of the operation opened for a bead.
\<close>

section \<open>Services and state\<close>

record session =
  sn_key :: session_key
  sn_bead :: bead_id

datatype validation = ValidOurs | ValidRouting | ValidNotOurs | ValidUnavailable
datatype label_answer = LabelSet | LabelNotOurs | LabelUnavailable

record services =
  sv_ours :: "bead list option"
  sv_sessions :: "session list option"
  sv_stop :: "session_key \<Rightarrow> bool"
  sv_exists :: "bead_id \<Rightarrow> bool option"
  sv_status :: "bead_id \<Rightarrow> string option"
  sv_validate :: "bead_id \<Rightarrow> validation"
  sv_label :: "bead_id \<Rightarrow> label_answer"

datatype sweep_exn = BeadsUnavailable | RuntimeUnavailable | JournalRaised journal_error

record sweep_state =
  sw_journal :: journal
  sw_resumes :: "bead_id list"
  sw_held :: nat
  sw_stopped :: "session_key list"
  sw_unconfirmed :: nat
  sw_deferred :: "bead_id list"
  sw_labelled :: "bead_id list"

record sweep_context =
  cx_services :: services
  cx_ws :: ws_name
  cx_ts :: timestamp
  cx_new_id :: "bead_id \<Rightarrow> string"
  cx_defer :: bool

type_synonym sweep_result = "sweep_state \<times> sweep_exn option"
type_synonym sweep_action = "sweep_state \<Rightarrow> sweep_result"

definition done_ok :: sweep_action where "done_ok s = (s, None)"

definition raise_exn :: "sweep_exn \<Rightarrow> sweep_action" where "raise_exn e s = (s, Some e)"

definition and_then :: "sweep_action \<Rightarrow> sweep_action \<Rightarrow> sweep_action" where
  "and_then f g s = (case f s of (s', None) \<Rightarrow> g s' | (s', Some e) \<Rightarrow> (s', Some e))"

fun for_each :: "('a \<Rightarrow> sweep_action) \<Rightarrow> 'a list \<Rightarrow> sweep_action" where
  "for_each f [] = done_ok"
| "for_each f (x # xs) = and_then (f x) (for_each f xs)"

text \<open>One journal transaction: all of it or, when it raises, nothing.\<close>

definition journal_do :: "(journal \<Rightarrow> journal_error + journal) \<Rightarrow> sweep_action" where
  "journal_do f s = (case f (sw_journal s) of
     Inl e \<Rightarrow> (s, Some (JournalRaised e)) | Inr j \<Rightarrow> (s\<lparr>sw_journal := j\<rparr>, None))"

definition adopt_row :: "sweep_context \<Rightarrow> bead_id \<Rightarrow> BeadState \<Rightarrow> Reason option \<Rightarrow> string \<Rightarrow> sweep_action" where
  "adopt_row c b st reason detail = journal_do (\<lambda>j. Inr (adopt (cx_ts c) (cx_ws c) b st reason detail None j))"

section \<open>Escalation\<close>

definition settle_uncertain :: "sweep_context \<Rightarrow> bead_id \<Rightarrow> journal \<Rightarrow> journal" where
  "settle_uncertain c b j =
     (if map_of (holds (cx_ws c) j) LAUNCH_UNCERTAIN = Some b then unhold (cx_ts c) (cx_ws c) LAUNCH_UNCERTAIN j else j)"

text \<open>\<^verbatim>\<open>_finish\<close> of an escalation: no state change.\<close>

definition finish_op :: "sweep_context \<Rightarrow> bead_id \<Rightarrow> OpStatus \<Rightarrow> journal \<Rightarrow> journal_error + journal" where
  "finish_op c b status j =
     bind_result (op_finish (cx_ts c) (cx_new_id c b) status j) (\<lambda>j. Inr (settle_uncertain c b j))"

definition replay_escalate :: "sweep_context \<Rightarrow> bead_id \<Rightarrow> sweep_action" where
  "replay_escalate c b =
     (case sv_label (cx_services c) b of
        LabelUnavailable \<Rightarrow> raise_exn BeadsUnavailable
      | LabelNotOurs \<Rightarrow> journal_do (finish_op c b OP_ABANDONED)
      | LabelSet \<Rightarrow> and_then (\<lambda>s. done_ok (s\<lparr>sw_labelled := sw_labelled s @ [b]\<rparr>)) (journal_do (finish_op c b OP_DONE)))"

definition open_escalation :: "sweep_context \<Rightarrow> bead_id \<Rightarrow> Reason \<Rightarrow> string \<Rightarrow> journal \<Rightarrow> journal_error + journal" where
  "open_escalation c b reason detail j =
     bind_result (op_open (cx_ts c) (cx_new_id c b) ESCALATE (cx_ws c) b [(''reason'', reason_value reason)] j) (\<lambda>(r, j).
       Inr (adopt (cx_ts c) (cx_ws c) b STUCK (Some reason) detail None j))"

definition escalate :: "sweep_context \<Rightarrow> bead_id \<Rightarrow> Reason \<Rightarrow> string \<Rightarrow> sweep_action" where
  "escalate c b reason detail = and_then (journal_do (open_escalation c b reason detail)) (replay_escalate c b)"

definition hold_bead :: "sweep_context \<Rightarrow> bead_id \<Rightarrow> Reason \<Rightarrow> string \<Rightarrow> sweep_action" where
  "hold_bead c b reason detail s = escalate c b reason detail (s\<lparr>sw_held := sw_held s + 1\<rparr>)"

section \<open>Resumes\<close>

definition resume_op :: "sweep_context \<Rightarrow> bead_id \<Rightarrow> journal \<Rightarrow> journal_error + journal" where
  "resume_op c b j =
     bind_result (op_open (cx_ts c) (cx_new_id c b) RESUME (cx_ws c) b [(''ref'', [])] j) (\<lambda>(r, j).
     bind_result (op_step (cx_ts c) (cx_new_id c b) ''unlabelled'' [] j) (\<lambda>(r, j).
     set_state (cx_ts c) (cx_ws c) b RESUMING (Some SESSION_DEAD) [] None j))"

fun resume_ops :: "sweep_context \<Rightarrow> bead_id list \<Rightarrow> journal \<Rightarrow> journal_error + journal" where
  "resume_ops c [] j = Inr j"
| "resume_ops c (b # bs) j = bind_result (resume_op c b j) (resume_ops c bs)"

definition open_resumes :: "sweep_context \<Rightarrow> bead_id list \<Rightarrow> sweep_action" where
  "open_resumes c bs = and_then (journal_do (resume_ops c bs)) (\<lambda>s. done_ok (s\<lparr>sw_resumes := sw_resumes s @ bs\<rparr>))"

section \<open>Beads that are not ours\<close>

definition KEEP :: "BeadState set" where "KEEP = {STUCK, HELD}"

definition stop_session :: "sweep_context \<Rightarrow> session \<Rightarrow> sweep_action" where
  "stop_session c se s =
     done_ok (if sv_stop (cx_services c) (sn_key se) then s\<lparr>sw_stopped := sw_stopped s @ [sn_key se]\<rparr> else s)"

definition gone_detail :: string where "gone_detail = ''the bead no longer exists''"

definition not_ours :: "sweep_context \<Rightarrow> bead_id \<Rightarrow> session list \<Rightarrow> sweep_action" where
  "not_ours c b ss =
     and_then (for_each (stop_session c) ss)
       (if list_ex (\<lambda>se. \<not> sv_stop (cx_services c) (sn_key se)) ss
        then (\<lambda>s. adopt_row c b STUCK (Some STOP_UNCONFIRMED) [] (s\<lparr>sw_unconfirmed := sw_unconfirmed s + 1\<rparr>))
        else case sv_exists (cx_services c) b of
          None \<Rightarrow> raise_exn BeadsUnavailable
        | Some False \<Rightarrow> adopt_row c b DROPPED (Some CLAIM_LOST) gone_detail
        | Some True \<Rightarrow>
            (case sv_status (cx_services c) b of
               None \<Rightarrow> raise_exn BeadsUnavailable
             | Some st \<Rightarrow>
                 if st = ''closed'' then adopt_row c b CLOSED None []
                 else (\<lambda>s. if state (cx_ws c) b (sw_journal s) \<noteq> None
                           then adopt_row c b STUCK (Some CLAIM_LOST) [] s else done_ok s)))"

section \<open>Beads that are ours\<close>

definition current_deferral :: "bead \<Rightarrow> journal \<Rightarrow> (int \<times> deferral_row) option" where
  "current_deferral b j = (case bd_record b of RecordOf rec \<Rightarrow> deferral_current (sr_session_key rec) j | _ \<Rightarrow> None)"

definition sweep_deferred :: "sweep_context \<Rightarrow> bead \<Rightarrow> BeadState \<Rightarrow> session list \<Rightarrow> sweep_action" where
  "sweep_deferred c b st ss s =
     (if ss \<noteq> [] then hold_bead c (bd_id b) UNEXPECTED_STATE ''deferred, but a session is listed'' s
      else if st \<noteq> DEFERRED
      then hold_bead c (bd_id b) UNEXPECTED_STATE (''deferred, but the journal says '' @ bead_state_value st) s
      else if current_deferral b (sw_journal s) = None
      then hold_bead c (bd_id b) UNEXPECTED_STATE ''deferred without a deferral record'' s
      else done_ok s)"

definition sweep_running :: "sweep_context \<Rightarrow> bead \<Rightarrow> session list \<Rightarrow> sweep_action" where
  "sweep_running c b ss =
     (case bd_record b of
        RecordOf rec \<Rightarrow>
          if list_ex (\<lambda>se. sn_key se \<noteq> sr_session_key rec) ss
          then hold_bead c (bd_id b) UNEXPECTED_STATE ''a session not in its record is listed''
          else if ss = []
          then if cx_defer c then (\<lambda>s. done_ok (s\<lparr>sw_deferred := sw_deferred s @ [bd_id b]\<rparr>))
               else open_resumes c [bd_id b]
          else done_ok
      | _ \<Rightarrow> hold_bead c (bd_id b) LAUNCH_UNRECORDED [])"

definition sweep_parked :: "sweep_context \<Rightarrow> bead \<Rightarrow> bead_row \<Rightarrow> session list \<Rightarrow> sweep_action" where
  "sweep_parked c b row ss =
     (if ss \<noteq> [] then hold_bead c (bd_id b) UNEXPECTED_STATE ''parked, but a session is listed''
      else if b_state row \<in> WAITING
      then (let st = parked_state b in
            if b_state row = PARKED \<and> b_reason row = Some QUOTA \<and> st = PARKED \<and> open_blockers b = [] then done_ok
            else if (b_state row, b_detail row) \<noteq> (st, blocker_detail b)
            then adopt_row c (bd_id b) st (Some (parked_reason st)) (blocker_detail b)
            else done_ok)
      else hold_bead c (bd_id b) UNEXPECTED_STATE (''parked, but the journal says '' @ bead_state_value (b_state row)))"

definition sweep_labels :: "sweep_context \<Rightarrow> bead \<Rightarrow> bead_row \<Rightarrow> session list \<Rightarrow> sweep_action" where
  "sweep_labels c b row ss =
     (if labelled b L_DEFERRED then sweep_deferred c b (b_state row) ss
      else if b_state row = DEFERRED
      then hold_bead c (bd_id b) UNEXPECTED_STATE ''the journal says deferred, but the bead isn't labelled''
      else if labelled b L_HELD \<and> \<not> labelled b L_PARKED
      then hold_bead c (bd_id b) UNEXPECTED_STATE ''v2:held without v2:parked''
      else if labelled b L_PARKED then sweep_parked c b row ss
      else if b_state row \<noteq> RUNNING
      then hold_bead c (bd_id b) UNEXPECTED_STATE (''running, but the journal says '' @ bead_state_value (b_state row))
      else sweep_running c b ss)"

definition sweep_ours :: "sweep_context \<Rightarrow> bead \<Rightarrow> session list \<Rightarrow> sweep_action" where
  "sweep_ours c b ss s =
     (let row = state (cx_ws c) (bd_id b) (sw_journal s) in
      if labelled b L_NEEDS_HUMAN
      then if map_option b_state row = Some STUCK then done_ok s
           else adopt_row c (bd_id b) STUCK (Some NEEDS_HUMAN) [] s
      else case row of
        None \<Rightarrow> hold_bead c (bd_id b) JOURNAL_LOST ''claimed by this workstream, with no journal record'' s
      | Some r \<Rightarrow>
          if b_state r \<in> KEEP then done_ok s
          else if bd_status b \<noteq> ''in_progress''
          then hold_bead c (bd_id b) UNEXPECTED_STATE (''claimed with status '' @ bd_status b) s
          else (case sv_validate (cx_services c) (bd_id b) of
                  ValidUnavailable \<Rightarrow> raise_exn BeadsUnavailable s
                | ValidRouting \<Rightarrow> hold_bead c (bd_id b) ROUTING_CHANGED [] s
                | ValidNotOurs \<Rightarrow> adopt_row c (bd_id b) STUCK (Some CLAIM_LOST) [] s
                | ValidOurs \<Rightarrow> sweep_labels c b r ss s))"

section \<open>The sweep\<close>

definition sessions_of :: "session list \<Rightarrow> bead_id \<Rightarrow> session list" where
  "sessions_of ss b = filter (\<lambda>se. sn_bead se = b) ss"

text \<open>The dictionary of our beads: of two beads with one id the later one stays.\<close>

fun keyed_by_id :: "bead list \<Rightarrow> bead list" where
  "keyed_by_id [] = []"
| "keyed_by_id (b # bs) = (if bd_id b \<in> bd_id ` set bs then keyed_by_id bs else b # keyed_by_id bs)"

definition no_op :: "sweep_context \<Rightarrow> bead_id \<Rightarrow> sweep_action \<Rightarrow> sweep_action" where
  "no_op c b act s = (if op_for (cx_ws c) b (sw_journal s) = None then act s else done_ok s)"

definition sweep_row :: "sweep_context \<Rightarrow> bead_id list \<Rightarrow> bead_id list \<Rightarrow> bead_id \<times> bead_row \<Rightarrow> sweep_action" where
  "sweep_row c ours listed entry =
     (case entry of (b, row) \<Rightarrow>
        if b_state row \<in> TERMINAL \<or> b \<in> set ours \<or> b \<in> set listed then done_ok
        else no_op c b
          (if b_state row \<notin> KEEP then not_ours c b []
           else case sv_exists (cx_services c) b of
                  None \<Rightarrow> raise_exn BeadsUnavailable
                | Some True \<Rightarrow> done_ok
                | Some False \<Rightarrow> adopt_row c b DROPPED (Some CLAIM_LOST) gone_detail))"

text \<open>Python reads the rows once, after the sessions' loop.\<close>

definition sweep :: "sweep_context \<Rightarrow> sweep_action" where
  "sweep c s =
     (case sv_ours (cx_services c) of
        None \<Rightarrow> (s, Some BeadsUnavailable)
      | Some ours \<Rightarrow>
          (case sv_sessions (cx_services c) of
             None \<Rightarrow> (s, Some RuntimeUnavailable)
           | Some ss \<Rightarrow>
               (let own = map bd_id ours; listed = sort (remdups (map sn_bead ss)) in
                and_then (for_each (\<lambda>b. if b \<in> set own then done_ok else no_op c b (not_ours c b (sessions_of ss b))) listed)
                (and_then (\<lambda>s. for_each (sweep_row c own listed) (states (cx_ws c) (sw_journal s)) s)
                (for_each (\<lambda>b. no_op c (bd_id b) (sweep_ours c b (sessions_of ss (bd_id b)))) (sort_key bd_id (keyed_by_id ours)))) s)))"

section \<open>What an action may change\<close>

text \<open>A relation every action of the sweep stays in composes along \<open>and_then\<close> and \<open>for_each\<close>.\<close>

locale sweep_relation =
  fixes R :: "sweep_state \<Rightarrow> sweep_state \<Rightarrow> bool"
  assumes R_refl: "R s s" and R_trans: "R s t \<Longrightarrow> R t u \<Longrightarrow> R s u"
begin

lemma done_ok_R: "R s (fst (done_ok s))"
  by (simp add: done_ok_def R_refl)

lemma raise_R: "R s (fst (raise_exn e s))"
  by (simp add: raise_exn_def R_refl)

lemma and_then_R: "R s (fst (f s)) \<Longrightarrow> (\<And>s. R s (fst (g s))) \<Longrightarrow> R s (fst (and_then f g s))"
  using R_trans [of s "fst (f s)" "fst (g (fst (f s)))"]
  by (cases "f s"; cases "snd (f s)") (simp_all add: and_then_def)

lemma for_each_R: "(\<And>x s. x \<in> set xs \<Longrightarrow> R s (fst (f x s))) \<Longrightarrow> R s (fst (for_each f xs s))"
proof (induction xs arbitrary: s)
  case (Cons x xs)
  then show ?case unfolding for_each.simps by (intro and_then_R) simp_all
qed (simp add: done_ok_R)

lemma no_op_R: "R s (fst (act s)) \<Longrightarrow> R s (fst (no_op c b act s))"
  by (simp add: no_op_def done_ok_def R_refl)

lemmas action_R = done_ok_R raise_R and_then_R for_each_R no_op_R

end

text \<open>Changes confined to the beads in a set: the journal only moves by its own methods, no launch entry or
  receipt changes, and no other bead's row or open operation does.\<close>

definition confined :: "ws_name \<Rightarrow> bead_id set \<Rightarrow> journal \<Rightarrow> journal \<Rightarrow> bool" where
  "confined ws B j j' \<longleftrightarrow> jstep\<^sup>*\<^sup>* j j' \<and> j_launches j' = j_launches j \<and> j_receipts j' = j_receipts j \<and>
     (\<forall>x. x \<notin> B \<longrightarrow> state ws x j' = state ws x j \<and> op_for ws x j' = op_for ws x j)"

lemma confined_refl [simp]: "confined ws B j j"
  by (simp add: confined_def)

lemma confined_trans: "confined ws B j k \<Longrightarrow> confined ws B k l \<Longrightarrow> confined ws B j l"
  unfolding confined_def by (auto intro: rtranclp_trans)

lemma confined_mono: "confined ws B j k \<Longrightarrow> B \<subseteq> B' \<Longrightarrow> confined ws B' j k"
  unfolding confined_def by blast

interpretation sweep_frame: sweep_relation "\<lambda>s s'. confined ws B (sw_journal s) (sw_journal s')" for ws B
  by unfold_locales (simp, erule (1) confined_trans)

text \<open>The beads handed to the guard.\<close>

definition same_resumes :: "sweep_state \<Rightarrow> sweep_state \<Rightarrow> bool" where
  "same_resumes s s' \<longleftrightarrow> sw_resumes s' = sw_resumes s \<and> sw_deferred s' = sw_deferred s"

interpretation sweep_quiet: sweep_relation same_resumes
  by unfold_locales (simp_all add: same_resumes_def)

subsection \<open>The journal's part\<close>

lemma put_state_frame:
  "j_launches (put_state ts ws b cur st re d rf j) = j_launches j" "j_receipts (put_state ts ws b cur st re d rf j) = j_receipts j"
  "j_ops (put_state ts ws b cur st re d rf j) = j_ops j"
  "x \<noteq> b \<Longrightarrow> state ws x (put_state ts ws b cur st re d rf j) = state ws x j"
  by (auto simp: put_state_def emit_def state_def Let_def update_conv split: option.splits)

lemma find_snoc_other: "\<not> P y \<Longrightarrow> find P (xs @ [y]) = find P xs"
  by (induction xs) simp_all

lemma find_update_other:
  "map_of t k = Some v \<Longrightarrow> \<not> P (k, v) \<Longrightarrow> \<not> P (k, w) \<Longrightarrow> find P (AList.update k w t) = find P t"
  by (induction t) (auto split: if_splits)

lemma confinedI:
  assumes "jstep j j'" "j_launches j' = j_launches j" "j_receipts j' = j_receipts j"
    and "\<And>x. x \<notin> B \<Longrightarrow> state ws x j' = state ws x j" "\<And>x. x \<notin> B \<Longrightarrow> op_for ws x j' = op_for ws x j"
  shows "confined ws B j j'"
  using assms unfolding confined_def by blast

lemma adopt_confined: "confined ws {b} j (adopt ts ws b st re d rf j)"
  by (rule confinedI [OF s_adopt [OF refl]]) (simp_all add: adopt_def put_state_frame op_for_def)

lemma adopt_state: "map_option b_state (state ws b (adopt ts ws b st re d rf j)) = Some st"
  unfolding adopt_def by (rule put_state_state)

lemma set_state_confined: "set_state ts ws b st re d rf j = Inr j' \<Longrightarrow> confined ws {b} j j'"
  by (frule set_state_put, rule confinedI [OF s_set_state], assumption) (simp_all add: put_state_frame op_for_def)

lemma unhold_confined: "confined ws B j (unhold ts ws r j)"
  by (rule confinedI [OF s_unhold [OF refl]]) (simp_all add: unhold_def emit_def Let_def state_def op_for_def)

lemma unhold_state: "state ws x (unhold ts ws r j) = state ws x j"
  by (simp add: unhold_def emit_def Let_def state_def)

text \<open>The operation under an id is one of this bead's.\<close>

definition owns_op :: "string \<Rightarrow> bead_id \<Rightarrow> journal \<Rightarrow> bool" where
  "owns_op i b j \<longleftrightarrow> (\<exists>r. map_of (j_ops j) i = Some r \<and> o_bead r = b)"

lemma op_open_confined:
  assumes "op_open ts i k ws b d j = Inr (r, j')"
  shows "confined ws {b} j j' \<and> owns_op i b j' \<and> (\<forall>x. state ws x j' = state ws x j)"
  using assms s_op_open [OF assms]
  by (auto simp: op_open_def Let_def confined_def owns_op_def op_for_def find_snoc_other state_def
      map_of_append_new simp del: map_of_append split: if_splits)

lemma op_step_confined:
  assumes "op_step ts i st d j = Inr (r, j')" and "owns_op i b j"
  shows "confined ws {b} j j' \<and> (\<forall>x. state ws x j' = state ws x j)"
  using assms s_op_step [OF assms(1)]
  by (auto simp: op_step_def op_get_def op_put_def Let_def confined_def owns_op_def op_for_def find_update_other state_def
      split: if_splits option.splits)

lemma op_finish_confined:
  assumes "op_finish ts i st j = Inr j'" and "owns_op i b j"
  shows "confined ws {b} j j' \<and> (\<forall>x. state ws x j' = state ws x j)"
  using assms s_op_finish [OF assms(1)]
  by (auto simp: op_finish_def op_put_def Let_def confined_def owns_op_def op_for_def find_update_other state_def
      split: if_splits option.splits)

subsection \<open>Escalations and resumes\<close>

lemma owns_op_adopt: "owns_op i b (adopt ts ws x st re d rf j) = owns_op i b j"
  by (simp add: owns_op_def adopt_def put_state_frame)

lemma open_escalation_confined:
  assumes "open_escalation c b re d j = Inr j'"
  shows "confined (cx_ws c) {b} j j' \<and> owns_op (cx_new_id c b) b j' \<and>
    map_option b_state (state (cx_ws c) b j') = Some STUCK"
proof -
  from assms obtain r k where k: "op_open (cx_ts c) (cx_new_id c b) ESCALATE (cx_ws c) b [(''reason'', reason_value re)] j = Inr (r, k)"
    and j': "j' = adopt (cx_ts c) (cx_ws c) b STUCK (Some re) d None k"
    by (auto simp: open_escalation_def bind_result_eq_Inr)
  from op_open_confined [OF k] show ?thesis
    unfolding j' owns_op_adopt adopt_state using confined_trans [OF _ adopt_confined] by blast
qed

lemma finish_op_confined:
  assumes "finish_op c b st j = Inr j'" and "owns_op (cx_new_id c b) b j"
  shows "confined (cx_ws c) {b} j j' \<and> state (cx_ws c) b j' = state (cx_ws c) b j"
proof -
  from assms(1) obtain k where k: "op_finish (cx_ts c) (cx_new_id c b) st j = Inr k" and j': "j' = settle_uncertain c b k"
    by (auto simp: finish_op_def bind_result_eq_Inr)
  have "confined (cx_ws c) {b} k j' \<and> state (cx_ws c) b j' = state (cx_ws c) b k"
    by (simp add: j' settle_uncertain_def unhold_confined unhold_state)
  with op_finish_confined [OF k assms(2)] show ?thesis by (metis confined_trans)
qed

lemma journal_do_cases:
  obtains (raised) e where "f (sw_journal s) = Inl e" "journal_do f s = (s, Some (JournalRaised e))"
  | (ok) j where "f (sw_journal s) = Inr j" "journal_do f s = (s\<lparr>sw_journal := j\<rparr>, None)"
  by (cases "f (sw_journal s)") (simp_all add: journal_do_def that)

lemma replay_escalate_frame:
  assumes "owns_op (cx_new_id c b) b (sw_journal s)"
  shows "confined (cx_ws c) {b} (sw_journal s) (sw_journal (fst (replay_escalate c b s))) \<and>
    same_resumes s (fst (replay_escalate c b s)) \<and>
    state (cx_ws c) b (sw_journal (fst (replay_escalate c b s))) = state (cx_ws c) b (sw_journal s)"
  using assms finish_op_confined [of c b _ "sw_journal s"]
  by (auto simp: replay_escalate_def raise_exn_def and_then_def done_ok_def journal_do_def same_resumes_def
      split: label_answer.splits sum.splits)

text \<open>Escalating touches one bead, hands nothing to the guard, and leaves the bead STUCK when it returns.\<close>

lemma escalate_frame:
  "confined (cx_ws c) {b} (sw_journal s) (sw_journal (fst (escalate c b re d s))) \<and>
   same_resumes s (fst (escalate c b re d s)) \<and>
   (snd (escalate c b re d s) = None \<longrightarrow>
      map_option b_state (state (cx_ws c) b (sw_journal (fst (escalate c b re d s)))) = Some STUCK)"
proof (cases rule: journal_do_cases [of "open_escalation c b re d" s])
  case (raised e)
  then show ?thesis by (simp add: escalate_def and_then_def same_resumes_def)
next
  case (ok j)
  let ?s = "s\<lparr>sw_journal := j\<rparr>"
  have e: "escalate c b re d s = replay_escalate c b ?s" by (simp add: escalate_def and_then_def ok(2))
  note o = open_escalation_confined [OF ok(1)]
  have "owns_op (cx_new_id c b) b (sw_journal ?s)" using o by simp
  from replay_escalate_frame [OF this] o show ?thesis unfolding e
    by (auto simp: same_resumes_def intro: confined_trans)
qed

lemma hold_bead_frame:
  "confined (cx_ws c) {b} (sw_journal s) (sw_journal (fst (hold_bead c b re d s))) \<and>
   same_resumes s (fst (hold_bead c b re d s)) \<and>
   (snd (hold_bead c b re d s) = None \<longrightarrow>
      map_option b_state (state (cx_ws c) b (sw_journal (fst (hold_bead c b re d s)))) = Some STUCK)"
  using escalate_frame [of c b "s\<lparr>sw_held := sw_held s + 1\<rparr>" re d] by (simp add: hold_bead_def same_resumes_def)

lemma adopt_row_frame:
  "confined (cx_ws c) {b} (sw_journal s) (sw_journal (fst (adopt_row c b st re d s))) \<and>
   same_resumes s (fst (adopt_row c b st re d s)) \<and>
   map_option b_state (state (cx_ws c) b (sw_journal (fst (adopt_row c b st re d s)))) = Some st"
  using adopt_confined [of "cx_ws c" b "sw_journal s" "cx_ts c" st re d None] adopt_state [of "cx_ws c" b "cx_ts c" st re d None "sw_journal s"]
  by (simp add: adopt_row_def journal_do_def same_resumes_def)

lemma resume_op_frame:
  assumes "resume_op c b j = Inr j'"
  shows "confined (cx_ws c) {b} j j' \<and> map_option b_state (state (cx_ws c) b j') = Some RESUMING"
proof -
  from assms obtain r1 k1 r2 k2 where
      1: "op_open (cx_ts c) (cx_new_id c b) RESUME (cx_ws c) b [(''ref'', [])] j = Inr (r1, k1)"
    and 2: "op_step (cx_ts c) (cx_new_id c b) ''unlabelled'' [] k1 = Inr (r2, k2)"
    and 3: "set_state (cx_ts c) (cx_ws c) b RESUMING (Some SESSION_DEAD) [] None k2 = Inr j'"
    by (auto simp: resume_op_def bind_result_eq_Inr)
  from op_open_confined [OF 1] op_step_confined [OF 2] set_state_confined [OF 3] set_state_state [OF 3]
  show ?thesis by (metis confined_trans)
qed

subsection \<open>Beads that are not ours\<close>

text \<open>What touches one bead and hands nothing to the guard.\<close>

definition minds :: "sweep_context \<Rightarrow> bead_id \<Rightarrow> sweep_state \<Rightarrow> sweep_state \<Rightarrow> bool" where
  "minds c b s s' \<longleftrightarrow> confined (cx_ws c) {b} (sw_journal s) (sw_journal s') \<and> same_resumes s s'"

interpretation sweep_minds: sweep_relation "minds c b" for c b
  by unfold_locales (auto simp: minds_def same_resumes_def intro: confined_trans)

lemma minds_adopt: "minds c b s (fst (adopt_row c b st re d s))"
  using adopt_row_frame [of c b s st re d] by (simp add: minds_def)

lemma minds_hold: "minds c b s (fst (hold_bead c b re d s))"
  using hold_bead_frame [of c b s re d] by (simp add: minds_def)

lemma minds_stop: "minds c b s (fst (stop_session c se s))"
  by (simp add: minds_def stop_session_def done_ok_def same_resumes_def)

lemma minds_count: "minds c b (s\<lparr>sw_unconfirmed := n\<rparr>) t = minds c b s t"
  by (simp add: minds_def same_resumes_def)

lemma not_ours_minds: "minds c b s (fst (not_ours c b ss s))"
  unfolding not_ours_def
proof (rule sweep_minds.and_then_R)
  show "minds c b s (fst (for_each (stop_session c) ss s))" by (rule sweep_minds.for_each_R) (rule minds_stop)
next
  fix s
  have "minds c b s (fst (adopt_row c b STUCK (Some STOP_UNCONFIRMED) [] (s\<lparr>sw_unconfirmed := sw_unconfirmed s + 1\<rparr>)))"
    using minds_adopt [of c b "s\<lparr>sw_unconfirmed := sw_unconfirmed s + 1\<rparr>"] unfolding minds_count .
  then show "minds c b s (fst ((if list_ex (\<lambda>se. \<not> sv_stop (cx_services c) (sn_key se)) ss
        then (\<lambda>s. adopt_row c b STUCK (Some STOP_UNCONFIRMED) [] (s\<lparr>sw_unconfirmed := sw_unconfirmed s + 1\<rparr>))
        else case sv_exists (cx_services c) b of
          None \<Rightarrow> raise_exn BeadsUnavailable
        | Some False \<Rightarrow> adopt_row c b DROPPED (Some CLAIM_LOST) gone_detail
        | Some True \<Rightarrow>
            (case sv_status (cx_services c) b of
               None \<Rightarrow> raise_exn BeadsUnavailable
             | Some st \<Rightarrow>
                 if st = ''closed'' then adopt_row c b CLOSED None []
                 else (\<lambda>s. if state (cx_ws c) b (sw_journal s) \<noteq> None
                           then adopt_row c b STUCK (Some CLAIM_LOST) [] s else done_ok s))) s))"
    by (auto simp: minds_adopt sweep_minds.done_ok_R sweep_minds.raise_R split: option.splits bool.splits)
qed

lemma sweep_row_minds: "minds c (fst e) s (fst (sweep_row c own listed e s))"
  by (auto simp: sweep_row_def not_ours_minds minds_adopt sweep_minds.done_ok_R sweep_minds.raise_R
      intro!: sweep_minds.no_op_R split: prod.splits option.splits bool.splits)

subsection \<open>Beads that are ours\<close>

text \<open>A dead recorded session: the only thing the sweep hands to the launch guard.\<close>

definition unlabelled :: "bead \<Rightarrow> bool" where
  "unlabelled b \<longleftrightarrow> \<not> (labelled b L_NEEDS_HUMAN \<or> labelled b L_DEFERRED \<or> labelled b L_HELD \<or> labelled b L_PARKED)"

definition verified :: "sweep_context \<Rightarrow> session list \<Rightarrow> bead \<Rightarrow> session_record \<Rightarrow> bool" where
  "verified c ss b rec \<longleftrightarrow> unlabelled b \<and> bd_status b = ''in_progress'' \<and> sv_validate (cx_services c) (bd_id b) = ValidOurs \<and>
     bd_record b = RecordOf rec \<and> (\<forall>se\<in>set ss. sn_bead se = bd_id b \<longrightarrow> sn_key se = sr_session_key rec)"

definition dead :: "sweep_context \<Rightarrow> session list \<Rightarrow> bead \<Rightarrow> journal \<Rightarrow> bool" where
  "dead c ss b j \<longleftrightarrow> (\<exists>rec. verified c ss b rec) \<and> sessions_of ss (bd_id b) = [] \<and>
     map_option b_state (state (cx_ws c) (bd_id b) j) = Some RUNNING \<and> op_for (cx_ws c) (bd_id b) j = None"

text \<open>The outcomes of one of our beads: it stays as it is, verified if its row says RUNNING; it is settled in
  another state, or an exception ended the sweep; or its dead session is handed over.\<close>

definition outcome_ok :: "sweep_context \<Rightarrow> session list \<Rightarrow> bead \<Rightarrow> sweep_state \<Rightarrow> sweep_result \<Rightarrow> bool" where
  "outcome_ok c ss b s r \<longleftrightarrow>
     (minds c (bd_id b) s (fst r) \<and>
       (snd r = None \<longrightarrow> map_option b_state (state (cx_ws c) (bd_id b) (sw_journal (fst r))) = Some RUNNING \<longrightarrow>
          (\<exists>rec. verified c ss b rec) \<and> sessions_of ss (bd_id b) \<noteq> [])) \<or>
     (dead c ss b (sw_journal s) \<and>
       (fst r = s\<lparr>sw_deferred := sw_deferred s @ [bd_id b]\<rparr> \<or>
        confined (cx_ws c) {bd_id b} (sw_journal s) (sw_journal (fst r)) \<and> sw_deferred (fst r) = sw_deferred s \<and>
          set (sw_resumes (fst r)) \<subseteq> insert (bd_id b) (set (sw_resumes s)) \<and>
          (snd r = None \<longrightarrow> map_option b_state (state (cx_ws c) (bd_id b) (sw_journal (fst r))) = Some RESUMING)))"

lemma outcome_adopt: "st \<noteq> RUNNING \<Longrightarrow> outcome_ok c ss b s (adopt_row c (bd_id b) st re d s)"
  using adopt_row_frame [of c "bd_id b" s st re d] by (auto simp: outcome_ok_def minds_def)

lemma outcome_hold: "outcome_ok c ss b s (hold_bead c (bd_id b) re d s)"
  using hold_bead_frame [of c "bd_id b" s re d] by (auto simp: outcome_ok_def minds_def)

lemma outcome_done:
  "map_option b_state (state (cx_ws c) (bd_id b) (sw_journal s)) \<noteq> Some RUNNING \<or>
     (\<exists>rec. verified c ss b rec) \<and> sessions_of ss (bd_id b) \<noteq> [] \<Longrightarrow>
   outcome_ok c ss b s (done_ok s)"
  by (auto simp: outcome_ok_def done_ok_def minds_def same_resumes_def)

lemma outcome_raise: "outcome_ok c ss b s (raise_exn e s)"
  by (simp add: outcome_ok_def raise_exn_def minds_def same_resumes_def)

lemma outcome_resume:
  assumes "dead c ss b (sw_journal s)"
  shows "outcome_ok c ss b s (open_resumes c [bd_id b] s)"
proof (cases rule: journal_do_cases [of "resume_ops c [bd_id b]" s])
  case (raised e)
  then show ?thesis by (simp add: outcome_ok_def open_resumes_def and_then_def minds_def same_resumes_def)
next
  case (ok j)
  from ok(1) have "resume_op c (bd_id b) (sw_journal s) = Inr j" by (auto simp: bind_result_eq_Inr)
  from resume_op_frame [OF this] assms show ?thesis
    by (simp add: outcome_ok_def open_resumes_def and_then_def ok(2) done_ok_def)
qed

lemma outcome_running:
  assumes "unlabelled b" "bd_status b = ''in_progress''" "sv_validate (cx_services c) (bd_id b) = ValidOurs"
    and "map_option b_state (state (cx_ws c) (bd_id b) (sw_journal s)) = Some RUNNING"
    and "op_for (cx_ws c) (bd_id b) (sw_journal s) = None"
  shows "outcome_ok c ss b s (sweep_running c b (sessions_of ss (bd_id b)) s)"
proof (cases "bd_record b")
  case (RecordOf rec)
  let ?ss = "sessions_of ss (bd_id b)"
  show ?thesis
  proof (cases "list_ex (\<lambda>se. sn_key se \<noteq> sr_session_key rec) ?ss")
    case True
    then show ?thesis by (simp add: sweep_running_def RecordOf outcome_hold)
  next
    case False
    then have v: "verified c ss b rec"
      using assms by (auto simp: verified_def RecordOf sessions_of_def list_ex_iff)
    show ?thesis
    proof (cases "?ss = []")
      case True
      with v assms have d: "dead c ss b (sw_journal s)" by (auto simp: dead_def)
      then have "outcome_ok c ss b s (done_ok (s\<lparr>sw_deferred := sw_deferred s @ [bd_id b]\<rparr>))"
        by (simp add: outcome_ok_def done_ok_def)
      with True False d show ?thesis by (simp add: sweep_running_def RecordOf outcome_resume)
    next
      case ne: False
      with False v show ?thesis by (simp add: sweep_running_def RecordOf) (rule outcome_done, blast)
    qed
  qed
qed (simp_all add: sweep_running_def outcome_hold)

lemma outcome_deferred:
  assumes "state (cx_ws c) (bd_id b) (sw_journal s) = Some r"
  shows "outcome_ok c ss b s (sweep_deferred c b (b_state r) ss' s)"
  using outcome_done [of c b s ss] assms by (auto simp: sweep_deferred_def outcome_hold)

lemma outcome_parked:
  assumes "state (cx_ws c) (bd_id b) (sw_journal s) = Some r"
  shows "outcome_ok c ss b s (sweep_parked c b r ss' s)"
proof -
  have "RUNNING \<notin> WAITING" "parked_state b \<noteq> RUNNING" by (simp_all add: WAITING_def parked_state_def)
  then show ?thesis
    using outcome_done [of c b s ss] assms
    by (cases "b_state r = RUNNING") (auto simp: sweep_parked_def Let_def outcome_hold outcome_adopt)
qed

lemma outcome_ours:
  assumes "op_for (cx_ws c) (bd_id b) (sw_journal s) = None"
  shows "outcome_ok c ss b s (sweep_ours c b (sessions_of ss (bd_id b)) s)"
proof (cases "state (cx_ws c) (bd_id b) (sw_journal s)")
  case None
  then show ?thesis by (simp add: sweep_ours_def outcome_hold outcome_adopt)
next
  case (Some r)
  have labels: "outcome_ok c ss b s (sweep_labels c b r (sessions_of ss (bd_id b)) s)"
    if "\<not> labelled b L_NEEDS_HUMAN" "bd_status b = ''in_progress''" "sv_validate (cx_services c) (bd_id b) = ValidOurs"
    using that assms Some
    by (simp add: sweep_labels_def outcome_deferred outcome_hold outcome_parked) (intro impI outcome_running, auto simp: unlabelled_def)
  have kept: "outcome_ok c ss b s (done_ok s)" if "b_state r \<in> KEEP"
    using that by (intro outcome_done) (auto simp: Some KEEP_def)
  show ?thesis
    using labels
    by (cases "sv_validate (cx_services c) (bd_id b)")
      (auto simp: sweep_ours_def Some Let_def outcome_hold outcome_adopt outcome_raise kept KEEP_def intro!: outcome_done)
qed

text \<open>One round of the last loop.\<close>

definition own_step :: "sweep_context \<Rightarrow> session list \<Rightarrow> bead \<Rightarrow> sweep_action" where
  "own_step c ss b = no_op c (bd_id b) (sweep_ours c b (sessions_of ss (bd_id b)))"

lemma own_step_outcome:
  "outcome_ok c ss b s (own_step c ss b s) \<or> own_step c ss b s = (s, None) \<and> op_for (cx_ws c) (bd_id b) (sw_journal s) \<noteq> None"
  using outcome_ours [of c b s ss] by (simp add: own_step_def no_op_def done_ok_def)

lemma own_step_confined: "confined (cx_ws c) {bd_id b} (sw_journal s) (sw_journal (fst (own_step c ss b s)))"
  using own_step_outcome [of c ss b s] by (auto simp: outcome_ok_def minds_def)

text \<open>What one round hands over, and what it leaves RUNNING.\<close>

definition handed :: "sweep_state \<Rightarrow> bead_id set" where
  "handed s = set (sw_resumes s) \<union> set (sw_deferred s)"

lemma own_step_handed:
  "handed (fst (own_step c ss b s)) \<subseteq> handed s \<union> {x. x = bd_id b \<and> dead c ss b (sw_journal s)} \<and>
   set (sw_deferred s) \<subseteq> set (sw_deferred (fst (own_step c ss b s)))"
  using own_step_outcome [of c ss b s] by (auto simp: outcome_ok_def minds_def same_resumes_def handed_def)

lemma own_step_running:
  assumes "own_step c ss b s = (t, None)" and "op_for (cx_ws c) (bd_id b) (sw_journal t) = None"
    and "map_option b_state (state (cx_ws c) (bd_id b) (sw_journal t)) = Some RUNNING"
  shows "(\<exists>rec. verified c ss b rec) \<and> (sessions_of ss (bd_id b) \<noteq> [] \<or> bd_id b \<in> set (sw_deferred t))"
  using own_step_outcome [of c ss b s] assms by (auto simp: outcome_ok_def dead_def)

section \<open>The whole sweep\<close>

lemma keyed_by_id: "set (keyed_by_id bs) \<subseteq> set bs" "bd_id ` set (keyed_by_id bs) = bd_id ` set bs"
    "distinct (map bd_id (keyed_by_id bs))"
  by (induction bs) auto

lemma dead_confined: "confined (cx_ws c) B j k \<Longrightarrow> bd_id b \<notin> B \<Longrightarrow> dead c ss b k = dead c ss b j"
  by (simp add: dead_def confined_def)

lemma own_loop_confined:
  "confined (cx_ws c) (bd_id ` set bs) (sw_journal s) (sw_journal (fst (for_each (own_step c ss) bs s)))"
  by (rule sweep_frame.for_each_R) (rule confined_mono [OF own_step_confined], simp)

lemma own_loop_handed:
  assumes "distinct (map bd_id bs)"
  shows "handed (fst (for_each (own_step c ss) bs s)) \<subseteq> handed s \<union> bd_id ` {b \<in> set bs. dead c ss b (sw_journal s)} \<and>
    set (sw_deferred s) \<subseteq> set (sw_deferred (fst (for_each (own_step c ss) bs s)))"
  using assms
proof (induction bs arbitrary: s)
  case (Cons b bs)
  obtain t e where t: "own_step c ss b s = (t, e)" by force
  note h = own_step_handed [of c ss b s, unfolded t fst_conv]
  show ?case
  proof (cases e)
    case None
    have d: "dead c ss x (sw_journal t) = dead c ss x (sw_journal s)" if "x \<in> set bs" for x
      by (rule dead_confined [OF own_step_confined [of c b s ss, unfolded t fst_conv]])
        (use Cons.prems that in \<open>force simp: image_iff\<close>)
    have "bd_id ` {x \<in> set bs. dead c ss x (sw_journal t)} = bd_id ` {x \<in> set bs. dead c ss x (sw_journal s)}"
      using d by auto
    with Cons.IH [of t] Cons.prems h
    have "handed (fst (for_each (own_step c ss) bs t)) \<subseteq> handed s \<union> {x. x = bd_id b \<and> dead c ss b (sw_journal s)} \<union>
        bd_id ` {x \<in> set bs. dead c ss x (sw_journal s)}"
      and "set (sw_deferred s) \<subseteq> set (sw_deferred (fst (for_each (own_step c ss) bs t)))" by auto
    then show ?thesis by (auto simp: and_then_def t None)
  next
    case (Some x)
    with h show ?thesis by (auto simp: and_then_def t)
  qed
qed (simp add: done_ok_def)

lemma own_loop_running:
  assumes "for_each (own_step c ss) bs s = (t, None)" "distinct (map bd_id bs)" "b \<in> set bs"
    and "op_for (cx_ws c) (bd_id b) (sw_journal t) = None"
    and "map_option b_state (state (cx_ws c) (bd_id b) (sw_journal t)) = Some RUNNING"
  shows "(\<exists>rec. verified c ss b rec) \<and> (sessions_of ss (bd_id b) \<noteq> [] \<or> bd_id b \<in> set (sw_deferred t))"
  using assms
proof (induction bs arbitrary: s)
  case (Cons x bs)
  from Cons.prems(1) obtain u where u: "own_step c ss x s = (u, None)" and rest: "for_each (own_step c ss) bs u = (t, None)"
    by (auto simp: and_then_def split: prod.splits option.splits)
  show ?case
  proof (cases "b = x")
    case True
    with Cons.prems(2) have "bd_id b \<notin> bd_id ` set bs" by auto
    with own_loop_confined [of c bs u ss] rest
    have "state (cx_ws c) (bd_id b) (sw_journal t) = state (cx_ws c) (bd_id b) (sw_journal u)"
      "op_for (cx_ws c) (bd_id b) (sw_journal t) = op_for (cx_ws c) (bd_id b) (sw_journal u)"
      by (auto simp: confined_def)
    with own_step_running [OF u] Cons.prems(4,5) own_loop_handed [of bs c ss u] Cons.prems(2) rest True
    show ?thesis by auto
  next
    case False
    with Cons.prems Cons.IH [OF rest] show ?thesis by auto
  qed
qed simp

text \<open>The sweep in two halves: first the beads that are not ours, then our own.\<close>

definition foreign_loops :: "sweep_context \<Rightarrow> session list \<Rightarrow> bead_id list \<Rightarrow> sweep_action" where
  "foreign_loops c ss own =
     and_then (for_each (\<lambda>b. if b \<in> set own then done_ok else no_op c b (not_ours c b (sessions_of ss b)))
                 (sort (remdups (map sn_bead ss))))
       (\<lambda>s. for_each (sweep_row c own (sort (remdups (map sn_bead ss)))) (states (cx_ws c) (sw_journal s)) s)"

lemma and_then_assoc: "and_then f (and_then g h) s = and_then (and_then f g) h s"
  by (simp add: and_then_def split: prod.splits option.splits)

lemma sweep_halves:
  assumes "sv_ours (cx_services c) = Some ours" "sv_sessions (cx_services c) = Some ss"
  shows "sweep c s = and_then (foreign_loops c ss (map bd_id ours)) (for_each (own_step c ss) (sort_key bd_id (keyed_by_id ours))) s"
  by (simp add: sweep_def assms Let_def foreign_loops_def and_then_assoc own_step_def [abs_def])

text \<open>The first half leaves our own beads alone.\<close>

definition minds_foreign :: "sweep_context \<Rightarrow> bead_id list \<Rightarrow> sweep_state \<Rightarrow> sweep_state \<Rightarrow> bool" where
  "minds_foreign c own s s' \<longleftrightarrow> confined (cx_ws c) (- set own) (sw_journal s) (sw_journal s') \<and> same_resumes s s'"

interpretation sweep_foreign: sweep_relation "minds_foreign c own" for c own
  by unfold_locales (auto simp: minds_foreign_def same_resumes_def intro: confined_trans)

lemma minds_not_own: "minds c b s t \<Longrightarrow> b \<notin> set own \<Longrightarrow> minds_foreign c own s t"
  by (auto simp: minds_def minds_foreign_def intro: confined_mono)

lemma sweep_row_foreign: "minds_foreign c own s (fst (sweep_row c own listed e s))"
proof (cases "fst e \<in> set own")
  case True
  then show ?thesis by (cases e) (simp add: sweep_row_def sweep_foreign.done_ok_R)
qed (rule minds_not_own [OF sweep_row_minds])

lemma foreign_loops_minds: "minds_foreign c own s (fst (foreign_loops c ss own s))"
  unfolding foreign_loops_def
proof (rule sweep_foreign.and_then_R)
  show "minds_foreign c own s (fst (for_each (\<lambda>b. if b \<in> set own then done_ok else no_op c b (not_ours c b (sessions_of ss b)))
      (sort (remdups (map sn_bead ss))) s))"
    by (rule sweep_foreign.for_each_R)
      (auto simp: sweep_foreign.done_ok_R intro!: sweep_foreign.no_op_R minds_not_own [OF not_ours_minds])
qed (rule sweep_foreign.for_each_R, rule sweep_row_foreign)

lemma sweep_first_half:
  assumes "foreign_loops c ss (map bd_id ours) s = (t, e)"
  shows "confined (cx_ws c) UNIV (sw_journal s) (sw_journal t)" "handed t = handed s"
    "b \<in> set ours \<Longrightarrow> dead c ss b (sw_journal t) = dead c ss b (sw_journal s)"
proof -
  from foreign_loops_minds [of c "map bd_id ours" s ss] assms
  have m: "confined (cx_ws c) (- bd_id ` set ours) (sw_journal s) (sw_journal t)" "same_resumes s t"
    by (auto simp: minds_foreign_def)
  show "confined (cx_ws c) UNIV (sw_journal s) (sw_journal t)" by (rule confined_mono [OF m(1)]) simp
  show "handed t = handed s" using m(2) by (simp add: same_resumes_def handed_def)
  show "b \<in> set ours \<Longrightarrow> dead c ss b (sw_journal t) = dead c ss b (sw_journal s)"
    by (rule dead_confined [OF m(1)]) simp
qed

lemma sorted_keyed: "set (sort_key bd_id (keyed_by_id ours)) \<subseteq> set ours" "distinct (map bd_id (sort_key bd_id (keyed_by_id ours)))"
  using keyed_by_id [of ours] by (auto simp: distinct_map inj_on_def)

lemma sweep_reads:
  assumes "sv_ours (cx_services c) = None \<or> sv_sessions (cx_services c) = None"
  shows "fst (sweep c s) = s" "snd (sweep c s) \<noteq> None"
  using assms by (auto simp: sweep_def split: option.splits)

lemma sweep_effects:
  assumes "sv_ours (cx_services c) = Some ours" "sv_sessions (cx_services c) = Some ss"
  shows "confined (cx_ws c) UNIV (sw_journal s) (sw_journal (fst (sweep c s))) \<and>
    handed (fst (sweep c s)) \<subseteq> handed s \<union> bd_id ` {b \<in> set ours. dead c ss b (sw_journal s)}"
proof -
  obtain t e where t: "foreign_loops c ss (map bd_id ours) s = (t, e)" by force
  note h = sweep_first_half [OF t]
  let ?bs = "sort_key bd_id (keyed_by_id ours)"
  show ?thesis
  proof (cases e)
    case None
    then have w: "sweep c s = for_each (own_step c ss) ?bs t" by (simp add: sweep_halves [OF assms] and_then_def t)
    have "confined (cx_ws c) UNIV (sw_journal t) (sw_journal (fst (sweep c s)))"
      unfolding w by (rule confined_mono [OF own_loop_confined]) simp
    moreover have "handed (fst (sweep c s)) \<subseteq> handed s \<union> bd_id ` {b \<in> set ours. dead c ss b (sw_journal s)}"
      unfolding w using own_loop_handed [OF sorted_keyed(2), of c ss ours t] sorted_keyed(1) [of ours] h(2,3) by blast
    ultimately show ?thesis using h(1) confined_trans by blast
  next
    case (Some x)
    then show ?thesis using h by (simp add: sweep_halves [OF assms] and_then_def t)
  qed
qed

text \<open>C35. The sweep never launches: whatever the queue and the runtime answer, and wherever an exception cuts it
  off, no launch entry and no receipt changes and the journal has moved only by its own methods; and a bead
  whose session the sweep hands to the launch guard (as a resume operation, or collected for recovery) is
  one of ours, was RUNNING with no open operation when the sweep began, is in progress, still passes btq's
  checks, carries no parked, held, deferred or needs-human label, has a readable record and no session.\<close>

theorem sweep_never_launches:
  assumes "sweep c s = (s', e)" and "handed s = {}"
  shows "jstep\<^sup>*\<^sup>* (sw_journal s) (sw_journal s') \<and> j_launches (sw_journal s') = j_launches (sw_journal s) \<and>
    j_receipts (sw_journal s') = j_receipts (sw_journal s) \<and>
    (\<forall>x \<in> handed s'. \<exists>ours ss b rec. sv_ours (cx_services c) = Some ours \<and> sv_sessions (cx_services c) = Some ss \<and>
       b \<in> set ours \<and> bd_id b = x \<and> unlabelled b \<and> bd_status b = ''in_progress'' \<and>
       sv_validate (cx_services c) x = ValidOurs \<and> bd_record b = RecordOf rec \<and> (\<forall>se\<in>set ss. sn_bead se \<noteq> x) \<and>
       op_for (cx_ws c) x (sw_journal s) = None \<and> map_option b_state (state (cx_ws c) x (sw_journal s)) = Some RUNNING)"
proof (cases "sv_ours (cx_services c) = None \<or> sv_sessions (cx_services c) = None")
  case True
  from sweep_reads(1) [OF this, of s] assms show ?thesis by simp
next
  case False
  then obtain ours ss where r: "sv_ours (cx_services c) = Some ours" "sv_sessions (cx_services c) = Some ss" by auto
  from sweep_effects [OF r, of s] assms
  have "confined (cx_ws c) UNIV (sw_journal s) (sw_journal s')" "handed s' \<subseteq> bd_id ` {b \<in> set ours. dead c ss b (sw_journal s)}"
    by simp_all
  then show ?thesis
    using r by (fastforce simp: confined_def dead_def verified_def sessions_of_def filter_empty_conv)
qed

text \<open>C36. What a sweep that returns guarantees: a bead of ours with no open operation whose row says RUNNING is
  really running or about to be resumed by recovery. It is in progress under us, passes btq's checks, carries no
  label that says otherwise, and every listed session of it is under the key its record names; and either
  such a session is listed or the bead was collected as dead.\<close>

theorem sweep_running_verified:
  assumes "sweep c s = (s', None)" and "sv_ours (cx_services c) = Some ours" and "sv_sessions (cx_services c) = Some ss"
    and "b \<in> set (keyed_by_id ours)" and "op_for (cx_ws c) (bd_id b) (sw_journal s') = None"
    and "map_option b_state (state (cx_ws c) (bd_id b) (sw_journal s')) = Some RUNNING"
  shows "bd_status b = ''in_progress'' \<and> sv_validate (cx_services c) (bd_id b) = ValidOurs \<and> unlabelled b \<and>
    (\<exists>rec. bd_record b = RecordOf rec \<and> (\<forall>se\<in>set ss. sn_bead se = bd_id b \<longrightarrow> sn_key se = sr_session_key rec)) \<and>
    ((\<exists>se\<in>set ss. sn_bead se = bd_id b) \<or> bd_id b \<in> set (sw_deferred s'))"
proof -
  let ?bs = "sort_key bd_id (keyed_by_id ours)"
  from assms(1) obtain t where "for_each (own_step c ss) ?bs t = (s', None)"
    by (auto simp: sweep_halves [OF assms(2,3)] and_then_def split: prod.splits option.splits)
  from own_loop_running [OF this sorted_keyed(2)] assms(4,5,6)
  have "(\<exists>rec. verified c ss b rec) \<and> (sessions_of ss (bd_id b) \<noteq> [] \<or> bd_id b \<in> set (sw_deferred s'))" by simp
  then show ?thesis by (auto simp: verified_def sessions_of_def filter_empty_conv)
qed

section \<open>An example\<close>

text \<open>Two running beads of ours: one whose session is gone, one whose session is listed.\<close>

definition ex_bead :: "string \<Rightarrow> bead" where
  "ex_bead i = \<lparr>bd_id = i, bd_status = ''in_progress'', bd_labels = [],
     bd_record = RecordOf \<lparr>sr_role = ''coder'', sr_profile = ''p'', sr_session_key = i @ ''-key'', sr_repo = ''/r'', sr_worktree = ''/w''\<rparr>,
     bd_thread = None, bd_launches = Absent, bd_repo = Absent, bd_deps = []\<rparr>"

definition ex_services :: services where
  "ex_services = \<lparr>sv_ours = Some [ex_bead ''b1'', ex_bead ''b2''],
     sv_sessions = Some [\<lparr>sn_key = ''b2-key'', sn_bead = ''b2''\<rparr>],
     sv_stop = (\<lambda>k. True), sv_exists = (\<lambda>b. Some True), sv_status = (\<lambda>b. Some ''in_progress''),
     sv_validate = (\<lambda>b. ValidOurs), sv_label = (\<lambda>b. LabelSet)\<rparr>"

definition ex_sweep :: sweep_context where
  "ex_sweep = \<lparr>cx_services = ex_services, cx_ws = ''w'', cx_ts = ''t1'', cx_new_id = (\<lambda>b. b @ ''-op''), cx_defer = False\<rparr>"

definition ex_journal :: journal where
  "ex_journal = adopt ''t0'' ''w'' ''b2'' RUNNING None [] None (adopt ''t0'' ''w'' ''b1'' RUNNING None [] None (fresh_journal ''t0''))"

definition ex_state :: sweep_state where
  "ex_state = \<lparr>sw_journal = ex_journal, sw_resumes = [], sw_held = 0, sw_stopped = [], sw_unconfirmed = 0,
     sw_deferred = [], sw_labelled = []\<rparr>"

lemma ex_sweep_runs:
  "sw_resumes (fst (sweep ex_sweep ex_state)) = [''b1''] \<and> snd (sweep ex_sweep ex_state) = None"
  by code_simp

theorem sweep_never_launches_witness:
  "handed ex_state = {} \<and> ''b1'' \<in> handed (fst (sweep ex_sweep ex_state)) \<and>
   j_launches (sw_journal (fst (sweep ex_sweep ex_state))) = j_launches (sw_journal ex_state)"
proof -
  have h: "handed ex_state = {}" by (simp add: handed_def ex_state_def)
  from sweep_never_launches [OF surjective_pairing h] ex_sweep_runs h show ?thesis by (simp add: handed_def)
qed

theorem sweep_running_verified_witness:
  "map_option b_state (state ''w'' ''b2'' (sw_journal (fst (sweep ex_sweep ex_state)))) = Some RUNNING \<and>
   sv_validate ex_services ''b2'' = ValidOurs \<and> unlabelled (ex_bead ''b2'')"
proof -
  have r: "sweep ex_sweep ex_state = (fst (sweep ex_sweep ex_state), None)"
    using ex_sweep_runs by (metis prod.collapse)
  have o: "op_for (cx_ws ex_sweep) (bd_id (ex_bead ''b2'')) (sw_journal (fst (sweep ex_sweep ex_state))) = None"
    and s: "map_option b_state (state (cx_ws ex_sweep) (bd_id (ex_bead ''b2'')) (sw_journal (fst (sweep ex_sweep ex_state)))) = Some RUNNING"
    by code_simp+
  have k: "ex_bead ''b2'' \<in> set (keyed_by_id [ex_bead ''b1'', ex_bead ''b2''])" by (simp add: ex_bead_def)
  have x: "cx_services ex_sweep = ex_services" "cx_ws ex_sweep = ''w''" "bd_id (ex_bead ''b2'') = ''b2''"
    by (simp_all add: ex_sweep_def ex_bead_def)
  from sweep_running_verified [OF r _ _ k o s] s show ?thesis by (simp add: x ex_services_def)
qed

end
