(* ===== verification/Services.thy ===== *)
theory Services
  imports Beads Usage Ids
begin

text \<open>
  What the parker (\<^verbatim>\<open>wsd/park.py\<close>) runs on: the journal, the beads adapter's owned writes
  (\<^verbatim>\<open>wsd/beads.py\<close>), the agent runtime (\<^verbatim>\<open>wsd/runtime.py\<close>) and the checkpoints. An action is a function
  from a state to a result (an exception or a value) and a state. Everything outside the daemon is the
  record \<open>world\<close>: each call to it is numbered, and the answer is a function of that number, so a property
  that holds for every world holds for every behaviour of the queue, the runtime, git, the clock and the
  operator in between calls. \<open>wd_crash\<close> says at which checkpoint the process dies; every external effect and
  every journal transaction is followed by a checkpoint, as in the source. The state keeps the list of
  external effects that were attempted.
\<close>

section \<open>Answers of the world\<close>

datatype park_exn = XBeadsUnavailable | XRuntimeUnavailable string | XNotOurs | XRoutingChanged | XRecordUnreadable
  | XRecordConflict | XWorktreeConflict string | XLaunchConflict | XLaunchesUnreadable | XJournal journal_error
  | XGitFailed string | XConfigInvalid string | XNotReleasable | XNotDeferrable | XValueError | XKeyError | XCrash

record rt_session =
  rs_key :: session_key
  rs_bead :: bead_id
  rs_live :: bool

record launch_spec =
  sp_ws :: ws_name
  sp_bead :: bead_id
  sp_role :: string
  sp_profile :: string
  sp_session_key :: session_key
  sp_worktree :: string
  sp_resume :: bool
  sp_ref :: "string option"
  sp_generation :: generation
  sp_native_id :: "string option"
  sp_account :: string
  sp_credential_key :: string
  sp_handoff :: bool
  sp_model :: string
  sp_repo :: string
  sp_install :: string
  sp_install_digest :: string

record started =
  st_tmux_session :: string
  st_tmux_pane :: string
  st_pane_pid :: int
  st_native_id :: "string option"

datatype launch_answer = Started started | LaunchFailed string | LaunchUnavailable string | LaunchUncertain

datatype end_cause = DIED | STOPPED | LIFETIME | REFUSED | LEGACY_LIFETIME

record ended =
  en_generation :: generation
  en_cause :: end_cause
  en_reached_running :: bool
  en_ran_seconds :: "int option"

datatype owned_answer = OwnedOk | OwnedNotOurs | OwnedFails
datatype claim_view = ClaimOurs | ClaimFree | ClaimOther | ClaimGone
datatype validate_answer = Validated bead | ValidatedNotOurs | ValidatedRouting | ValidatedFails

record install_pin =
  ip_install :: string
  ip_digest :: string

record trusted_reading =
  tr_observations :: "observation list"
  tr_limited :: bool
  tr_reset_hint :: "hint option"

record world =
  wd_crash :: "nat \<Rightarrow> bool"
  wd_now :: "nat \<Rightarrow> timestamp"
  wd_clock :: "nat \<Rightarrow> int"
  wd_new_id :: "nat \<Rightarrow> string"
  wd_show :: "nat \<Rightarrow> bead option"
  wd_comments :: "nat \<Rightarrow> string list option"
  wd_owned :: "nat \<Rightarrow> owned_answer"
  wd_bd :: "nat \<Rightarrow> bool"
  wd_validate :: "nat \<Rightarrow> validate_answer"
  wd_claim :: "nat \<Rightarrow> claim_view option"
  wd_worktree :: "nat \<Rightarrow> string option"
  wd_worktree_fails :: "nat \<Rightarrow> bool"
  wd_commit :: "nat \<Rightarrow> string + string"
  wd_available :: "nat \<Rightarrow> bool"
  wd_sessions :: "nat \<Rightarrow> string + rt_session list"
  wd_stop :: "nat \<Rightarrow> string option"
  wd_ended :: "nat \<Rightarrow> string + ended option"
  wd_launch :: "nat \<Rightarrow> launch_answer"
  wd_selection :: "nat \<Rightarrow> string + install_pin option"
  wd_read :: "nat \<Rightarrow> trusted_reading option"
  wd_login_key :: "nat \<Rightarrow> string \<Rightarrow> string \<Rightarrow> string \<Rightarrow> config_error + string"
  wd_login_resolves :: "nat \<Rightarrow> bool"
  wd_resolve :: "nat \<Rightarrow> string \<Rightarrow> string"

section \<open>Settings and state\<close>

text \<open>The workstream's settings, and the codecs of the JSON values it reads and writes.\<close>

record park_context =
  pc_ws :: ws_name
  pc_world :: world
  pc_accounts :: "configured_accounts option"
  pc_usage :: usage_settings
  pc_launch_failures :: int
  pc_park_attempts :: int
  pc_models :: "(string, string) table"
  pc_repos :: "(string, string) table"
  pc_coder_role :: string
  pc_coder_profile :: string
  pc_profiles :: "string list"
  pc_uuid5 :: "string \<Rightarrow> string"
  pc_encode :: "launch_entry \<Rightarrow> string"
  pc_decode_raws :: "string \<Rightarrow> string list option"
  pc_decode_entry :: "string \<Rightarrow> launch_entry option"
  pc_decode_end :: "string \<Rightarrow> resolved_end option"
  pc_adoption_adapter :: "string \<Rightarrow> string option"
  pc_configured :: "string \<Rightarrow> string option \<Rightarrow> bool"
  pc_error_text :: "config_error \<Rightarrow> string"

datatype effect = ELaunch launch_spec | EStop session_key | ELabel bead_id string bool | EBlocker bead_id bead_id
  | EComment bead_id string | ERecord bead_id session_record | ECopy launch_entry | ECommit bead_id string
  | EClaim bead_id | EWorktree bead_id | EAlert bead_id

record park_state =
  pk_journal :: journal
  pk_tick :: nat
  pk_effects :: "effect list"

section \<open>Actions\<close>

type_synonym 'a act = "park_state \<Rightarrow> (park_exn + 'a) \<times> park_state"

definition ret :: "'a \<Rightarrow> 'a act" where "ret x s = (Inr x, s)"

definition raise :: "park_exn \<Rightarrow> 'a act" where "raise e s = (Inl e, s)"

definition seq :: "'a act \<Rightarrow> ('a \<Rightarrow> 'b act) \<Rightarrow> 'b act" where
  "seq f g s = (case f s of (Inl e, s') \<Rightarrow> (Inl e, s') | (Inr x, s') \<Rightarrow> g x s')"

text \<open>The result of an action as a value: the \<^verbatim>\<open>except\<close> clauses of the source match on it.\<close>

definition attempt :: "'a act \<Rightarrow> (park_exn + 'a) act" where
  "attempt f s = (case f s of (r, s') \<Rightarrow> (Inr r, s'))"

definition reraise :: "park_exn + 'a \<Rightarrow> 'a act" where
  "reraise r = (case r of Inl e \<Rightarrow> raise e | Inr x \<Rightarrow> ret x)"

definition skip :: "unit act" where "skip = ret ()"

primrec each :: "('a \<Rightarrow> unit act) \<Rightarrow> 'a list \<Rightarrow> unit act" where
  "each f [] = skip"
| "each f (x # xs) = seq (f x) (\<lambda>_. each f xs)"

primrec mapped :: "('a \<Rightarrow> 'b act) \<Rightarrow> 'a list \<Rightarrow> 'b list act" where
  "mapped f [] = ret []"
| "mapped f (x # xs) = seq (f x) (\<lambda>y. seq (mapped f xs) (\<lambda>ys. ret (y # ys)))"

definition ask :: "park_context \<Rightarrow> (world \<Rightarrow> nat \<Rightarrow> 'a) \<Rightarrow> 'a act" where
  "ask c f s = (Inr (f (pc_world c) (pk_tick s)), s\<lparr>pk_tick := Suc (pk_tick s)\<rparr>)"

definition perform :: "effect \<Rightarrow> unit act" where
  "perform e s = (Inr (), s\<lparr>pk_effects := pk_effects s @ [e]\<rparr>)"

definition cp :: "park_context \<Rightarrow> unit act" where
  "cp c = seq (ask c wd_crash) (\<lambda>dies. if dies then raise XCrash else skip)"

subsection \<open>The journal\<close>

definition look :: "(journal \<Rightarrow> 'a) \<Rightarrow> 'a act" where
  "look f s = (Inr (f (pk_journal s)), s)"

definition jact :: "park_context \<Rightarrow> (timestamp \<Rightarrow> journal \<Rightarrow> journal_error + 'a \<times> journal) \<Rightarrow> 'a act" where
  "jact c f = seq (ask c wd_now) (\<lambda>ts s.
     case f ts (pk_journal s) of
       Inl e \<Rightarrow> (Inl (XJournal e), s)
     | Inr (x, j) \<Rightarrow> (Inr x, s\<lparr>pk_journal := j\<rparr>))"

definition jtry :: "park_context \<Rightarrow> (timestamp \<Rightarrow> journal \<Rightarrow> journal_error + journal) \<Rightarrow> unit act" where
  "jtry c f = jact c (\<lambda>ts j. bind_result (f ts j) (\<lambda>j'. Inr ((), j')))"

definition jwrite :: "park_context \<Rightarrow> (timestamp \<Rightarrow> journal \<Rightarrow> journal) \<Rightarrow> unit act" where
  "jwrite c f = jact c (\<lambda>ts j. Inr ((), f ts j))"

text \<open>A transaction that raises leaves the journal as it found it; a nested one is part of the outer one.\<close>

definition transaction :: "'a act \<Rightarrow> 'a act" where
  "transaction f s = (case f s of
     (Inl e, s') \<Rightarrow> (Inl e, s'\<lparr>pk_journal := pk_journal s\<rparr>) | (Inr x, s') \<Rightarrow> (Inr x, s'))"

section \<open>The beads adapter\<close>

definition show_bead :: "park_context \<Rightarrow> bead act" where
  "show_bead c = seq (ask c wd_show) (\<lambda>a. case a of None \<Rightarrow> raise XBeadsUnavailable | Some b \<Rightarrow> ret b)"

definition owned :: "park_context \<Rightarrow> unit act" where
  "owned c = seq (ask c wd_owned) (\<lambda>a. case a of
     OwnedOk \<Rightarrow> skip | OwnedNotOurs \<Rightarrow> raise XNotOurs | OwnedFails \<Rightarrow> raise XBeadsUnavailable)"

definition bd :: "park_context \<Rightarrow> effect \<Rightarrow> unit act" where
  "bd c e = seq (perform e) (\<lambda>_. seq (ask c wd_bd) (\<lambda>ok. if ok then skip else raise XBeadsUnavailable))"

definition write_bead :: "park_context \<Rightarrow> effect \<Rightarrow> unit act" where
  "write_bead c e = seq (owned c) (\<lambda>_. bd c e)"

definition ensure_label :: "park_context \<Rightarrow> bead_id \<Rightarrow> string \<Rightarrow> bool \<Rightarrow> unit act" where
  "ensure_label c b l present =
     seq (show_bead c) (\<lambda>v. if labelled v l = present then skip
       else seq (write_bead c (ELabel b l present)) (\<lambda>_.
            seq (show_bead c) (\<lambda>v. if labelled v l \<noteq> present then raise XBeadsUnavailable else skip)))"

definition has_blocker :: "bead_id \<Rightarrow> bead \<Rightarrow> bool" where
  "has_blocker blocker v = list_ex (\<lambda>d. dp_id d = blocker \<and> dp_kind d \<notin> set NON_BLOCKING_DEPS) (bd_deps v)"

definition ensure_blocker :: "park_context \<Rightarrow> bead_id \<Rightarrow> bead_id \<Rightarrow> unit act" where
  "ensure_blocker c b blocker =
     seq (show_bead c) (\<lambda>v. if has_blocker blocker v then skip
       else seq (write_bead c (EBlocker b blocker)) (\<lambda>_.
            seq (show_bead c) (\<lambda>v. if \<not> has_blocker blocker v then raise XBeadsUnavailable else skip)))"

definition bead_comments :: "park_context \<Rightarrow> string list act" where
  "bead_comments c = seq (ask c wd_comments) (\<lambda>a. case a of None \<Rightarrow> raise XBeadsUnavailable | Some cs \<Rightarrow> ret cs)"

definition ensure_comment :: "park_context \<Rightarrow> bead_id \<Rightarrow> string \<Rightarrow> string \<Rightarrow> unit act" where
  "ensure_comment c b mark txt =
     (if \<not> sublist mark txt then raise XValueError
      else seq (bead_comments c) (\<lambda>cs. if list_ex (sublist mark) cs then skip
        else seq (write_bead c (EComment b txt)) (\<lambda>_.
             seq (bead_comments c) (\<lambda>cs. if \<not> list_ex (sublist mark) cs then raise XBeadsUnavailable else skip))))"

definition record_of :: "bead \<Rightarrow> session_record option act" where
  "record_of v = (case bd_record v of
     NoRecord \<Rightarrow> ret None | RecordUnreadable \<Rightarrow> raise XRecordUnreadable | RecordOf r \<Rightarrow> ret (Some r))"

definition launches_on :: "park_context \<Rightarrow> bead \<Rightarrow> bead_launches act" where
  "launches_on c v = (case decode_launches (pc_decode_raws c) (pc_decode_entry c) (bd_launches v) of
     Inl e \<Rightarrow> raise XLaunchesUnreadable | Inr bl \<Rightarrow> ret bl)"

definition ensure_record :: "park_context \<Rightarrow> bead_id \<Rightarrow> session_record \<Rightarrow> bool \<Rightarrow> unit act" where
  "ensure_record c b r replace_unreadable =
     seq (owned c) (\<lambda>_.
     seq (show_bead c) (\<lambda>v.
     seq (attempt (record_of v)) (\<lambda>a.
     seq (case a of
            Inl XRecordUnreadable \<Rightarrow> if replace_unreadable then ret None else raise XRecordUnreadable
          | a \<Rightarrow> reraise a) (\<lambda>current.
     seq (case current of
            Some r' \<Rightarrow> ret r'
          | None \<Rightarrow>
              seq (bd c (ERecord b r)) (\<lambda>_.
              seq (show_bead c) (\<lambda>v.
              seq (record_of v) (\<lambda>current. case current of None \<Rightarrow> raise XBeadsUnavailable | Some r' \<Rightarrow> ret r')))) (\<lambda>current.
     if current \<noteq> r then raise XRecordConflict else skip)))))"

definition entry_at :: "bead_launches \<Rightarrow> launch_entry \<Rightarrow> launch_entry option" where
  "entry_at bl e = map_option (\<lambda>i. bl_entries bl ! i) (find_launch bl (ident e))"

definition ensure_launch :: "park_context \<Rightarrow> launch_entry \<Rightarrow> unit act" where
  "ensure_launch c e =
     seq (owned c) (\<lambda>_.
     seq (show_bead c) (\<lambda>v.
     seq (launches_on c v) (\<lambda>current.
     seq (if entry_at current e = Some e then ret current
          else if (case entry_at current e of Some x \<Rightarrow> \<not> mergeable x e | None \<Rightarrow> False) then raise XLaunchConflict
          else seq (bd c (ECopy e)) (\<lambda>_. seq (show_bead c) (launches_on c))) (\<lambda>current.
     if entry_at current e \<noteq> Some e then raise XBeadsUnavailable else skip))))"

definition validate :: "park_context \<Rightarrow> bead act" where
  "validate c = seq (ask c wd_validate) (\<lambda>a. case a of
     Validated b \<Rightarrow> ret b | ValidatedNotOurs \<Rightarrow> raise XNotOurs | ValidatedRouting \<Rightarrow> raise XRoutingChanged
   | ValidatedFails \<Rightarrow> raise XBeadsUnavailable)"

definition read_claim :: "park_context \<Rightarrow> claim_view act" where
  "read_claim c = seq (ask c wd_claim) (\<lambda>a. case a of None \<Rightarrow> raise XBeadsUnavailable | Some v \<Rightarrow> ret v)"

definition verify_worktree :: "park_context \<Rightarrow> session_record \<Rightarrow> string act" where
  "verify_worktree c r =
     seq (ask c wd_worktree_fails) (\<lambda>fails. if fails then raise XBeadsUnavailable
       else seq (ask c wd_worktree) (\<lambda>a. case a of None \<Rightarrow> ret (sr_worktree r) | Some why \<Rightarrow> raise (XWorktreeConflict why)))"

section \<open>The runtime and git\<close>

definition sessions :: "park_context \<Rightarrow> rt_session list act" where
  "sessions c = seq (ask c wd_sessions) (\<lambda>a. case a of Inl why \<Rightarrow> raise (XRuntimeUnavailable why) | Inr ss \<Rightarrow> ret ss)"

definition sessions_of_bead :: "park_context \<Rightarrow> bead_id \<Rightarrow> rt_session list act" where
  "sessions_of_bead c b = seq (sessions c) (\<lambda>ss. ret (filter (\<lambda>se. rs_bead se = b) ss))"

definition stop :: "park_context \<Rightarrow> session_key \<Rightarrow> unit act" where
  "stop c key = seq (perform (EStop key)) (\<lambda>_.
     seq (ask c wd_stop) (\<lambda>a. case a of None \<Rightarrow> skip | Some why \<Rightarrow> raise (XRuntimeUnavailable why)))"

definition runtime_launch :: "park_context \<Rightarrow> launch_spec \<Rightarrow> launch_answer act" where
  "runtime_launch c spec = seq (perform (ELaunch spec)) (\<lambda>_. ask c wd_launch)"

definition wip_commit :: "park_context \<Rightarrow> bead_id \<Rightarrow> string \<Rightarrow> string act" where
  "wip_commit c b key = seq (perform (ECommit b key)) (\<lambda>_.
     seq (ask c wd_commit) (\<lambda>a. case a of Inl why \<Rightarrow> raise (XGitFailed why) | Inr sha \<Rightarrow> ret sha))"

end
