(* ===== verification/Park.thy ===== *)
theory Park
  imports Services
begin

text \<open>
  The parker's journaled operations that never launch (\<^verbatim>\<open>wsd/park.py\<close>): finishing and escalating an
  operation, parking a bead, and deferring one (the record, the tail, a session's limit report). An
  operation is its id and row. An \<^verbatim>\<open>except\<close> clause of the source sees the operation as last stepped;
  it uses only the id, the bead and the \<^verbatim>\<open>ref\<close>, which no step changes, so the clauses here use the
  operation the call began with.
\<close>

section \<open>Operations\<close>

type_synonym op = "string \<times> op_row"

definition op_bead :: "op \<Rightarrow> bead_id" where "op_bead p = o_bead (snd p)"

definition data_get :: "string \<Rightarrow> op \<Rightarrow> string option" where
  "data_get k p = map_of (o_data (snd p)) k"

definition data_text :: "string \<Rightarrow> op \<Rightarrow> string" where
  "data_text k p = (case data_get k p of None \<Rightarrow> [] | Some v \<Rightarrow> v)"

definition truthy :: "string option \<Rightarrow> string option" where
  "truthy v = (case v of Some (x # xs) \<Rightarrow> v | _ \<Rightarrow> None)"

definition ref_of :: "op \<Rightarrow> string option" where "ref_of p = truthy (data_get ''ref'' p)"

definition int_of :: "string \<Rightarrow> int act" where
  "int_of v = (case py_int v of None \<Rightarrow> raise XValueError | Some n \<Rightarrow> ret n)"

definition data_item :: "string \<Rightarrow> op \<Rightarrow> string act" where
  "data_item k p = (case data_get k p of None \<Rightarrow> raise XKeyError | Some v \<Rightarrow> ret v)"

definition data_int :: "string \<Rightarrow> op \<Rightarrow> int act" where
  "data_int k p = seq (data_item k p) int_of"

fun comma_parts :: "string \<Rightarrow> string list" where
  "comma_parts [] = [[]]"
| "comma_parts (ch # cs) =
     (if ch = CHR '','' then [] # comma_parts cs else (ch # hd (comma_parts cs)) # tl (comma_parts cs))"

definition listed_parts :: "string \<Rightarrow> string list" where
  "listed_parts v = filter (\<lambda>x. x \<noteq> []) (comma_parts v)"

definition open_op :: "park_context \<Rightarrow> OpKind \<Rightarrow> bead_id \<Rightarrow> (string, string) table \<Rightarrow> op act" where
  "open_op c kind b data =
     seq (ask c wd_new_id) (\<lambda>i. seq (jact c (\<lambda>ts. op_open ts i kind (pc_ws c) b data)) (\<lambda>r. ret (i, r)))"

definition step_op :: "park_context \<Rightarrow> op \<Rightarrow> string \<Rightarrow> (string, string) table \<Rightarrow> op act" where
  "step_op c p step data = seq (jact c (\<lambda>ts. op_step ts (fst p) step data)) (\<lambda>r. ret (fst p, r))"

definition forget_op :: "park_context \<Rightarrow> op \<Rightarrow> string list \<Rightarrow> op act" where
  "forget_op c p keys = seq (jact c (\<lambda>ts. op_forget ts (fst p) keys)) (\<lambda>r. ret (fst p, r))"

definition end_op :: "park_context \<Rightarrow> op \<Rightarrow> OpStatus \<Rightarrow> unit act" where
  "end_op c p status = jtry c (\<lambda>ts. op_finish ts (fst p) status)"

definition set_bead :: "park_context \<Rightarrow> bead_id \<Rightarrow> BeadState \<Rightarrow> Reason option \<Rightarrow> string \<Rightarrow> string option \<Rightarrow> unit act" where
  "set_bead c b st reason detail ref = jtry c (\<lambda>ts. set_state ts (pc_ws c) b st reason detail ref)"

definition hold_ws :: "park_context \<Rightarrow> Reason \<Rightarrow> string \<Rightarrow> unit act" where
  "hold_ws c reason detail = jwrite c (\<lambda>ts. hold ts (pc_ws c) reason detail)"

definition settle_hold :: "park_context \<Rightarrow> bead_id \<Rightarrow> unit act" where
  "settle_hold c b = seq (look (holds (pc_ws c))) (\<lambda>hs.
     if map_of hs LAUNCH_UNCERTAIN = Some b then jwrite c (\<lambda>ts. unhold ts (pc_ws c) LAUNCH_UNCERTAIN) else skip)"

definition finish :: "park_context \<Rightarrow> op \<Rightarrow> OpStatus \<Rightarrow> (BeadState \<times> Reason option \<times> string) option \<Rightarrow> unit act" where
  "finish c p status st = transaction (
     seq (end_op c p status) (\<lambda>_.
     seq (settle_hold c (op_bead p)) (\<lambda>_.
     case st of None \<Rightarrow> skip | Some (x, reason, detail) \<Rightarrow> set_bead c (op_bead p) x reason detail (ref_of p))))"

definition finish_parked :: "park_context \<Rightarrow> op \<Rightarrow> OpStatus \<Rightarrow> bead \<Rightarrow> BeadState act" where
  "finish_parked c p status v =
     (let final = parked_state v in
      seq (finish c p status (Some (final, Some (parked_reason final), blocker_detail v))) (\<lambda>_. ret final))"

definition claim_lost :: "park_context \<Rightarrow> op \<Rightarrow> unit act" where
  "claim_lost c p = finish c p OP_ABANDONED (Some (STUCK, Some CLAIM_LOST, []))"

definition row_state :: "park_context \<Rightarrow> bead_id \<Rightarrow> BeadState option act" where
  "row_state c b = look (\<lambda>j. map_option b_state (state (pc_ws c) b j))"

definition state_or_stuck :: "BeadState option \<Rightarrow> BeadState" where
  "state_or_stuck st = (case st of None \<Rightarrow> STUCK | Some x \<Rightarrow> x)"

definition runtime_hold :: "park_context \<Rightarrow> op \<Rightarrow> Reason \<Rightarrow> string \<Rightarrow> BeadState act" where
  "runtime_hold c p reason why =
     seq (hold_ws c RUNTIME_UNAVAILABLE why) (\<lambda>_.
     seq (row_state c (op_bead p)) (\<lambda>row. case row of
       None \<Rightarrow> ret STUCK
     | Some st \<Rightarrow> seq (set_bead c (op_bead p) st (Some reason) [] None) (\<lambda>_. ret st)))"

section \<open>Escalation\<close>

definition stuck :: "park_context \<Rightarrow> op \<Rightarrow> Reason \<Rightarrow> string \<Rightarrow> op act" where
  "stuck c p reason detail = transaction (
     seq (end_op c p OP_STUCK) (\<lambda>_.
     seq (settle_hold c (op_bead p)) (\<lambda>_.
     seq (open_op c ESCALATE (op_bead p) [(''reason'', reason_value reason)]) (\<lambda>esc.
     seq (set_bead c (op_bead p) STUCK (Some reason) detail (ref_of p)) (\<lambda>_. ret esc)))))"

definition replay_escalation :: "park_context \<Rightarrow> op \<Rightarrow> unit act" where
  "replay_escalation c p =
     seq (attempt (ensure_label c (op_bead p) L_NEEDS_HUMAN True)) (\<lambda>r. case r of
       Inl XNotOurs \<Rightarrow> finish c p OP_ABANDONED None
     | Inl e \<Rightarrow> raise e
     | Inr _ \<Rightarrow> seq (cp c) (\<lambda>_. seq (finish c p OP_DONE None) (\<lambda>_. cp c)))"

definition hand_off :: "park_context \<Rightarrow> op \<Rightarrow> unit act" where
  "hand_off c esc = seq (cp c) (\<lambda>_. replay_escalation c esc)"

definition escalate_from :: "park_context \<Rightarrow> op \<Rightarrow> Reason \<Rightarrow> string \<Rightarrow> unit act" where
  "escalate_from c p reason detail = seq (stuck c p reason detail) (hand_off c)"

definition spend :: "park_context \<Rightarrow> op \<Rightarrow> int \<Rightarrow> Reason \<Rightarrow> string \<Rightarrow> string list \<Rightarrow> bool act" where
  "spend c p limit reason detail keys =
     seq (transaction (
       seq (if keys = [] then ret p else forget_op c p keys) (\<lambda>p.
       seq (jact c (\<lambda>ts. op_failed ts (fst p))) (\<lambda>n.
       if n \<ge> limit then seq (stuck c p reason detail) (\<lambda>esc. ret (Some esc))
       else seq (row_state c (op_bead p)) (\<lambda>row.
            seq (set_bead c (op_bead p) (state_or_stuck row) (Some reason) detail None) (\<lambda>_. ret None)))))) (\<lambda>esc.
     case esc of None \<Rightarrow> ret False | Some e \<Rightarrow> seq (hand_off c e) (\<lambda>_. ret True))"

definition open_escalation_op :: "park_context \<Rightarrow> bead_id \<Rightarrow> Reason \<Rightarrow> string \<Rightarrow> op act" where
  "open_escalation_op c b reason detail = transaction (
     seq (open_op c ESCALATE b [(''reason'', reason_value reason)]) (\<lambda>esc.
     seq (jwrite c (\<lambda>ts. adopt ts (pc_ws c) b STUCK (Some reason) detail None)) (\<lambda>_. ret esc)))"

definition escalate_bead :: "park_context \<Rightarrow> bead_id \<Rightarrow> Reason \<Rightarrow> string \<Rightarrow> unit act" where
  "escalate_bead c b reason detail = seq (open_escalation_op c b reason detail) (hand_off c)"

definition escalation_for :: "park_context \<Rightarrow> bead_id \<Rightarrow> Reason \<Rightarrow> string \<Rightarrow> op act" where
  "escalation_for c b reason detail = transaction (
     seq (look (op_for (pc_ws c) b)) (\<lambda>found. case found of
       None \<Rightarrow> open_escalation_op c b reason detail
     | Some p \<Rightarrow> if o_kind (snd p) = ESCALATE then ret p else stuck c p reason detail))"

section \<open>Parking\<close>

definition PARK_MARK :: string where "PARK_MARK = ''wsd-park: ''"

definition or_text :: "string \<Rightarrow> string \<Rightarrow> string" where
  "or_text v d = (if v = [] then d else v)"

definition park_comment :: "op \<Rightarrow> string" where
  "park_comment p =
     ''Parked by wsd ('' @ PARK_MARK @ fst p @ ''). WIP commit '' @
     (case data_get ''sha'' p of None \<Rightarrow> ''?'' | Some v \<Rightarrow> v) @ ''. Waiting on: '' @
     or_text (data_text ''blockers'' p) ''none'' @ ''. Why: '' @ or_text (data_text ''why'' p) ''no reason given'' @ ''.''"

text \<open>One step of an operation: done only when the operation stands at it.\<close>

definition at_step :: "string \<Rightarrow> (op \<Rightarrow> op act) \<Rightarrow> op \<Rightarrow> op act" where
  "at_step step f p = (if o_step (snd p) = step then f p else ret p)"

definition stop_sessions :: "park_context \<Rightarrow> bead_id \<Rightarrow> unit act" where
  "stop_sessions c b = seq (sessions_of_bead c b) (\<lambda>ss. each (\<lambda>se. stop c (rs_key se)) ss)"

definition stepped :: "park_context \<Rightarrow> op \<Rightarrow> string \<Rightarrow> (string, string) table \<Rightarrow> op act" where
  "stepped c p step data = seq (cp c) (\<lambda>_. seq (step_op c p step data) (\<lambda>p. seq (cp c) (\<lambda>_. ret p)))"

definition park_stop :: "park_context \<Rightarrow> op \<Rightarrow> op act" where
  "park_stop c p = seq (stop_sessions c (op_bead p)) (\<lambda>_. stepped c p ''stopped'' [])"

text \<open>The WIP commit of a park or a deferral: only of a bead that is still ours and has a record.\<close>

definition commit_wip :: "park_context \<Rightarrow> op \<Rightarrow> string \<Rightarrow> string option act" where
  "commit_wip c p key =
     seq (read_claim c) (\<lambda>claim.
     if claim \<noteq> ClaimOurs then raise XNotOurs
     else seq (show_bead c) (\<lambda>v.
          seq (record_of v) (\<lambda>rec. case rec of
            None \<Rightarrow> seq (escalate_from c p LAUNCH_UNRECORDED ''no session record names the worktree'') (\<lambda>_. ret None)
          | Some r \<Rightarrow>
              seq (verify_worktree c r) (\<lambda>_.
              seq (wip_commit c (op_bead p) key) (\<lambda>sha. ret (Some sha))))))"

definition park_block :: "park_context \<Rightarrow> op \<Rightarrow> op act" where
  "park_block c p =
     seq (each (ensure_blocker c (op_bead p)) (listed_parts (data_text ''blockers'' p))) (\<lambda>_. stepped c p ''blocked'' [])"

definition park_label :: "park_context \<Rightarrow> op \<Rightarrow> op act" where
  "park_label c p =
     seq (if data_text ''hold'' p \<noteq> [] then ensure_label c (op_bead p) L_HELD True else skip) (\<lambda>_.
     seq (ensure_label c (op_bead p) L_PARKED True) (\<lambda>_. stepped c p ''labelled'' []))"

definition park_finish :: "park_context \<Rightarrow> op \<Rightarrow> BeadState act" where
  "park_finish c p =
     seq (at_step ''committed'' (park_block c) p) (\<lambda>p.
     seq (at_step ''blocked'' (park_label c) p) (\<lambda>p.
     seq (ensure_comment c (op_bead p) (PARK_MARK @ fst p) (park_comment p)) (\<lambda>_.
     seq (cp c) (\<lambda>_.
     seq (show_bead c) (\<lambda>v.
     seq (finish_parked c p OP_DONE v) (\<lambda>final.
     seq (cp c) (\<lambda>_. ret final)))))))"

definition park_steps :: "park_context \<Rightarrow> op \<Rightarrow> BeadState act" where
  "park_steps c p =
     seq (at_step ''intent'' (park_stop c) p) (\<lambda>p.
     if o_step (snd p) = ''stopped''
     then seq (commit_wip c p (fst p)) (\<lambda>sha. case sha of
            None \<Rightarrow> ret STUCK
          | Some x \<Rightarrow> seq (stepped c p ''committed'' [(''sha'', x)]) (park_finish c))
     else park_finish c p)"

text \<open>The \<^verbatim>\<open>except\<close> clauses a park and a deferral share.\<close>

definition park_except :: "park_context \<Rightarrow> op \<Rightarrow> park_exn + BeadState \<Rightarrow> BeadState act" where
  "park_except c p r =
     (case r of
        Inr st \<Rightarrow> ret st
      | Inl XNotOurs \<Rightarrow> seq (claim_lost c p) (\<lambda>_. ret STUCK)
      | Inl XRecordUnreadable \<Rightarrow>
          seq (escalate_from c p LAUNCH_UNRECORDED ''the session record does not parse'') (\<lambda>_. ret STUCK)
      | Inl (XWorktreeConflict why) \<Rightarrow> seq (escalate_from c p WORKTREE_FAILED why) (\<lambda>_. ret STUCK)
      | Inl (XRuntimeUnavailable why) \<Rightarrow> runtime_hold c p STOP_UNCONFIRMED why
      | Inl (XGitFailed why) \<Rightarrow>
          seq (spend c p (pc_park_attempts c) PARK_FAILED why []) (\<lambda>spent. ret (if spent then STUCK else PARKING))
      | Inl e \<Rightarrow> raise e)"

definition replay_park :: "park_context \<Rightarrow> op \<Rightarrow> BeadState act" where
  "replay_park c p =
     (if o_attempts (snd p) \<ge> pc_park_attempts c
      then seq (escalate_from c p PARK_FAILED (''the park'' @ [CHR 0x27] @ ''s attempts are spent'')) (\<lambda>_. ret STUCK)
      else seq (attempt (park_steps c p)) (park_except c p))"

definition ref_text :: "string option \<Rightarrow> string" where
  "ref_text r = (case r of None \<Rightarrow> [] | Some v \<Rightarrow> v)"

definition park :: "park_context \<Rightarrow> bead_id \<Rightarrow> bead_id list \<Rightarrow> string \<Rightarrow> bool \<Rightarrow> string option \<Rightarrow> BeadState act" where
  "park c b blockers why held ref =
     (if blockers = [] \<and> \<not> held then raise XValueError
      else seq (cp c) (\<lambda>_.
           seq (transaction (
             seq (open_op c PARK b [(''blockers'', commas blockers), (''why'', why), (''hold'', if held then ''1'' else []),
                    (''ref'', ref_text ref)]) (\<lambda>p.
             seq (set_bead c b PARKING None [] ref) (\<lambda>_. ret p)))) (\<lambda>p.
           seq (cp c) (\<lambda>_. replay_park c p))))"

end
