(* ===== verification/Defer.thy ===== *)
theory Defer
  imports Park
begin

text \<open>
  Deferring a bead (\<^verbatim>\<open>wsd/park.py\<close>): the record that is the intent, the tail that stops, commits, labels and
  comments, a session's limit report with its trusted confirmation, and the conversion of an old quota
  step. Nothing here launches.
\<close>

section \<open>Times as text\<close>

text \<open>\<^verbatim>\<open>datetime.fromtimestamp(t, UTC)\<close>: the proleptic Gregorian date of a day number, and Python's range of years
  1 to 9999 outside which it raises.\<close>

definition civil :: "int \<Rightarrow> int \<times> int \<times> int" where
  "civil days =
     (let z = days + 719468; era = z div 146097; doe = z mod 146097;
          yoe = (doe - doe div 1460 + doe div 36524 - doe div 146096) div 365;
          doy = doe - (365 * yoe + yoe div 4 - yoe div 100);
          mp = (5 * doy + 2) div 153;
          m = (if mp < 10 then mp + 3 else mp - 9)
      in (yoe + era * 400 + (if m \<le> 2 then 1 else 0), m, doy - (153 * mp + 2) div 5 + 1))"

definition padded :: "nat \<Rightarrow> int \<Rightarrow> string" where
  "padded w n = replicate (w - length (show_int n)) CHR ''0'' @ show_int n"

definition date_text :: "nat \<Rightarrow> int \<Rightarrow> string" where
  "date_text w t =
     (let (y, m, d) = civil (t div 86400); r = t mod 86400 in
      padded w y @ ''-'' @ padded 2 m @ ''-'' @ padded 2 d @ ''T'' @ padded 2 (r div 3600) @ '':'' @
      padded 2 (r div 60 mod 60) @ '':'' @ padded 2 (r mod 60))"

definition in_datetime :: "int \<Rightarrow> bool" where
  "in_datetime t \<longleftrightarrow> -62135596800 \<le> t \<and> t \<le> 253402300799"

definition quota_detail :: "int \<Rightarrow> string act" where
  "quota_detail t = (if in_datetime t then ret (''no headroom until '' @ date_text 4 t @ ''+00:00'') else raise XValueError)"

section \<open>Records\<close>

definition TRUSTED :: string where "TRUSTED = ''trusted''"
definition UNTRUSTED :: string where "UNTRUSTED = ''untrusted''"
definition DEFER_MARK :: string where "DEFER_MARK = ''wsd-defer ''"
definition ACCOUNT_CHANGED_EVENT :: string where "ACCOUNT_CHANGED_EVENT = ''deferral_account_changed''"
definition QUOTA_TEXT :: string where "QUOTA_TEXT = reason_value QUOTA"
definition CHANGED_TEXT :: string where "CHANGED_TEXT = reason_value ACCOUNT_CHANGED"

definition defer_mark :: "session_key \<Rightarrow> int \<Rightarrow> string" where
  "defer_mark key n = DEFER_MARK @ ''session='' @ key @ '' n='' @ show_int n @ '' ''"

definition defer_comment :: "session_key \<Rightarrow> int \<Rightarrow> deferral_row \<Rightarrow> string act" where
  "defer_comment key n rec =
     seq (case d_defer_until rec of
            None \<Rightarrow> ret ''none''
          | Some v \<Rightarrow> seq (int_of v) (\<lambda>t. if in_datetime t then ret (date_text 0 t @ ''Z'') else raise XValueError)) (\<lambda>until.
     ret (defer_mark key n @ ''role='' @ d_role rec @ '' until='' @ until @ '' reason='' @ d_reason rec))"

definition deferred_reason :: "deferral_row \<Rightarrow> (Reason \<times> string) act" where
  "deferred_reason rec =
     (case d_defer_until rec of
        Some v \<Rightarrow> if d_reason rec = QUOTA_TEXT
                  then seq (int_of v) (\<lambda>t. seq (quota_detail t) (\<lambda>d. ret (QUOTA, d)))
                  else ret (ACCOUNT_CHANGED, ''account changed'')
      | None \<Rightarrow> ret (ACCOUNT_CHANGED, ''account changed''))"

text \<open>Whose deferral: the session key, role and profile of a record or of an earlier deferral.\<close>

type_synonym deferred_session = "session_key \<times> string \<times> string"

definition of_record :: "session_record \<Rightarrow> deferred_session" where
  "of_record r = (sr_session_key r, sr_role r, sr_profile r)"

definition of_deferral :: "session_key \<Rightarrow> deferral_row \<Rightarrow> deferred_session" where
  "of_deferral key d = (key, d_role d, d_profile d)"

definition insert_deferral :: "park_context \<Rightarrow> bead_id \<Rightarrow> deferred_session \<Rightarrow> string \<Rightarrow> int option \<Rightarrow> string \<Rightarrow> int act" where
  "insert_deferral c b who reason until trust =
     (case who of (key, role, profile) \<Rightarrow>
        seq (look (deferral_next key)) (\<lambda>n.
        seq (jtry c (\<lambda>ts. deferral_insert key n \<lparr>d_bead = b, d_role = role, d_profile = profile, d_reason = reason,
               d_defer_until = map_option show_int until, d_trust = trust\<rparr>)) (\<lambda>_. ret n)))"

definition record_defer :: "park_context \<Rightarrow> op \<Rightarrow> deferred_session \<Rightarrow> string \<Rightarrow> int option \<Rightarrow> string \<Rightarrow> op act" where
  "record_defer c p who reason until trust = transaction (
     seq (insert_deferral c (op_bead p) who reason until trust) (\<lambda>n.
     seq (step_op c p ''defer.recorded'' [(''defer'', show_int n), (''defer_key'', fst who)]) (\<lambda>p.
     seq (set_bead c (op_bead p) PARKING None [] (ref_of p)) (\<lambda>_. ret p))))"

section \<open>The limit's confirmation\<close>

definition previous_key :: "session_key \<Rightarrow> journal \<Rightarrow> string option" where
  "previous_key key j =
     (let launched = filter (\<lambda>e. le_outcome e = Some LAUNCHED) (launches key j) in
      if launched = [] then None else Some (le_credential_key (last launched)))"

definition decide_at :: "park_context \<Rightarrow> configured_accounts \<Rightarrow> string \<Rightarrow> session_key \<Rightarrow> int \<Rightarrow> string set \<Rightarrow>
    (config_error + decision) act" where
  "decide_at c ac profile key now exclude =
     seq (ask c wd_login_key) (\<lambda>login.
       look (\<lambda>j. decide login ac j profile (previous_key key j) now (pc_usage c) exclude))"

definition park_capabilities :: "park_context \<Rightarrow> configured_accounts option \<Rightarrow> string \<Rightarrow> capabilities act" where
  "park_capabilities c ac profile =
     (case ac of
        None \<Rightarrow> ret NO_CAPS
      | Some a \<Rightarrow> seq (ask c wd_login_key) (\<lambda>login.
          ret (case view login a profile of Inl _ \<Rightarrow> NO_CAPS | Inr v \<Rightarrow> pv_capabilities v)))"

definition supersede_deferral :: "park_context \<Rightarrow> op \<Rightarrow> session_key \<Rightarrow> int \<Rightarrow> deferral_row \<Rightarrow> configured_accounts \<Rightarrow> launch_entry \<Rightarrow>
    trusted_reading \<Rightarrow> int act" where
  "supersede_deferral c p key number current ac entry reading =
     seq (ask c wd_clock) (\<lambda>now.
     seq (each (\<lambda>obs. seq (jact c (\<lambda>ts. ingest_trusted (le_credential_key entry) obs now (pc_usage c))) (\<lambda>_. skip))
            (tr_observations reading)) (\<lambda>_.
     seq (jact c (\<lambda>ts. mark_exhausted (le_credential_key entry) (tr_reset_hint reading) now (pc_usage c))) (\<lambda>_.
     seq (decide_at c ac (d_profile current) key now {}) (\<lambda>verdict. case verdict of
       Inl _ \<Rightarrow> ret number
     | Inr v \<Rightarrow>
         (case v of
            AccountChanged _ _ \<Rightarrow> insert_deferral c (op_bead p) (of_deferral key current) CHANGED_TEXT None TRUSTED
          | Deadline t _ \<Rightarrow> insert_deferral c (op_bead p) (of_deferral key current) QUOTA_TEXT (Some t) TRUSTED
          | Chosen _ _ \<Rightarrow> insert_deferral c (op_bead p) (of_deferral key current) QUOTA_TEXT (Some now) TRUSTED)))))"

definition trusted_read_of :: "park_context \<Rightarrow> launch_entry option \<Rightarrow> trusted_reading option act" where
  "trusted_read_of c entry =
     (case entry of
        None \<Rightarrow> ret None
      | Some e \<Rightarrow> seq (park_capabilities c (pc_accounts c) (le_profile e)) (\<lambda>caps.
          if trusted_read caps then ask c wd_read else ret None))"

definition confirm_limit :: "park_context \<Rightarrow> op \<Rightarrow> op act" where
  "confirm_limit c p =
     seq (data_item ''defer_key'' p) (\<lambda>key.
     seq (data_int ''defer'' p) (\<lambda>n.
     seq (data_item ''limit_key'' p) (\<lambda>limit_key.
     seq (data_int ''limit_gen'' p) (\<lambda>limit_gen.
     seq (look (launch limit_key limit_gen)) (\<lambda>entry.
     seq (trusted_read_of c entry) (\<lambda>reading.
     seq (cp c) (\<lambda>_.
     seq (look (deferral_current key)) (\<lambda>current.
     seq (transaction (
       seq (case (reading, entry, pc_accounts c, current) of
              (Some r, Some e, Some ac, Some (number, d)) \<Rightarrow>
                if tr_limited r \<and> number = n then supersede_deferral c p key number d ac e r else ret n
            | _ \<Rightarrow> ret n) (\<lambda>m.
       step_op c p ''defer.confirmed'' [(''defer'', show_int m), (''wip_defer'', data_text ''defer'' p)]))) (\<lambda>p.
     seq (cp c) (\<lambda>_. ret p))))))))))"

section \<open>The tail\<close>

text \<open>\<open>Inl\<close> is the tail's early return.\<close>

definition defer_stop :: "park_context \<Rightarrow> op \<Rightarrow> (BeadState + op) act" where
  "defer_stop c p =
     (if o_step (snd p) \<noteq> ''defer.recorded'' then ret (Inr p)
      else seq (stop_sessions c (op_bead p)) (\<lambda>_.
           seq (sessions_of_bead c (op_bead p)) (\<lambda>left.
           if left \<noteq> [] then seq (runtime_hold c p STOP_UNCONFIRMED []) (\<lambda>st. ret (Inl st))
           else seq (stepped c p ''defer.stopped'' []) (\<lambda>p. ret (Inr p)))))"

definition defer_commit :: "park_context \<Rightarrow> session_key \<Rightarrow> int \<Rightarrow> op \<Rightarrow> (BeadState + op) act" where
  "defer_commit c key n p =
     (if o_step (snd p) \<noteq> ''defer.stopped'' then ret (Inr p)
      else seq (commit_wip c p (''defer:'' @ key @ '':'' @ show_int n)) (\<lambda>sha. case sha of
             None \<Rightarrow> ret (Inl STUCK)
           | Some x \<Rightarrow> seq (stepped c p ''defer.committed'' [(''sha'', x)]) (\<lambda>p. ret (Inr p))))"

definition defer_label :: "park_context \<Rightarrow> op \<Rightarrow> op act" where
  "defer_label c p =
     (if o_step (snd p) \<in> {''defer.committed'', ''defer.confirmed''}
      then seq (ensure_label c (op_bead p) L_DEFERRED True) (\<lambda>_. stepped c p ''defer.labelled'' [])
      else ret p)"

definition finish_defer :: "park_context \<Rightarrow> op \<Rightarrow> session_key \<Rightarrow> int \<Rightarrow> deferral_row \<Rightarrow> bead \<Rightarrow> BeadState act" where
  "finish_defer c p key number rec v =
     seq (if labelled v L_NEEDS_HUMAN then ret (STUCK, NEEDS_HUMAN, [])
          else if labelled v L_HELD then ret (HELD, HELD_BY_OPERATOR, [])
          else seq (deferred_reason rec) (\<lambda>(reason, detail). ret (DEFERRED, reason, detail))) (\<lambda>(final, reason, detail).
     seq (transaction (
       seq (if number > 1 then jwrite c (\<lambda>ts. drop_over key (number - 1)) else skip) (\<lambda>_.
       seq (finish c p (if o_kind (snd p) \<in> {PARK, RELEASE} then OP_DONE else OP_ABANDONED)
              (Some (final, Some reason, detail))) (\<lambda>_.
       if d_reason rec = CHANGED_TEXT
       then jact c (\<lambda>ts j. Inr ((), snd (emit ts (pc_ws c) (Some (op_bead p)) ACCOUNT_CHANGED_EVENT (Plain [])
              (Some (key @ '':'' @ show_int number)) j)))
       else skip)))) (\<lambda>_. ret final))"

definition defer_end :: "park_context \<Rightarrow> session_key \<Rightarrow> int \<Rightarrow> op \<Rightarrow> BeadState act" where
  "defer_end c key n p =
     seq (look (deferral_current key)) (\<lambda>current.
     case current of
       Some (number, rec) \<Rightarrow>
         if number = n then
           seq (defer_comment key n rec) (\<lambda>txt.
           seq (ensure_comment c (op_bead p) (defer_mark key n) txt) (\<lambda>_.
           seq (cp c) (\<lambda>_.
           seq (show_bead c) (\<lambda>v.
           seq (finish_defer c p key number rec v) (\<lambda>final.
           seq (cp c) (\<lambda>_. ret final))))))
         else seq (escalate_from c p UNEXPECTED_STATE
                (''deferral '' @ show_int n @ '' is not the session'' @ [CHR 0x27] @ ''s current'')) (\<lambda>_. ret STUCK)
     | None \<Rightarrow> seq (escalate_from c p UNEXPECTED_STATE
                (''deferral '' @ show_int n @ '' is not the session'' @ [CHR 0x27] @ ''s current'')) (\<lambda>_. ret STUCK))"

definition defer_steps :: "park_context \<Rightarrow> session_key \<Rightarrow> int \<Rightarrow> op \<Rightarrow> BeadState act" where
  "defer_steps c key n p =
     seq (defer_stop c p) (\<lambda>r. case r of Inl st \<Rightarrow> ret st | Inr p \<Rightarrow>
     seq (defer_commit c key n p) (\<lambda>r. case r of Inl st \<Rightarrow> ret st | Inr p \<Rightarrow>
     seq (if o_step (snd p) = ''defer.committed'' \<and> data_get ''limit_key'' p \<noteq> None
          then seq (confirm_limit c p) (\<lambda>p. seq (data_int ''defer'' p) (\<lambda>n. ret (p, n)))
          else ret (p, n)) (\<lambda>(p, n).
     seq (defer_label c p) (\<lambda>p. defer_end c key n p))))"

definition defer_tail :: "park_context \<Rightarrow> op \<Rightarrow> BeadState act" where
  "defer_tail c p =
     seq (data_item ''defer_key'' p) (\<lambda>key.
     seq (data_int ''defer'' p) (\<lambda>n.
     if o_attempts (snd p) \<ge> pc_park_attempts c
     then seq (escalate_from c p PARK_FAILED (''the defer'' @ [CHR 0x27] @ ''s attempts are spent'')) (\<lambda>_. ret STUCK)
     else seq (attempt (defer_steps c key n p)) (park_except c p)))"

section \<open>Entry points\<close>

definition defer_within :: "park_context \<Rightarrow> op \<Rightarrow> deferred_session \<Rightarrow> string \<Rightarrow> int option \<Rightarrow> BeadState act" where
  "defer_within c p who reason until =
     seq (record_defer c p who reason until TRUSTED) (\<lambda>p. seq (cp c) (\<lambda>_. defer_tail c p))"

text \<open>A record that can't be read counts as none.\<close>

definition readable_record :: "bead \<Rightarrow> session_record option" where
  "readable_record v = (case bd_record v of RecordOf r \<Rightarrow> Some r | _ \<Rightarrow> None)"

definition deferral_valid :: "string \<Rightarrow> int option \<Rightarrow> string \<Rightarrow> bool" where
  "deferral_valid reason until trust \<longleftrightarrow> reason \<in> {QUOTA_TEXT, CHANGED_TEXT} \<and>
     (reason = QUOTA_TEXT) = (until \<noteq> None \<or> trust = UNTRUSTED)"

definition open_defer :: "park_context \<Rightarrow> bead_id \<Rightarrow> string \<Rightarrow> int option \<Rightarrow> string \<Rightarrow> string option \<Rightarrow> BeadState act" where
  "open_defer c b reason until trust ref =
     (if \<not> deferral_valid reason until trust then raise XValueError
      else seq (if trust = UNTRUSTED
                then seq (ask c wd_clock) (\<lambda>now. ret (Some (untrusted_defer_until (map_option HInt until) now (pc_usage c))))
                else ret until) (\<lambda>until.
           seq (show_bead c) (\<lambda>v. case readable_record v of
             None \<Rightarrow> raise XNotDeferrable
           | Some rec \<Rightarrow>
               seq (transaction (
                 seq (look (op_for (pc_ws c) b)) (\<lambda>found.
                 if found \<noteq> None then raise XNotDeferrable
                 else seq (open_op c PARK b [(''ref'', ref_text ref)]) (\<lambda>p.
                      record_defer c p (of_record rec) reason until trust)))) (\<lambda>p.
               seq (cp c) (\<lambda>_. defer_tail c p)))))"

definition defer_bead :: "park_context \<Rightarrow> bead_id \<Rightarrow> string \<Rightarrow> int option \<Rightarrow> string \<Rightarrow> string option \<Rightarrow> BeadState act" where
  "defer_bead c b reason until trust ref = seq (cp c) (\<lambda>_. open_defer c b reason until trust ref)"

definition limit_of :: "park_context \<Rightarrow> session_key \<Rightarrow> generation \<Rightarrow> journal \<Rightarrow> bead_id option" where
  "limit_of c key gen j =
     (let launched = filter (\<lambda>e. le_outcome e = Some LAUNCHED) (launches key j) in
      case launch key gen j of
        None \<Rightarrow> None
      | Some e \<Rightarrow>
          if le_ws e \<noteq> pc_ws c \<or> launched = [] \<or> le_generation (last launched) \<noteq> gen then None
          else if map_option b_state (state (pc_ws c) (le_bead e) j) \<noteq> Some RUNNING \<or> op_for (pc_ws c) (le_bead e) j \<noteq> None
          then None else Some (le_bead e))"

definition limit_report :: "park_context \<Rightarrow> session_key \<Rightarrow> generation \<Rightarrow> hint option \<Rightarrow> int \<Rightarrow> BeadState option act" where
  "limit_report c key gen hint now =
     seq (look (limit_of c key gen)) (\<lambda>found. case found of
       None \<Rightarrow> ret None
     | Some b \<Rightarrow> seq (show_bead c) (\<lambda>v. case readable_record v of
         None \<Rightarrow> ret None
       | Some rec \<Rightarrow>
           if sr_session_key rec \<noteq> key then ret None
           else seq (transaction (
                  seq (open_op c PARK b [(''ref'', []), (''limit_key'', key), (''limit_gen'', show_int gen)]) (\<lambda>p.
                  record_defer c p (of_record rec) QUOTA_TEXT (Some (untrusted_defer_until hint now (pc_usage c))) UNTRUSTED))) (\<lambda>p.
                seq (cp c) (\<lambda>_. seq (defer_tail c p) (\<lambda>st. ret (Some st))))))"

end
