(* ===== verification/Guard.thy ===== *)
theory Guard
  imports Defer
begin

text \<open>
  The launch guard (\<^verbatim>\<open>wsd/park.py\<close>, \<^verbatim>\<open>Parker.launch\<close>): the only call of the runtime's \<^verbatim>\<open>launch\<close>. In order: the
  budget, the runtime, the holds and the role; the bead's labels, claim and record; its worktree and
  accounts; the operation's own dispatched generation (step 0) and every earlier one (step 1); the crash
  accounting; then the pin (step 2), its re-check (step 3), the dispatch (step 4), the receipt (step 5) and
  the outcome (step 6).
\<close>

datatype launch_result = GStarted | GLive | GWait | GUncertain | GFailed | GEnded

definition GUARD_SETTLES :: "Reason set" where "GUARD_SETTLES = {LAUNCH_UNCERTAIN}"

definition LOGIN_STALE :: string where
  "LOGIN_STALE = ''the login expires within the session'' @ [CHR 0x27] @ ''s maximum lifetime; refresh it on the host''"

definition NOT_SELECTED :: string where
  "NOT_SELECTED = ''no install is selected for the profile'' @ [CHR 0x27] @ ''s adapter; choose one with `wsctl harness use`''"

definition SELECTION_UNREADABLE :: string where
  "SELECTION_UNREADABLE = ''the install selection (harnesses.toml) can'' @ [CHR 0x27] @ ''t be read; `heterodyne config check` says why''"

definition stale_keys :: "op \<Rightarrow> string list" where
  "stale_keys p = listed_parts (data_text ''stale'' p)"

definition ended_with :: "park_context \<Rightarrow> op \<Rightarrow> Reason \<Rightarrow> string \<Rightarrow> launch_result act" where
  "ended_with c p reason detail = seq (escalate_from c p reason detail) (\<lambda>_. ret GEnded)"

section \<open>Launch entries\<close>

definition bead_write :: "park_context \<Rightarrow> launch_entry \<Rightarrow> unit act" where
  "bead_write c e = seq (ensure_launch c e) (\<lambda>_. cp c)"

definition put_field :: "park_context \<Rightarrow> launch_entry \<Rightarrow> string \<Rightarrow> string \<Rightarrow> launch_entry act" where
  "put_field c e name v = jact c (\<lambda>ts. launch_set (le_session_key e) (le_generation e) name v)"

definition receipt_for :: "launch_entry \<Rightarrow> journal \<Rightarrow> receipt option" where
  "receipt_for e j = receipt_of (le_session_key e) (le_generation e) j"

definition no_receipt :: "park_context \<Rightarrow> op \<Rightarrow> generation \<Rightarrow> launch_result act" where
  "no_receipt c p gen =
     seq (attempt (sessions_of_bead c (op_bead p))) (\<lambda>r.
     seq (case r of
            Inr ss \<Rightarrow> ret (show_int (int (length ss)) @ '' session(s) of the bead listed'')
          | Inl (XRuntimeUnavailable _) \<Rightarrow> ret (''the runtime'' @ [CHR 0x27] @ ''s session list unavailable'')
          | Inl e \<Rightarrow> raise e) (\<lambda>seen.
     ended_with c p UNEXPECTED_STATE (''generation '' @ show_int gen @ '' was dispatched with no launch receipt ('' @ seen @
       ''; not evidence)'')))"

text \<open>A receipt's outcome, and its native id, on the entry: first the journal, then the bead.\<close>

definition settle_entry :: "park_context \<Rightarrow> launch_entry \<Rightarrow> receipt \<Rightarrow> launch_entry act" where
  "settle_entry c e r =
     seq (transaction (
       seq (put_field c e ''outcome'' (if rc_kind r = ''started'' then LAUNCHED else ABANDONED)) (\<lambda>e.
       case truthy (rc_native_id r) of None \<Rightarrow> ret e | Some nat_id \<Rightarrow> put_field c e ''native_id'' nat_id))) (\<lambda>e.
     seq (cp c) (\<lambda>_. seq (bead_write c e) (\<lambda>_. ret e)))"

definition stale_refusal :: "park_context \<Rightarrow> op \<Rightarrow> launch_entry \<Rightarrow> launch_result act" where
  "stale_refusal c p e =
     (let stale = sort (remdups (le_credential_key e # stale_keys p)) in
      seq (transaction (
        seq (forget_op c p [''generation'']) (\<lambda>p.
        seq (step_op c p (o_step (snd p)) [(''stale'', commas stale)]) (\<lambda>p.
        seq (row_state c (op_bead p)) (\<lambda>row.
        seq (set_bead c (op_bead p) (state_or_stuck row) (Some LAUNCH_FAILED) LOGIN_STALE None) (\<lambda>_. ret p)))))) (\<lambda>p.
      seq (cp c) (\<lambda>_.
      case pc_accounts c of
        None \<Rightarrow> ret GFailed
      | Some ac \<Rightarrow>
          seq (ask c wd_clock) (\<lambda>now.
          seq (decide_at c ac (le_profile e) (le_session_key e) now (set stale)) (\<lambda>verdict. case verdict of
            Inr (AccountChanged _ _) \<Rightarrow> ended_with c p LAUNCH_FAILED LOGIN_STALE
          | _ \<Rightarrow> ret GFailed)))))"

text \<open>Steps 0 and 6: the one path of a dispatched generation of the operation, live or replayed.\<close>

definition outcome :: "park_context \<Rightarrow> op \<Rightarrow> launch_entry \<Rightarrow> launch_result act" where
  "outcome c p e =
     seq (look (receipt_for e)) (\<lambda>found. case found of
       None \<Rightarrow> no_receipt c p (le_generation e)
     | Some r \<Rightarrow>
         seq (settle_entry c e r) (\<lambda>e.
         if rc_kind r = ''started'' then
           seq (finish c p OP_DONE (Some (RUNNING, None, []))) (\<lambda>_. seq (cp c) (\<lambda>_. ret GStarted))
         else if rc_refusal r = Some ''unavailable'' then
           seq (transaction (
             seq (forget_op c p [''generation'']) (\<lambda>_.
             runtime_hold c p RUNTIME_UNAVAILABLE (ref_text (rc_error r))))) (\<lambda>_. ret GWait)
         else if rc_refusal r = Some ''failed'' \<and> rc_error r = Some LOGIN_STALE then stale_refusal c p e
         else seq (spend c p (pc_launch_failures c) LAUNCH_FAILED (ref_text (rc_error r)) [''generation'']) (\<lambda>spent.
              ret (if spent then GEnded else GFailed))))"

definition pinned_entry :: "op \<Rightarrow> session_record \<Rightarrow> launch_entry option act" where
  "pinned_entry p rec =
     (case truthy (data_get ''generation'' p) of
        None \<Rightarrow> ret None
      | Some g \<Rightarrow>
          seq (int_of g) (\<lambda>n.
          seq (look (launch (sr_session_key rec) n)) (\<lambda>e. case e of
            None \<Rightarrow> raise (XJournal EntryConflict)
          | Some e \<Rightarrow> ret (Some e))))"

definition own_dispatch :: "park_context \<Rightarrow> op \<Rightarrow> session_record \<Rightarrow> launch_result option act" where
  "own_dispatch c p rec =
     seq (pinned_entry p rec) (\<lambda>e. case e of
       None \<Rightarrow> ret None
     | Some e \<Rightarrow> if le_dispatched_at e = None then ret None else seq (outcome c p e) (\<lambda>r. ret (Some r)))"

section \<open>Reconciling earlier generations\<close>

definition rebuild :: "park_context \<Rightarrow> op \<Rightarrow> bead_launches \<Rightarrow> unit act" where
  "rebuild c p copies =
     seq (look (\<lambda>j. map ident (launches_of (pc_ws c) (op_bead p) j))) (\<lambda>known.
     let missing = filter (\<lambda>e. ident e \<notin> set known) (bl_entries copies) in
     if missing = [] then skip
     else seq (transaction (each (\<lambda>e. jtry c (\<lambda>ts. launch_insert ts e True)) missing)) (\<lambda>_. cp c))"

text \<open>\<open>Inl\<close> ends the guard: a dispatched generation with no receipt.\<close>

definition reconcile_entry :: "park_context \<Rightarrow> op \<Rightarrow> bead_launches \<Rightarrow> launch_entry \<Rightarrow> (launch_result + unit) act" where
  "reconcile_entry c p copies e =
     seq (if le_outcome e = None \<and> data_get ''generation'' p \<noteq> Some (show_int (le_generation e))
          then if le_dispatched_at e = None
               then seq (transaction (put_field c e ''outcome'' ABANDONED)) (\<lambda>e. seq (cp c) (\<lambda>_. ret (Inr e)))
               else seq (look (receipt_for e)) (\<lambda>found. case found of
                      None \<Rightarrow> seq (no_receipt c p (le_generation e)) (\<lambda>r. ret (Inl r))
                    | Some r \<Rightarrow> seq (settle_entry c e r) (\<lambda>e. ret (Inr e)))
          else ret (Inr e)) (\<lambda>r. case r of
       Inl l \<Rightarrow> ret (Inl l)
     | Inr e \<Rightarrow> if entry_at copies e = Some e then ret (Inr ()) else seq (bead_write c e) (\<lambda>_. ret (Inr ())))"

primrec reconcile_entries :: "park_context \<Rightarrow> op \<Rightarrow> bead_launches \<Rightarrow> launch_entry list \<Rightarrow> launch_result option act" where
  "reconcile_entries c p copies [] = ret None"
| "reconcile_entries c p copies (e # es) =
     seq (reconcile_entry c p copies e) (\<lambda>r. case r of Inl l \<Rightarrow> ret (Some l) | Inr _ \<Rightarrow> reconcile_entries c p copies es)"

definition reconcile :: "park_context \<Rightarrow> op \<Rightarrow> session_record \<Rightarrow> bead \<Rightarrow> launch_result option act" where
  "reconcile c p rec v =
     seq (launches_on c v) (\<lambda>copies.
     if list_ex (\<lambda>e. le_ws e \<noteq> pc_ws c \<or> le_bead e \<noteq> op_bead p) (bl_entries copies) then raise XLaunchesUnreadable
     else seq (rebuild c p copies) (\<lambda>_.
          seq (look (launches (sr_session_key rec))) (\<lambda>es. reconcile_entries c p copies es)))"

section \<open>Crash accounting\<close>

definition end_class :: "end_cause \<Rightarrow> string" where
  "end_class k = (case k of STOPPED \<Rightarrow> ''stopped'' | LIFETIME \<Rightarrow> ''lifetime'' | LEGACY_LIFETIME \<Rightarrow> ''legacy'' | _ \<Rightarrow> ''died'')"

definition cause_of :: "string \<Rightarrow> end_cause" where
  "cause_of v = (if v = ''stopped'' then STOPPED else if v = ''lifetime'' then LIFETIME
     else if v = ''refused'' then REFUSED else if v = ''legacy_lifetime'' then LEGACY_LIFETIME else DIED)"

definition resolved_as :: "launch_entry \<Rightarrow> resolved_end option \<Rightarrow> ended option" where
  "resolved_as e r = map_option (\<lambda>r. \<lparr>en_generation = le_generation e, en_cause = cause_of (re_cause r),
     en_reached_running = re_reached_running r, en_ran_seconds = re_ran_seconds r\<rparr>) r"

definition died_text :: "generation \<Rightarrow> ended option \<Rightarrow> string" where
  "died_text gen ending =
     (case ending of
        Some x \<Rightarrow> (case en_ran_seconds x of
            Some secs \<Rightarrow> if en_generation x = gen then ''generation '' @ show_int gen @ '' died after '' @ show_int secs @ ''s''
                        else ''generation '' @ show_int gen @ '' died''
          | None \<Rightarrow> ''generation '' @ show_int gen @ '' died'')
      | None \<Rightarrow> ''generation '' @ show_int gen @ '' died'')"

definition evidence_for :: "(string \<Rightarrow> resolved_end option) \<Rightarrow> launch_entry \<Rightarrow> ended option \<Rightarrow> journal \<Rightarrow> ended option" where
  "evidence_for decode e ending j =
     (if (case ending of None \<Rightarrow> True | Some x \<Rightarrow> en_generation x \<noteq> le_generation e)
      then (case resolved_as e (resolved_end_of decode e j) of None \<Rightarrow> ending | Some x \<Rightarrow> Some x)
      else ending)"

definition death_class :: "launch_entry \<Rightarrow> ended option \<Rightarrow> string" where
  "death_class e ending =
     (case ending of
        None \<Rightarrow> ''died''
      | Some x \<Rightarrow> if en_generation x \<noteq> le_generation e \<or> \<not> en_reached_running x then ''died'' else end_class (en_cause x))"

definition latest_of :: "launch_entry list \<Rightarrow> session_key \<Rightarrow> generation" where
  "latest_of es key = foldl max 0 (map le_generation (filter (\<lambda>e. le_session_key e = key) es))"

text \<open>One entry: its class, and the death's text for the operator.\<close>

definition account_entry :: "park_context \<Rightarrow> bead_id \<Rightarrow> launch_entry list \<Rightarrow> (session_key, ended option) table \<Rightarrow>
    int \<times> string list \<Rightarrow> launch_entry \<Rightarrow> (int \<times> string list) act" where
  "account_entry c b todo found acc e =
     seq (look (\<lambda>j. (rebuilt_at (le_session_key e) (le_generation e) j,
            evidence_for (pc_decode_end c) e (get_or None found (le_session_key e)) j))) (\<lambda>(rebuilt, ending).
     let klass = (if rebuilt \<noteq> None then ''reset''
                  else if le_generation e \<noteq> latest_of todo (le_session_key e) then ''legacy''
                  else death_class e ending) in
     seq (jact c (\<lambda>ts. crash_account (pc_ws c) b e klass)) (\<lambda>n.
     ret (n, if klass = ''died'' then snd acc @ [died_text (le_generation e) ending] else snd acc)))"

primrec account_entries :: "park_context \<Rightarrow> bead_id \<Rightarrow> launch_entry list \<Rightarrow> (session_key, ended option) table \<Rightarrow>
    int \<times> string list \<Rightarrow> launch_entry list \<Rightarrow> (int \<times> string list) act" where
  "account_entries c b todo found acc [] = ret acc"
| "account_entries c b todo found acc (e # es) =
     seq (account_entry c b todo found acc e) (\<lambda>acc. account_entries c b todo found acc es)"

fun joined :: "string list \<Rightarrow> string" where
  "joined [] = []"
| "joined [x] = x"
| "joined (x # xs) = x @ ''; '' @ joined xs"

definition end_evidence :: "park_context \<Rightarrow> session_key \<Rightarrow> (session_key \<times> ended option) act" where
  "end_evidence c key = seq (ask c wd_ended) (\<lambda>a. case a of
     Inl why \<Rightarrow> raise (XRuntimeUnavailable why) | Inr e \<Rightarrow> ret (key, e))"

definition unaccounted :: "ws_name \<Rightarrow> bead_id \<Rightarrow> journal \<Rightarrow> launch_entry list" where
  "unaccounted ws b j = filter (\<lambda>e. le_outcome e = Some LAUNCHED \<and> \<not> crash_accounted e j) (launches_of ws b j)"

definition account_deaths :: "park_context \<Rightarrow> op \<Rightarrow> launch_result option act" where
  "account_deaths c p =
     seq (look (unaccounted (pc_ws c) (op_bead p))) (\<lambda>todo.
     if todo = [] then ret None
     else seq (attempt (mapped (end_evidence c) (dict_fromkeys (map le_session_key todo)))) (\<lambda>r. case r of
       Inl (XRuntimeUnavailable why) \<Rightarrow> seq (hold_ws c RUNTIME_UNAVAILABLE why) (\<lambda>_. ret (Some GWait))
     | Inl e \<Rightarrow> raise e
     | Inr found \<Rightarrow>
         seq (transaction (
           seq (look (crash_count (pc_ws c) (op_bead p))) (\<lambda>n. case n of
             Inl e \<Rightarrow> raise (XJournal e)
           | Inr n \<Rightarrow>
               seq (account_entries c (op_bead p) todo found (n, []) (sort_key le_journaled_at (sort_key le_generation todo))) (\<lambda>(n, deaths).
               if n \<ge> pc_launch_failures c
               then seq (stuck c p CRASH_LOOP (joined (deaths @ [show_int n @ '' in a row'']))) (\<lambda>esc. ret (Some esc))
               else ret None)))) (\<lambda>esc.
         seq (cp c) (\<lambda>_. case esc of
           None \<Rightarrow> ret None
         | Some x \<Rightarrow> seq (hand_off c x) (\<lambda>_. ret (Some GEnded))))))"

section \<open>Pin and dispatch\<close>

definition new_entry :: "park_context \<Rightarrow> op \<Rightarrow> session_record \<Rightarrow> generation \<Rightarrow> string \<Rightarrow> string \<Rightarrow> install_pin option \<Rightarrow> timestamp \<Rightarrow>
    launch_entry" where
  "new_entry c p rec n account key pin ts =
     \<lparr>le_session_key = sr_session_key rec, le_generation = n, le_ws = pc_ws c, le_bead = op_bead p, le_role = sr_role rec,
      le_profile = sr_profile rec, le_account = account, le_credential_key = key,
      le_model_passed = get_or [] (pc_models c) (sr_profile rec), le_adopted = False, le_journaled_at = ts,
      le_dispatched_at = None, le_native_id = None, le_model_reported = None, le_outcome = None,
      le_install = (case pin of None \<Rightarrow> [] | Some x \<Rightarrow> ip_install x),
      le_install_digest = (case pin of None \<Rightarrow> [] | Some x \<Rightarrow> ip_digest x)\<rparr>"

definition pin_generation :: "park_context \<Rightarrow> op \<Rightarrow> session_record \<Rightarrow> string \<Rightarrow> string \<Rightarrow> string \<Rightarrow> (launch_result + op \<times> launch_entry) act" where
  "pin_generation c p rec adapter account key =
     seq (look (\<lambda>j. foldl max 0 (map le_generation (launches (sr_session_key rec) j)))) (\<lambda>final.
     if final \<ge> MAX_GENERATION
     then seq (ended_with c p UNEXPECTED_STATE (''generations exhausted at '' @ show_int final)) (\<lambda>r. ret (Inl r))
     else seq (if adapter = [] then ret (Inr None) else ask c wd_selection) (\<lambda>sel. case sel of
       Inl _ \<Rightarrow> seq (ended_with c p CONFIG_INVALID SELECTION_UNREADABLE) (\<lambda>r. ret (Inl r))
     | Inr pin \<Rightarrow>
         if adapter \<noteq> [] \<and> pin = None then seq (ended_with c p CONFIG_INVALID NOT_SELECTED) (\<lambda>r. ret (Inl r))
         else seq (ask c wd_now) (\<lambda>ts.
              let e = new_entry c p rec (final + 1) account key pin ts in
              if \<not> launch_entry_ok e then raise XValueError
              else seq (transaction (
                     seq (jtry c (\<lambda>ts. launch_insert ts e False)) (\<lambda>_.
                     step_op c p ''entry'' [(''generation'', show_int (final + 1))]))) (\<lambda>p.
                   seq (cp c) (\<lambda>_. seq (bead_write c e) (\<lambda>_. ret (Inr (p, e))))))))"

definition pin :: "park_context \<Rightarrow> op \<Rightarrow> session_record \<Rightarrow> configured_accounts \<Rightarrow> string \<Rightarrow> (launch_result + op \<times> launch_entry) act" where
  "pin c p rec ac adapter =
     seq (ask c wd_clock) (\<lambda>now.
     seq (decide_at c ac (sr_profile rec) (sr_session_key rec) now (set (stale_keys p))) (\<lambda>verdict. case verdict of
       Inl e \<Rightarrow> seq (ended_with c p CONFIG_INVALID (pc_error_text c e)) (\<lambda>r. ret (Inl r))
     | Inr v \<Rightarrow>
         (case v of
            AccountChanged _ _ \<Rightarrow>
              if stale_keys p \<noteq> [] then seq (ended_with c p LAUNCH_FAILED LOGIN_STALE) (\<lambda>r. ret (Inl r))
              else seq (defer_within c p (of_record rec) CHANGED_TEXT None) (\<lambda>_. ret (Inl GEnded))
          | Deadline t _ \<Rightarrow> seq (defer_within c p (of_record rec) QUOTA_TEXT (Some t)) (\<lambda>_. ret (Inl GEnded))
          | Chosen account key \<Rightarrow> pin_generation c p rec adapter account key)))"

definition pin_holds :: "park_context \<Rightarrow> op \<Rightarrow> configured_accounts \<Rightarrow> session_record \<Rightarrow> launch_entry \<Rightarrow> bool act" where
  "pin_holds c p ac rec e =
     seq (ask c wd_clock) (\<lambda>now.
     seq (ask c wd_login_key) (\<lambda>login.
     look (\<lambda>j. admitted login ac j (previous_key (sr_session_key rec) j) e now (pc_usage c) (set (stale_keys p)))))"

text \<open>One round of the loop: a pin that still holds, or the pin abandoned and the operation without it.\<close>

definition pin_round :: "park_context \<Rightarrow> op \<Rightarrow> session_record \<Rightarrow> configured_accounts \<Rightarrow> string \<Rightarrow>
    (launch_result + bool \<times> op \<times> launch_entry) act" where
  "pin_round c p rec ac adapter =
     seq (pinned_entry p rec) (\<lambda>found.
     seq (case found of
            Some e \<Rightarrow> seq (bead_write c e) (\<lambda>_. ret (Inr (p, e)))
          | None \<Rightarrow> pin c p rec ac adapter) (\<lambda>r. case r of
       Inl l \<Rightarrow> ret (Inl l)
     | Inr (p, e) \<Rightarrow>
         seq (pin_holds c p ac rec e) (\<lambda>ok.
         if ok then ret (Inr (True, p, e))
         else seq (transaction (
                seq (put_field c e ''outcome'' ABANDONED) (\<lambda>e.
                seq (forget_op c p [''generation'']) (\<lambda>p. ret (p, e))))) (\<lambda>(p, e).
              seq (cp c) (\<lambda>_. seq (bead_write c e) (\<lambda>_. ret (Inr (False, p, e))))))))"

definition pin_twice :: "park_context \<Rightarrow> op \<Rightarrow> session_record \<Rightarrow> configured_accounts \<Rightarrow> string \<Rightarrow> (launch_result + op \<times> launch_entry) act" where
  "pin_twice c p rec ac adapter =
     seq (pin_round c p rec ac adapter) (\<lambda>r. case r of
       Inl l \<Rightarrow> ret (Inl l)
     | Inr (held, p, e) \<Rightarrow>
         if held then ret (Inr (p, e))
         else seq (pin_round c p rec ac adapter) (\<lambda>r. case r of
                Inl l \<Rightarrow> ret (Inl l)
              | Inr (held, p, e) \<Rightarrow> if held then ret (Inr (p, e)) else ret (Inl GWait)))"

definition spec_for :: "park_context \<Rightarrow> op \<Rightarrow> session_record \<Rightarrow> string \<Rightarrow> string \<Rightarrow> capabilities \<Rightarrow> launch_entry list \<Rightarrow> launch_entry \<Rightarrow>
    launch_spec" where
  "spec_for c p rec worktree adapter caps launched e =
     (let handoff = (launched \<noteq> [] \<and> le_credential_key (last launched) \<noteq> le_credential_key e \<and>
                     handoff_relaunch caps \<and> \<not> cross_account_resume caps);
          first = (if adapter = ''claude-code'' then Some (sr_session_key rec) else None);
          native = (if handoff then None else if launched \<noteq> [] then le_native_id (last launched) else first)
      in \<lparr>sp_ws = pc_ws c, sp_bead = op_bead p, sp_role = sr_role rec, sp_profile = sr_profile rec,
          sp_session_key = sr_session_key rec, sp_worktree = worktree, sp_resume = (o_kind (snd p) = RESUME \<and> \<not> handoff),
          sp_ref = ref_of p, sp_generation = le_generation e, sp_native_id = native, sp_account = le_account e,
          sp_credential_key = le_credential_key e, sp_handoff = handoff, sp_model = le_model_passed e, sp_repo = sr_repo rec,
          sp_install = le_install e, sp_install_digest = le_install_digest e\<rparr>)"

definition refusal :: "launch_entry \<Rightarrow> string \<Rightarrow> string \<Rightarrow> receipt" where
  "refusal e kind why = \<lparr>rc_session_key = le_session_key e, rc_generation = le_generation e, rc_kind = ''refused'',
     rc_refusal = Some kind, rc_tmux_session = None, rc_tmux_pane = None, rc_pane_pid = None, rc_native_id = None,
     rc_error = Some why\<rparr>"

definition start_receipt :: "launch_entry \<Rightarrow> started \<Rightarrow> receipt" where
  "start_receipt e st = \<lparr>rc_session_key = le_session_key e, rc_generation = le_generation e, rc_kind = ''started'',
     rc_refusal = None, rc_tmux_session = Some (st_tmux_session st), rc_tmux_pane = Some (st_tmux_pane st),
     rc_pane_pid = Some (st_pane_pid st), rc_native_id = st_native_id st, rc_error = None\<rparr>"

text \<open>Steps 5 and 6: the call and its receipt, before anything else is done with the result.\<close>

definition receipted :: "park_context \<Rightarrow> op \<Rightarrow> launch_entry \<Rightarrow> receipt \<Rightarrow> launch_result act" where
  "receipted c p e r = seq (jtry c (\<lambda>ts. receipt_put ts r)) (\<lambda>_. seq (cp c) (\<lambda>_. outcome c p e))"

definition call_runtime :: "park_context \<Rightarrow> op \<Rightarrow> launch_entry \<Rightarrow> launch_spec \<Rightarrow> launch_result act" where
  "call_runtime c p e spec =
     seq (runtime_launch c spec) (\<lambda>a. case a of
       Started st \<Rightarrow> seq (cp c) (\<lambda>_. receipted c p e (start_receipt e st))
     | LaunchFailed why \<Rightarrow> receipted c p e (refusal e ''failed'' why)
     | LaunchUnavailable why \<Rightarrow> receipted c p e (refusal e ''unavailable'' why)
     | LaunchUncertain \<Rightarrow> ended_with c p UNEXPECTED_STATE
         (''the runtime could not say whether generation '' @ show_int (le_generation e) @ '' started''))"

text \<open>Step 4: dispatch, only ever of an entry with no outcome and no dispatch.\<close>

definition dispatch :: "park_context \<Rightarrow> op \<Rightarrow> session_record \<Rightarrow> string \<Rightarrow> configured_accounts \<Rightarrow> string \<Rightarrow> launch_entry \<Rightarrow>
    launch_result act" where
  "dispatch c p rec worktree ac adapter e =
     (if le_outcome e \<noteq> None \<or> le_dispatched_at e \<noteq> None then raise (XJournal EntryConflict)
      else seq (transaction (
             seq (ask c wd_now) (\<lambda>ts.
             seq (put_field c e ''dispatched_at'' ts) (\<lambda>e.
             seq (step_op c p ''dispatched'' []) (\<lambda>p. ret (p, e)))))) (\<lambda>(p, e).
           seq (cp c) (\<lambda>_.
           seq (bead_write c e) (\<lambda>_.
           seq (look (\<lambda>j. filter (\<lambda>x. le_outcome x = Some LAUNCHED) (launches (sr_session_key rec) j))) (\<lambda>launched.
           seq (park_capabilities c (Some ac) (sr_profile rec)) (\<lambda>caps.
           call_runtime c p e (spec_for c p rec worktree adapter caps launched e)))))))"

definition pin_and_dispatch :: "park_context \<Rightarrow> op \<Rightarrow> session_record \<Rightarrow> string \<Rightarrow> configured_accounts \<Rightarrow> launch_result act" where
  "pin_and_dispatch c p rec worktree ac =
     (let adapter = (case adapter_of ac (sr_profile rec) of None \<Rightarrow> [] | Some a \<Rightarrow> a) in
      seq (pin_twice c p rec ac adapter) (\<lambda>r. case r of
        Inl l \<Rightarrow> ret l
      | Inr (p, e) \<Rightarrow> dispatch c p rec worktree ac adapter e))"

section \<open>The guard\<close>

definition uncertain :: "park_context \<Rightarrow> op \<Rightarrow> string \<Rightarrow> launch_result act" where
  "uncertain c p detail =
     seq (hold_ws c LAUNCH_UNCERTAIN (op_bead p)) (\<lambda>_.
     seq (row_state c (op_bead p)) (\<lambda>row.
     seq (case row of None \<Rightarrow> skip | Some st \<Rightarrow> set_bead c (op_bead p) st (Some LAUNCH_UNCERTAIN) detail None) (\<lambda>_.
     ret GUncertain)))"

definition shelve :: "park_context \<Rightarrow> op \<Rightarrow> launch_result act" where
  "shelve c p =
     seq (ensure_label c (op_bead p) L_PARKED True) (\<lambda>_.
     seq (cp c) (\<lambda>_.
     seq (show_bead c) (\<lambda>v.
     seq (finish_parked c p OP_ABANDONED v) (\<lambda>_. ret GEnded))))"

definition finish_live :: "park_context \<Rightarrow> op \<Rightarrow> session_record \<Rightarrow> unit act" where
  "finish_live c p rec =
     seq (transaction (
       seq (case truthy (data_get ''generation'' p) of
              None \<Rightarrow> ret None
            | Some g \<Rightarrow> seq (int_of g) (\<lambda>n.
                seq (jact c (\<lambda>ts. launch_set (sr_session_key rec) n ''outcome'' ABANDONED)) (\<lambda>e. ret (Some e)))) (\<lambda>e.
       seq (finish c p OP_DONE (Some (RUNNING, None, []))) (\<lambda>_. ret e)))) (\<lambda>e.
     seq (cp c) (\<lambda>_.
     seq (case e of None \<Rightarrow> skip | Some x \<Rightarrow> bead_write c x) (\<lambda>_. cp c)))"

definition guard_launch :: "park_context \<Rightarrow> op \<Rightarrow> session_record \<Rightarrow> bead \<Rightarrow> string \<Rightarrow> configured_accounts \<Rightarrow> rt_session list \<Rightarrow>
    launch_result act" where
  "guard_launch c p rec v worktree ac own =
     seq (own_dispatch c p rec) (\<lambda>ending. case ending of Some l \<Rightarrow> ret l | None \<Rightarrow>
     seq (reconcile c p rec v) (\<lambda>ending. case ending of Some l \<Rightarrow> ret l | None \<Rightarrow>
     if list_ex (\<lambda>se. \<not> rs_live se \<or> rs_key se \<noteq> sr_session_key rec) own
     then uncertain c p ''a session of this bead is listed but not confirmed live''
     else if own \<noteq> [] then seq (finish_live c p rec) (\<lambda>_. ret GLive)
     else seq (account_deaths c p) (\<lambda>ending. case ending of Some l \<Rightarrow> ret l | None \<Rightarrow>
          pin_and_dispatch c p rec worktree ac)))"

text \<open>The exceptions' own texts are not kept in the detail.\<close>

definition guard_except :: "park_context \<Rightarrow> op \<Rightarrow> park_exn + launch_result \<Rightarrow> launch_result act" where
  "guard_except c p r =
     (case r of
        Inr l \<Rightarrow> ret l
      | Inl XLaunchConflict \<Rightarrow> ended_with c p UNEXPECTED_STATE ''launch entries disagree: ''
      | Inl XLaunchesUnreadable \<Rightarrow> ended_with c p UNEXPECTED_STATE ''launch entries disagree: ''
      | Inl (XJournal EntryConflict) \<Rightarrow> ended_with c p UNEXPECTED_STATE ''launch entries disagree: ''
      | Inl XNotOurs \<Rightarrow> seq (claim_lost c p) (\<lambda>_. ret GEnded)
      | Inl e \<Rightarrow> raise e)"

definition guard_accounts :: "park_context \<Rightarrow> op \<Rightarrow> session_record \<Rightarrow> bead \<Rightarrow> string \<Rightarrow> rt_session list \<Rightarrow> launch_result act" where
  "guard_accounts c p rec v worktree own =
     (case pc_accounts c of
        None \<Rightarrow> ended_with c p CONFIG_INVALID ''no account can be pinned for the profile''
      | Some ac \<Rightarrow>
          if adapter_of ac (sr_profile rec) = None
          then ended_with c p CONFIG_INVALID ''no account can be pinned for the profile''
          else seq (look (adoption_for (pc_ws c) (op_bead p))) (\<lambda>a.
               if (case a of None \<Rightarrow> False | Some x \<Rightarrow> \<not> a_settled x) then ret GWait
               else case a of
                 Some x \<Rightarrow> if unresolved_hold x then ended_with c p UNEXPECTED_STATE (a_detail x)
                           else seq (attempt (guard_launch c p rec v worktree ac own)) (guard_except c p)
               | None \<Rightarrow> seq (attempt (guard_launch c p rec v worktree ac own)) (guard_except c p)))"

definition guard_runnable :: "park_context \<Rightarrow> op \<Rightarrow> session_record \<Rightarrow> bead \<Rightarrow> rt_session list \<Rightarrow> launch_result act" where
  "guard_runnable c p rec v own =
     (if labelled v L_HELD \<or> labelled v L_PARKED \<or> open_blockers v \<noteq> []
      then if own \<noteq> [] then ended_with c p UNEXPECTED_STATE ''not runnable, but its session is listed'' else shelve c p
      else seq (attempt (verify_worktree c rec)) (\<lambda>r. case r of
             Inl (XWorktreeConflict why) \<Rightarrow> ended_with c p WORKTREE_FAILED why
           | Inl e \<Rightarrow> raise e
           | Inr worktree \<Rightarrow> guard_accounts c p rec v worktree own))"

definition guard_record :: "park_context \<Rightarrow> op \<Rightarrow> session_record option \<Rightarrow> bead \<Rightarrow> session_record option act" where
  "guard_record c p fresh v =
     (case fresh of
        None \<Rightarrow> record_of v
      | Some r \<Rightarrow> seq (ensure_record c (op_bead p) r False) (\<lambda>_. seq (cp c) (\<lambda>_. ret (Some r))))"

definition guard_bead :: "park_context \<Rightarrow> op \<Rightarrow> session_record option \<Rightarrow> rt_session list \<Rightarrow> launch_result act" where
  "guard_bead c p fresh own =
     seq (show_bead c) (\<lambda>v.
     if labelled v L_NEEDS_HUMAN
     then seq (finish c p OP_STUCK (Some (STUCK, Some NEEDS_HUMAN, []))) (\<lambda>_. ret GEnded)
     else seq (attempt (validate c)) (\<lambda>r. case r of
       Inl XNotOurs \<Rightarrow> seq (claim_lost c p) (\<lambda>_. ret GEnded)
     | Inl XRoutingChanged \<Rightarrow> ended_with c p ROUTING_CHANGED []
     | Inl e \<Rightarrow> raise e
     | Inr v \<Rightarrow>
         seq (attempt (guard_record c p fresh v)) (\<lambda>r. case r of
           Inl XRecordUnreadable \<Rightarrow> ended_with c p LAUNCH_UNRECORDED ''the session record does not parse''
         | Inl XRecordConflict \<Rightarrow> ended_with c p UNEXPECTED_STATE ''the session record names another launch''
         | Inl e \<Rightarrow> raise e
         | Inr None \<Rightarrow> ended_with c p LAUNCH_UNRECORDED []
         | Inr (Some rec) \<Rightarrow> guard_runnable c p rec v own)))"

definition launch_guard :: "park_context \<Rightarrow> op \<Rightarrow> session_record option \<Rightarrow> launch_result act" where
  "launch_guard c p fresh =
     (if o_attempts (snd p) \<ge> pc_launch_failures c
      then ended_with c p LAUNCH_FAILED (''the launch'' @ [CHR 0x27] @ ''s attempts are spent'')
      else seq (ask c wd_available) (\<lambda>up.
           if \<not> up then seq (hold_ws c RUNTIME_UNAVAILABLE []) (\<lambda>_. ret GWait)
           else seq (look (holds (pc_ws c))) (\<lambda>hs.
                if list_ex (\<lambda>(reason, held). reason \<notin> GUARD_SETTLES \<or> held \<noteq> op_bead p) hs then ret GWait
                else seq (attempt (sessions c)) (\<lambda>r. case r of
                       Inl (XRuntimeUnavailable why) \<Rightarrow> seq (hold_ws c RUNTIME_UNAVAILABLE why) (\<lambda>_. ret GWait)
                     | Inl e \<Rightarrow> raise e
                     | Inr listed \<Rightarrow>
                         if list_ex (\<lambda>se. rs_bead se \<noteq> op_bead p) listed then ret GWait
                         else guard_bead c p fresh listed))))"

end
