(* ===== verification/Release.thy ===== *)
theory Release
  imports Guard
begin

text \<open>
  The parker's operations that end in the launch guard or in a wait (\<^verbatim>\<open>wsd/park.py\<close>): converting an old quota
  step, undeferring and re-gating a deferred bead, resuming a parked one, the operator's release, and the
  replay of an open operation. \<^verbatim>\<open>place\<close> and \<^verbatim>\<open>record\<close> (\<^verbatim>\<open>wsd/workstream.py\<close>) and the adoption's verification
  (\<^verbatim>\<open>wsd/upgrade.py\<close>) are the parts of those files a release uses.
\<close>

section \<open>Undefer\<close>

definition convert_quota :: "park_context \<Rightarrow> op \<Rightarrow> launch_result act" where
  "convert_quota c p =
     seq (show_bead c) (\<lambda>v. case readable_record v of
       None \<Rightarrow> ended_with c p LAUNCH_UNRECORDED ''no session record to defer''
     | Some rec \<Rightarrow>
         seq (data_int ''until'' p) (\<lambda>t.
         seq (defer_within c p (of_record rec) QUOTA_TEXT (Some t)) (\<lambda>_. ret GEnded)))"

definition deferral_of :: "bead \<Rightarrow> (session_key \<times> int \<times> deferral_row) option act" where
  "deferral_of v =
     (case readable_record v of
        None \<Rightarrow> ret None
      | Some r \<Rightarrow> look (\<lambda>j. map_option (Pair (sr_session_key r)) (deferral_current (sr_session_key r) j)))"

datatype regate_verdict = NoAccounts | RegateConfig config_error | RegateDeadline int | RegateChanged | RegateOk

definition regate_verdict_of :: "park_context \<Rightarrow> session_key \<Rightarrow> deferral_row \<Rightarrow> regate_verdict act" where
  "regate_verdict_of c key current =
     (case pc_accounts c of
        None \<Rightarrow> ret NoAccounts
      | Some ac \<Rightarrow>
          seq (ask c wd_clock) (\<lambda>now.
          seq (decide_at c ac (d_profile current) key now {}) (\<lambda>verdict. ret (case verdict of
            Inl e \<Rightarrow> RegateConfig e
          | Inr (Deadline t _) \<Rightarrow> RegateDeadline t
          | Inr (AccountChanged _ _) \<Rightarrow> RegateChanged
          | Inr (Chosen _ _) \<Rightarrow> RegateOk))))"

definition finish_waiting :: "park_context \<Rightarrow> op \<Rightarrow> OpStatus \<Rightarrow> deferral_row option \<Rightarrow> unit act" where
  "finish_waiting c p status current =
     seq (case current of None \<Rightarrow> ret (ACCOUNT_CHANGED, ''account changed'') | Some d \<Rightarrow> deferred_reason d) (\<lambda>(reason, detail).
     finish c p status (Some (DEFERRED, Some reason, detail)))"

definition undefer_verdict :: "park_context \<Rightarrow> op \<Rightarrow> session_key \<Rightarrow> int \<Rightarrow> deferral_row \<Rightarrow> launch_result option act" where
  "undefer_verdict c p key n current =
     seq (regate_verdict_of c key current) (\<lambda>verdict. case verdict of
       NoAccounts \<Rightarrow> seq (ended_with c p CONFIG_INVALID ''no account can be pinned for the profile'') (\<lambda>r. ret (Some r))
     | RegateConfig e \<Rightarrow> seq (ended_with c p CONFIG_INVALID (pc_error_text c e)) (\<lambda>r. ret (Some r))
     | RegateOk \<Rightarrow> seq (cp c) (\<lambda>_. ret None)
     | RegateDeadline t \<Rightarrow> seq (defer_within c p (of_deferral key current) QUOTA_TEXT (Some t)) (\<lambda>_. ret (Some GEnded))
     | RegateChanged \<Rightarrow>
         if d_reason current = QUOTA_TEXT
         then seq (defer_within c p (of_deferral key current) CHANGED_TEXT None) (\<lambda>_. ret (Some GEnded))
         else seq (transaction (
                seq (jwrite c (\<lambda>ts. drop_over key n)) (\<lambda>_.
                finish_waiting c p OP_ABANDONED (Some current)))) (\<lambda>_. ret (Some GEnded)))"

definition undefer_gate :: "park_context \<Rightarrow> op \<Rightarrow> launch_result option act" where
  "undefer_gate c p =
     seq (data_item ''defer_key'' p) (\<lambda>key.
     seq (data_int ''undefer'' p) (\<lambda>n.
     seq (look (deferral_current key)) (\<lambda>current.
     seq (show_bead c) (\<lambda>v. case current of
       None \<Rightarrow> seq (finish_waiting c p OP_ABANDONED None) (\<lambda>_. ret (Some GEnded))
     | Some (number, d) \<Rightarrow>
         if number \<noteq> n then seq (finish_waiting c p OP_ABANDONED (Some d)) (\<lambda>_. ret (Some GEnded))
         else if labelled v L_NEEDS_HUMAN
         then seq (finish c p OP_ABANDONED (Some (STUCK, Some NEEDS_HUMAN, []))) (\<lambda>_. ret (Some GEnded))
         else if labelled v L_HELD
         then seq (finish c p OP_ABANDONED (Some (HELD, Some HELD_BY_OPERATOR, []))) (\<lambda>_. ret (Some GEnded))
         else if open_blockers v \<noteq> [] \<and> \<not> labelled v L_PARKED
         then seq (finish_waiting c p OP_ABANDONED (Some d)) (\<lambda>_. ret (Some GEnded))
         else undefer_verdict c p key n d))))"

text \<open>\<open>Inl\<close> is the replay's early return.\<close>

definition undefer_steps :: "park_context \<Rightarrow> op \<Rightarrow> (launch_result + op) act" where
  "undefer_steps c p =
     seq (if o_step (snd p) = ''intent''
          then seq (undefer_gate c p) (\<lambda>ending. case ending of
                 Some l \<Rightarrow> ret (Inl l)
               | None \<Rightarrow> seq (step_op c p ''gated'' []) (\<lambda>p. seq (cp c) (\<lambda>_. ret (Inr p))))
          else ret (Inr p)) (\<lambda>r. case r of
       Inl l \<Rightarrow> ret (Inl l)
     | Inr p \<Rightarrow>
         if o_step (snd p) = ''gated''
         then seq (ensure_label c (op_bead p) L_DEFERRED False) (\<lambda>_. seq (stepped c p ''unlabelled'' []) (\<lambda>p. ret (Inr p)))
         else ret (Inr p))"

definition replay_undefer :: "park_context \<Rightarrow> op \<Rightarrow> launch_result act" where
  "replay_undefer c p =
     seq (attempt (undefer_steps c p)) (\<lambda>r. case r of
       Inl XNotOurs \<Rightarrow> seq (claim_lost c p) (\<lambda>_. ret GEnded)
     | Inl e \<Rightarrow> raise e
     | Inr (Inl l) \<Rightarrow> ret l
     | Inr (Inr p) \<Rightarrow>
         seq (show_bead c) (\<lambda>v.
         if labelled v L_PARKED then seq (finish_parked c p OP_DONE v) (\<lambda>_. ret GEnded)
         else launch_guard c p None))"

definition undefer :: "park_context \<Rightarrow> bead_id \<Rightarrow> string option \<Rightarrow> launch_result act" where
  "undefer c b ref =
     seq (show_bead c) (\<lambda>v.
     seq (deferral_of v) (\<lambda>current. case current of
       None \<Rightarrow> raise XNotDeferrable
     | Some (key, n, d) \<Rightarrow>
         seq (transaction (
           seq (open_op c RESUME b [(''ref'', ref_text ref), (''undefer'', show_int n), (''defer_key'', key)]) (\<lambda>p.
           seq (set_bead c b RESUMING None [] ref) (\<lambda>_. ret p)))) (\<lambda>p.
         seq (cp c) (\<lambda>_. replay_undefer c p))))"

section \<open>Re-gate\<close>

datatype regated = RegatedOver | RegatedQuota | RegatedUnchanged

definition regate_skipped :: "park_context \<Rightarrow> bead_id \<Rightarrow> session_key \<Rightarrow> int \<Rightarrow> bead \<Rightarrow> journal \<Rightarrow> bool" where
  "regate_skipped c b key n v j \<longleftrightarrow> is_over key n j \<or> op_for (pc_ws c) b j \<noteq> None \<or> labelled v L_HELD \<or>
     labelled v L_NEEDS_HUMAN \<or> map_option b_state (state (pc_ws c) b j) \<noteq> Some DEFERRED"

definition regate_wait :: "park_context \<Rightarrow> bead_id \<Rightarrow> op option \<Rightarrow> session_key \<Rightarrow> int \<Rightarrow> deferral_row \<Rightarrow> regated act" where
  "regate_wait c b inside key n current =
     seq (regate_verdict_of c key current) (\<lambda>verdict. case verdict of
       RegateOk \<Rightarrow>
         seq (transaction (
           seq (ask c wd_clock) (\<lambda>now.
           seq (jact c (\<lambda>ts j. Inr (mark_over now key n j))) (\<lambda>_.
           case inside of None \<Rightarrow> skip | Some p \<Rightarrow> finish_waiting c p OP_DONE (Some current))))) (\<lambda>_.
         seq (if inside = None then skip else cp c) (\<lambda>_. ret RegatedOver))
     | RegateDeadline t \<Rightarrow>
         (case inside of
            Some p \<Rightarrow> seq (defer_within c p (of_deferral key current) QUOTA_TEXT (Some t)) (\<lambda>_. ret RegatedQuota)
          | None \<Rightarrow>
              seq (transaction (
                seq (open_op c PARK b [(''ref'', [])]) (\<lambda>p.
                record_defer c p (of_deferral key current) QUOTA_TEXT (Some t) TRUSTED))) (\<lambda>p.
              seq (cp c) (\<lambda>_. seq (defer_tail c p) (\<lambda>_. ret RegatedQuota))))
     | _ \<Rightarrow>
         (case inside of
            None \<Rightarrow> ret RegatedUnchanged
          | Some p \<Rightarrow> seq (finish_waiting c p OP_DONE (Some current)) (\<lambda>_. ret RegatedUnchanged)))"

definition regate :: "park_context \<Rightarrow> bead_id \<Rightarrow> op option \<Rightarrow> regated act" where
  "regate c b inside =
     seq (show_bead c) (\<lambda>v.
     seq (deferral_of v) (\<lambda>current. case current of
       None \<Rightarrow> ret RegatedUnchanged
     | Some (key, n, d) \<Rightarrow>
         if d_reason d \<noteq> CHANGED_TEXT then ret RegatedUnchanged
         else seq (look (regate_skipped c b key n v)) (\<lambda>skipped.
              if inside = None \<and> skipped then ret RegatedUnchanged else regate_wait c b inside key n d)))"

section \<open>Resume\<close>

definition replay_resume :: "park_context \<Rightarrow> op \<Rightarrow> launch_result act" where
  "replay_resume c p =
     (if prefix ''defer.'' (o_step (snd p)) then seq (defer_tail c p) (\<lambda>_. ret GEnded)
      else if o_step (snd p) = ''quota'' then convert_quota c p
      else if data_get ''undefer'' p \<noteq> None then replay_undefer c p
      else if o_step (snd p) \<noteq> ''intent'' then launch_guard c p None
      else seq (show_bead c) (\<lambda>v.
           if labelled v L_PARKED \<and> labelled v L_NEEDS_HUMAN
           then seq (finish c p OP_ABANDONED (Some (STUCK, Some NEEDS_HUMAN, []))) (\<lambda>_. ret GEnded)
           else if labelled v L_PARKED \<and> \<not> resumable v
           then seq (finish_parked c p OP_ABANDONED v) (\<lambda>_. ret GEnded)
           else seq (attempt (if labelled v L_PARKED then ensure_label c (op_bead p) L_PARKED False else skip)) (\<lambda>r. case r of
             Inl XNotOurs \<Rightarrow> seq (claim_lost c p) (\<lambda>_. ret GEnded)
           | Inl e \<Rightarrow> raise e
           | Inr _ \<Rightarrow> seq (stepped c p ''unlabelled'' []) (\<lambda>p. launch_guard c p None))))"

definition resume :: "park_context \<Rightarrow> bead_id \<Rightarrow> string option \<Rightarrow> launch_result act" where
  "resume c b ref =
     seq (transaction (
       seq (open_op c RESUME b [(''ref'', ref_text ref)]) (\<lambda>p.
       seq (set_bead c b RESUMING None [] ref) (\<lambda>_. ret p)))) (\<lambda>p.
     seq (cp c) (\<lambda>_. replay_resume c p))"

section \<open>Placing and recording a bead\<close>

definition DEFAULT_REPO :: string where "DEFAULT_REPO = ''default''"

text \<open>\<^verbatim>\<open>place\<close> and \<^verbatim>\<open>record\<close>; the exceptions' own texts are not kept.\<close>

definition placed_record :: "park_context \<Rightarrow> bead \<Rightarrow> session_record act" where
  "placed_record c v =
     (case (case bd_repo v of Absent \<Rightarrow> Some DEFAULT_REPO | MetaStr n \<Rightarrow> Some n | MetaOther \<Rightarrow> None) of
        None \<Rightarrow> raise (XConfigInvalid ''the bead names no repository of this workstream'')
      | Some name \<Rightarrow>
          (case map_of (pc_repos c) name of
             None \<Rightarrow> raise (XConfigInvalid ''the bead names no repository of this workstream'')
           | Some dir \<Rightarrow>
               (case bind_result (profile_for (bd_labels v) (pc_coder_role c) (pc_coder_profile c)) (\<lambda>profile.
                       bind_result (role_session (pc_uuid5 c) (bd_id v) (pc_coder_role c) profile) (\<lambda>key. Inr (profile, key))) of
                  Inl _ \<Rightarrow> raise (XConfigInvalid [])
                | Inr (profile, key) \<Rightarrow>
                    if profile \<notin> set (pc_profiles c) then raise (XConfigInvalid ''the bead names an unknown profile'')
                    else seq (ask c wd_resolve) (\<lambda>resolve.
                         ret \<lparr>sr_role = pc_coder_role c, sr_profile = profile, sr_session_key = key, sr_repo = resolve dir,
                              sr_worktree = resolve dir @ ''-btq-'' @ bd_id v\<rparr>))))"

definition record_for_release :: "park_context \<Rightarrow> bead \<Rightarrow> unit act" where
  "record_for_release c v =
     (let rec = readable_record v in
      seq (sessions_of_bead c (bd_id v)) (\<lambda>own.
      if (case rec of None \<Rightarrow> False | Some r \<Rightarrow> list_all (\<lambda>se. rs_key se = sr_session_key r) own) then skip
      else seq (case rec of Some r \<Rightarrow> ret r | None \<Rightarrow> placed_record c v) (\<lambda>fresh.
           seq (each (\<lambda>se. if rs_key se \<noteq> sr_session_key fresh then stop c (rs_key se) else skip) own) (\<lambda>_.
           seq (cp c) (\<lambda>_.
           if rec = None then seq (ensure_record c (bd_id v) fresh True) (\<lambda>_. cp c) else skip)))))"

section \<open>Adoptions\<close>

definition adopted_entry :: "park_context \<Rightarrow> bead_id \<Rightarrow> session_record \<Rightarrow> string \<Rightarrow> string \<Rightarrow> timestamp \<Rightarrow> string option \<Rightarrow> launch_entry" where
  "adopted_entry c b rec adapter key ts thread =
     \<lparr>le_session_key = sr_session_key rec, le_generation = 1, le_ws = pc_ws c, le_bead = b, le_role = sr_role rec,
      le_profile = sr_profile rec, le_account = DEFAULT_ACCOUNT, le_credential_key = key, le_model_passed = [],
      le_adopted = True, le_journaled_at = ts, le_dispatched_at = Some ts,
      le_native_id = (if adapter = ''claude-code'' then Some (sr_session_key rec) else thread), le_model_reported = None,
      le_outcome = Some LAUNCHED, le_install = [], le_install_digest = []\<rparr>"

definition same_adoption :: "launch_entry \<Rightarrow> launch_entry \<Rightarrow> bool" where
  "same_adoption found wanted \<longleftrightarrow>
     found\<lparr>le_journaled_at := le_journaled_at wanted, le_dispatched_at := le_dispatched_at wanted\<rparr> = wanted"

definition claim_text :: "claim_view \<Rightarrow> string" where
  "claim_text v = (case v of ClaimOurs \<Rightarrow> ''ours'' | ClaimFree \<Rightarrow> ''free'' | ClaimOther \<Rightarrow> ''other'' | ClaimGone \<Rightarrow> ''gone'')"

definition op_kind_value :: "OpKind \<Rightarrow> string" where
  "op_kind_value k = (case k of PICKUP \<Rightarrow> ''pickup'' | PARK \<Rightarrow> ''park'' | RESUME \<Rightarrow> ''resume'' | RELEASE \<Rightarrow> ''release'' |
     ESCALATE \<Rightarrow> ''escalate'')"

text \<open>The entry to use, or the failed condition.\<close>

definition check_agreement :: "claim_view \<Rightarrow> op_row option \<Rightarrow> launch_entry list option \<Rightarrow> launch_entry \<Rightarrow> string + launch_entry" where
  "check_agreement claim other entries e =
     (if claim \<noteq> ClaimOurs then Inl (''the claim reads '' @ claim_text claim @ '', not ours'')
      else case other of
        Some r \<Rightarrow> Inl (''a '' @ op_kind_value (o_kind r) @ '' is open at step '' @ o_step r @ ''; its launch state is unknown'')
      | None \<Rightarrow>
          (case entries of
             None \<Rightarrow> Inl ''wsd_launches does not parse''
           | Some [] \<Rightarrow> Inr e
           | Some [x] \<Rightarrow> if same_adoption x e then Inr x else Inl ''the bead already has launch entries''
           | Some _ \<Rightarrow> Inl ''the bead already has launch entries''))"

definition reverify :: "park_context \<Rightarrow> op \<Rightarrow> bead \<Rightarrow> (string + launch_entry) act" where
  "reverify c p v =
     (case bd_record v of
        RecordUnreadable \<Rightarrow> ret (Inl ''the session record does not parse'')
      | NoRecord \<Rightarrow> ret (Inl ''no session record'')
      | RecordOf rec \<Rightarrow>
          if isl (role_session (pc_uuid5 c) (op_bead p) (sr_role rec) (sr_profile rec)) then raise XValueError
          else if role_session (pc_uuid5 c) (op_bead p) (sr_role rec) (sr_profile rec) \<noteq> Inr (sr_session_key rec)
          then ret (Inl (''the record'' @ [CHR 0x27] @ ''s session key is not the bead'' @ [CHR 0x27] @ ''s role session''))
          else (case Option.bind (pc_accounts c) (\<lambda>ac. map_option (Pair ac) (adapter_of ac (sr_profile rec))) of
             None \<Rightarrow> ret (Inl (''profile '' @ sr_profile rec @ '' no longer exists''))
           | Some (ac, adapter) \<Rightarrow>
               seq (ask c wd_login_key) (\<lambda>login.
               seq (ask c wd_login_resolves) (\<lambda>resolves.
               (case current_key login ac adapter DEFAULT_ACCOUNT of
                  Inl _ \<Rightarrow> ret (Inl (''the '' @ adapter @ '' default login does not resolve''))
                | Inr key \<Rightarrow>
                    if \<not> resolves then ret (Inl (''the '' @ adapter @ '' default login does not resolve''))
                    else seq (look (op_for (pc_ws c) (op_bead p))) (\<lambda>found.
                         seq (attempt (launches_on c v)) (\<lambda>bl.
                         seq (ask c wd_now) (\<lambda>ts.
                         seq (read_claim c) (\<lambda>claim.
                         ret (check_agreement claim
                           (case found of None \<Rightarrow> None | Some (i, r) \<Rightarrow> if i = fst p then None else Some r)
                           (case bl of Inl _ \<Rightarrow> None | Inr x \<Rightarrow> Some (bl_entries x))
                           (adopted_entry c (op_bead p) rec adapter key ts (bd_thread v))))))))))))"

text \<open>\<open>Some\<close> is the failed condition.\<close>

definition write_adopted :: "park_context \<Rightarrow> op \<Rightarrow> string option act" where
  "write_adopted c p =
     seq (look (\<lambda>j. filter le_adopted (launches_of (pc_ws c) (op_bead p) j))) (\<lambda>es. case es of
       [e] \<Rightarrow> seq (bead_write c e) (\<lambda>_. ret None)
     | _ \<Rightarrow> raise XValueError)"

definition resolve_adoption :: "park_context \<Rightarrow> op \<Rightarrow> bead \<Rightarrow> string option act" where
  "resolve_adoption c p v =
     seq (look (adoption_for (pc_ws c) (op_bead p))) (\<lambda>found. case found of
       None \<Rightarrow> ret None
     | Some a \<Rightarrow>
         if a_resolution a \<noteq> None
         then if a_resolved_by a \<noteq> Some (fst p) then ret None else write_adopted c p
         else if \<not> unresolved_hold a then ret None
         else seq (record_for_release c v) (\<lambda>_.
              seq (show_bead c) (\<lambda>v.
              seq (reverify c p v) (\<lambda>r. case r of
                Inl failed \<Rightarrow> ret (Some failed)
              | Inr e \<Rightarrow>
                  seq (transaction (
                    seq (jtry c (\<lambda>ts. launch_insert ts e False)) (\<lambda>_.
                    seq (jtry c (\<lambda>ts. adoption_resolve ts (pc_ws c) (op_bead p) (fst p))) (\<lambda>_.
                    jact c (\<lambda>ts j. Inr ((), snd (emit ts (pc_ws c) (Some (op_bead p)) ''adoption_resolved'' (Plain [])
                      (Some (fst p)) j))))))) (\<lambda>_.
                  seq (cp c) (\<lambda>_. write_adopted c p))))))"

section \<open>Release\<close>

definition RELEASABLE :: "BeadState set" where "RELEASABLE = {HELD, STUCK, DEFERRED}"

definition release_regate :: "park_context \<Rightarrow> op \<Rightarrow> BeadState act" where
  "release_regate c p =
     seq (show_bead c) (\<lambda>v.
     seq (deferral_of v) (\<lambda>current. case current of
       None \<Rightarrow> seq (escalate_from c p UNEXPECTED_STATE ''deferred without a deferral record'') (\<lambda>_. ret STUCK)
     | Some (key, n, d) \<Rightarrow>
         seq (if d_reason d = CHANGED_TEXT then seq (regate c (op_bead p) (Some p)) (\<lambda>_. skip)
              else finish_waiting c p OP_DONE (Some d)) (\<lambda>_.
         seq (cp c) (\<lambda>_. seq (row_state c (op_bead p)) (\<lambda>st. ret (state_or_stuck st))))))"

text \<open>What a release does with an unlabelled bead; \<open>None\<close> goes on to a resume.\<close>

definition release_steps :: "park_context \<Rightarrow> op \<Rightarrow> BeadState option act" where
  "release_steps c p =
     seq (at_step ''intent'' (\<lambda>p.
            seq (ensure_label c (op_bead p) L_HELD False) (\<lambda>_.
            seq (ensure_label c (op_bead p) L_NEEDS_HUMAN False) (\<lambda>_. stepped c p ''unlabelled'' []))) p) (\<lambda>p.
     seq (show_bead c) (\<lambda>v.
     seq (resolve_adoption c p v) (\<lambda>failed. case failed of
       Some why \<Rightarrow> seq (escalate_from c p UNEXPECTED_STATE (''adoption still unverified: '' @ why)) (\<lambda>_. ret (Some STUCK))
     | None \<Rightarrow>
         if labelled v L_DEFERRED
         then seq (deferral_of v) (\<lambda>current. case current of
                None \<Rightarrow> seq (escalate_from c p UNEXPECTED_STATE ''deferred without a deferral record'') (\<lambda>_. ret (Some STUCK))
              | Some (key, n, d) \<Rightarrow>
                  seq (transaction (
                    seq (step_op c p ''regate'' []) (\<lambda>p.
                    seq (deferred_reason d) (\<lambda>(reason, detail).
                    seq (set_bead c (op_bead p) DEFERRED (Some reason) detail (ref_of p)) (\<lambda>_. ret p))))) (\<lambda>p.
                  seq (cp c) (\<lambda>_. seq (release_regate c p) (\<lambda>st. ret (Some st)))))
         else if labelled v L_PARKED
         then seq (finish_parked c p OP_DONE v) (\<lambda>final. seq (cp c) (\<lambda>_. ret (Some final)))
         else seq (record_for_release c v) (\<lambda>_. ret None))))"

definition release_except :: "park_context \<Rightarrow> op \<Rightarrow> park_exn \<Rightarrow> BeadState act" where
  "release_except c p e =
     (case e of
        XNotOurs \<Rightarrow> seq (claim_lost c p) (\<lambda>_. ret STUCK)
      | XConfigInvalid why \<Rightarrow> seq (escalate_from c p CONFIG_INVALID why) (\<lambda>_. ret STUCK)
      | XRecordConflict \<Rightarrow>
          seq (escalate_from c p UNEXPECTED_STATE ''the session record names another launch'') (\<lambda>_. ret STUCK)
      | XLaunchConflict \<Rightarrow> seq (escalate_from c p UNEXPECTED_STATE ''adoption still unverified: '') (\<lambda>_. ret STUCK)
      | XLaunchesUnreadable \<Rightarrow> seq (escalate_from c p UNEXPECTED_STATE ''adoption still unverified: '') (\<lambda>_. ret STUCK)
      | XJournal EntryConflict \<Rightarrow> seq (escalate_from c p UNEXPECTED_STATE ''adoption still unverified: '') (\<lambda>_. ret STUCK)
      | XRuntimeUnavailable why \<Rightarrow> runtime_hold c p STOP_UNCONFIRMED why
      | _ \<Rightarrow> raise e)"

definition release_to_resume :: "park_context \<Rightarrow> op \<Rightarrow> BeadState act" where
  "release_to_resume c p =
     seq (transaction (
       seq (end_op c p OP_DONE) (\<lambda>_.
       seq (open_op c RESUME (op_bead p) [(''ref'', data_text ''ref'' p)]) (\<lambda>next_op.
       seq (step_op c next_op ''unlabelled'' []) (\<lambda>_.
       set_bead c (op_bead p) RESUMING None [] (ref_of p)))))) (\<lambda>_.
     seq (cp c) (\<lambda>_. ret RESUMING))"

definition replay_release :: "park_context \<Rightarrow> op \<Rightarrow> BeadState act" where
  "replay_release c p =
     (if prefix ''defer.'' (o_step (snd p)) then defer_tail c p
      else if o_step (snd p) = ''regate'' then release_regate c p
      else seq (attempt (release_steps c p)) (\<lambda>r. case r of
             Inl e \<Rightarrow> release_except c p e
           | Inr (Some st) \<Rightarrow> ret st
           | Inr None \<Rightarrow> release_to_resume c p))"

definition unverifiable :: "park_context \<Rightarrow> bead_id \<Rightarrow> journal \<Rightarrow> bool" where
  "unverifiable c b j \<longleftrightarrow>
     list_ex (\<lambda>e. le_dispatched_at e \<noteq> None \<and> le_outcome e = None \<and> receipt_for e j = None) (launches_of (pc_ws c) b j) \<or>
     (case adoption_for (pc_ws c) b j of
        None \<Rightarrow> False
      | Some a \<Rightarrow> unresolved_hold a \<and> pc_configured c (a_facts a) (pc_adoption_adapter c (a_facts a)))"

definition release :: "park_context \<Rightarrow> bead_id \<Rightarrow> string option \<Rightarrow> BeadState act" where
  "release c b ref =
     seq (cp c) (\<lambda>_.
     seq (transaction (
       seq (look (state (pc_ws c) b)) (\<lambda>row.
       seq (look (op_for (pc_ws c) b)) (\<lambda>found. case row of
         None \<Rightarrow> raise XNotReleasable
       | Some r \<Rightarrow>
           if b_state r \<notin> RELEASABLE \<or> found \<noteq> None \<or> b_state r = DEFERRED \<and> b_reason r \<noteq> Some ACCOUNT_CHANGED
           then raise XNotReleasable
           else seq (look (unverifiable c b)) (\<lambda>bad.
                if bad then raise XNotReleasable
                else seq (open_op c RELEASE b [(''ref'', ref_text ref)]) (\<lambda>p.
                     seq (jwrite c (\<lambda>ts. crash_reset (pc_ws c) b)) (\<lambda>_.
                     if b_state r = DEFERRED then step_op c p ''regate'' [] else ret p))))))) (\<lambda>p.
     seq (cp c) (\<lambda>_. replay_release c p)))"

section \<open>Replay\<close>

definition replay :: "park_context \<Rightarrow> op \<Rightarrow> unit act" where
  "replay c p =
     (if prefix ''defer.'' (o_step (snd p)) then seq (defer_tail c p) (\<lambda>_. skip)
      else if o_step (snd p) = ''quota'' \<and> o_kind (snd p) \<in> {PICKUP, RESUME} then seq (convert_quota c p) (\<lambda>_. skip)
      else case o_kind (snd p) of
        PARK \<Rightarrow> seq (replay_park c p) (\<lambda>_. skip)
      | RESUME \<Rightarrow> seq (replay_resume c p) (\<lambda>_. skip)
      | RELEASE \<Rightarrow> seq (replay_release c p) (\<lambda>_. skip)
      | ESCALATE \<Rightarrow> replay_escalation c p
      | PICKUP \<Rightarrow> raise XValueError)"

end
