(* ===== verification/Scheduler.thy ===== *)
theory Scheduler
  imports Release Sweep
begin

text \<open>
  Pickup (\<^verbatim>\<open>wsd/scheduler.py\<close>): one pass over a workstream. It clamps deadlines, asks the runtime, settles the
  holds it owns, drains the sessions' reports, sweeps, replays every open operation, and then tries the
  candidates in turn: resumable and over deferred beads first, then new ready work, which is claimed behind
  the claim gate, placed, given a worktree and handed to the launch guard. Answers of the queue, the runtime,
  the harness and the claim gate are numbered like the parker's; the sweep runs on one set of answers.
  \<^verbatim>\<open>wake_at\<close> and the held reports are results of a pickup, the latter also its argument.
\<close>

section \<open>Answers\<close>

datatype claim_answer = Claimed | ClaimRefused string | ClaimRouting | ClaimUncertain | ClaimUnavailable
datatype worktree_answer = WorktreeMade | WorktreeNotOurs | WorktreeConflict string | WorktreeFails

datatype signal = UsageSeen session_key generation "observation list" | LimitSeen session_key generation "hint option"
  | InstallTainted session_key generation string string | ExecDirCleared session_key generation string string

fun signal_launch :: "signal \<Rightarrow> session_key \<times> generation" where
  "signal_launch (UsageSeen key n obs) = (key, n)"
| "signal_launch (LimitSeen key n h) = (key, n)"
| "signal_launch (InstallTainted key n a i) = (key, n)"
| "signal_launch (ExecDirCleared key n p d) = (key, n)"

record pickup_world =
  pw_paused :: "nat \<Rightarrow> bool option"
  pw_ready :: "nat \<Rightarrow> bead list option"
  pw_ours :: "nat \<Rightarrow> bead list option"
  pw_exists :: "nat \<Rightarrow> bool option"
  pw_claimable :: "nat \<Rightarrow> bool option"
  pw_claim :: "nat \<Rightarrow> claim_answer"
  pw_worktree :: "nat \<Rightarrow> worktree_answer"
  pw_signals :: "nat \<Rightarrow> string + signal list"
  pw_expire :: "nat \<Rightarrow> string option"
  pw_unresolved :: "nat \<Rightarrow> string list option"
  pw_taint_current :: "nat \<Rightarrow> bool option"
  pw_services :: "nat \<Rightarrow> services"
  pw_sweep_id :: "nat \<Rightarrow> bead_id \<Rightarrow> string"

record sched_context =
  sc_park :: park_context
  sc_world :: pickup_world

definition sc_ws :: "sched_context \<Rightarrow> ws_name" where "sc_ws c = pc_ws (sc_park c)"

definition query :: "sched_context \<Rightarrow> (pickup_world \<Rightarrow> nat \<Rightarrow> 'a) \<Rightarrow> 'a act" where
  "query c f s = (Inr (f (sc_world c) (pk_tick s)), s\<lparr>pk_tick := Suc (pk_tick s)\<rparr>)"

definition queue :: "sched_context \<Rightarrow> (pickup_world \<Rightarrow> nat \<Rightarrow> 'a option) \<Rightarrow> 'a act" where
  "queue c f = seq (query c f) (\<lambda>a. case a of None \<Rightarrow> raise XBeadsUnavailable | Some x \<Rightarrow> ret x)"

datatype pickup_outcome = PuStarted | PuResumed | PuBusy | PuNothing | PuStuck | PuHeld | PuDeferred

definition RESUMABLE_ROWS :: "BeadState set" where "RESUMABLE_ROWS = {PARKED, WAITING_INPUT}"
definition UNLISTED :: "Reason set" where "UNLISTED = {UNCLAIMABLE, ACCOUNT_REPOINTED}"
definition KEPT :: "BeadState set" where "KEPT = {HELD, STUCK}"
definition MAX_HELD :: nat where "MAX_HELD = 256"

definition INSTALL_TAINTED :: string where
  "INSTALL_TAINTED = ''the install is tainted: a verification of it failed; check it with `wsctl harness verify` or remove it''"

definition adopt_bead :: "sched_context \<Rightarrow> bead_id \<Rightarrow> BeadState \<Rightarrow> Reason option \<Rightarrow> string \<Rightarrow> unit act" where
  "adopt_bead c b st reason detail = jwrite (sc_park c) (\<lambda>ts. adopt ts (sc_ws c) b st reason detail None)"

definition unhold_ws :: "sched_context \<Rightarrow> Reason \<Rightarrow> unit act" where
  "unhold_ws c reason = jwrite (sc_park c) (\<lambda>ts. unhold ts (sc_ws c) reason)"

section \<open>The gate at pickup\<close>

text \<open>\<open>None\<close>: not gated here, the guard decides.\<close>

definition gate_session :: "sched_context \<Rightarrow> bead_id \<Rightarrow> string \<Rightarrow> session_key \<Rightarrow> int \<Rightarrow> decision option act" where
  "gate_session c b profile key now =
     seq (look (\<lambda>j. (adoption_for (sc_ws c) b j, launches key j))) (\<lambda>(adoption, entries).
     case pc_accounts (sc_park c) of
       None \<Rightarrow> ret None
     | Some ac \<Rightarrow>
         if (case adoption of None \<Rightarrow> False | Some a \<Rightarrow> \<not> a_settled a) \<or>
            list_ex (\<lambda>e. le_dispatched_at e \<noteq> None \<and> le_outcome e = None) entries
         then ret None
         else seq (decide_at (sc_park c) ac profile key now {}) (\<lambda>v.
              ret (case v of Inl _ \<Rightarrow> None | Inr d \<Rightarrow> Some d)))"

definition refused_gate :: "decision option \<Rightarrow> decision option" where
  "refused_gate v = (case v of Some (Chosen _ _) \<Rightarrow> None | _ \<Rightarrow> v)"

definition gate_resume :: "sched_context \<Rightarrow> bead \<Rightarrow> int \<Rightarrow> decision option act" where
  "gate_resume c v now =
     (case bd_record v of
        RecordOf rec \<Rightarrow> seq (gate_session c (bd_id v) (sr_profile rec) (sr_session_key rec) now) (\<lambda>d. ret (refused_gate d))
      | _ \<Rightarrow> ret None)"

definition is_changed :: "decision option \<Rightarrow> bool" where
  "is_changed v = (case v of Some (AccountChanged _ _) \<Rightarrow> True | _ \<Rightarrow> False)"

definition gate_new :: "sched_context \<Rightarrow> bead \<Rightarrow> int \<Rightarrow> decision option act" where
  "gate_new c v now =
     seq (attempt (placed_record (sc_park c) v)) (\<lambda>r. case r of
       Inl (XConfigInvalid _) \<Rightarrow> ret None
     | Inl e \<Rightarrow> raise e
     | Inr rec \<Rightarrow>
         seq (gate_session c (bd_id v) (sr_profile rec) (sr_session_key rec) now) (\<lambda>verdict.
         seq (look (state (sc_ws c) (bd_id v))) (\<lambda>row.
         seq (if (case row of Some x \<Rightarrow> b_state x = STUCK \<and> b_reason x = Some ACCOUNT_REPOINTED | None \<Rightarrow> False) \<and>
                 \<not> is_changed verdict
              then adopt_bead c (bd_id v) DROPPED (Some CLAIM_ABANDONED) ''account restored'' else skip) (\<lambda>_.
         ret (refused_gate verdict)))))"

definition changed_detail :: "string \<Rightarrow> failover \<Rightarrow> string" where
  "changed_detail profile f =
     ''profile '' @ profile @ '' (failover = '' @ [CHR 0x22] @ (case f of FailoverNone \<Rightarrow> ''none'' | FailoverNext \<Rightarrow> ''next'') @
     [CHR 0x22] @ '') permits no account: the session'' @ [CHR 0x27] @
     ''s last launch used a credential key it can'' @ [CHR 0x27] @ ''t continue on now''"

section \<open>Reports of the sessions\<close>

definition handle_taint :: "sched_context \<Rightarrow> launch_entry \<Rightarrow> unit act" where
  "handle_taint c e =
     seq (query c pw_taint_current) (\<lambda>current.
     if current = Some False then skip
     else seq (look (state (sc_ws c) (le_bead e))) (\<lambda>row.
          seq (if (case row of Some x \<Rightarrow> b_state x \<in> {RUNNING, WAITING_INPUT} | None \<Rightarrow> False)
               then seq (park (sc_park c) (le_bead e) [] INSTALL_TAINTED True None) (\<lambda>_. skip) else skip) (\<lambda>_.
          perform (EAlert (le_bead e)))))"

definition handle_signal :: "sched_context \<Rightarrow> int \<Rightarrow> signal \<Rightarrow> unit act" where
  "handle_signal c now sig =
     seq (look (launch (fst (signal_launch sig)) (snd (signal_launch sig)))) (\<lambda>found.
     case found of
       None \<Rightarrow> skip
     | Some e \<Rightarrow>
         if le_ws e \<noteq> sc_ws c then skip
         else (case sig of
           InstallTainted key n a i \<Rightarrow> handle_taint c e
         | ExecDirCleared key n path detail \<Rightarrow>
             seq (jact (sc_park c) (\<lambda>ts j. Inr (emit_once ts (sc_ws c) (Some (le_bead e)) ''exec_dir_cleared'' (Plain detail)
               (''exec_dir_cleared:'' @ key @ '':'' @ show_int n @ '':'' @ path) j))) (\<lambda>_. skip)
         | UsageSeen key n obs \<Rightarrow>
             seq (park_capabilities (sc_park c) (pc_accounts (sc_park c)) (le_profile e)) (\<lambda>caps.
             if in_session_usage caps
             then each (\<lambda>x. seq (jact (sc_park c) (\<lambda>ts. ingest_untrusted (ident e) x now (pc_usage (sc_park c)))) (\<lambda>_. skip)) obs
             else skip)
         | LimitSeen key n hint \<Rightarrow>
             seq (park_capabilities (sc_park c) (pc_accounts (sc_park c)) (le_profile e)) (\<lambda>caps.
             if limit_signal caps then seq (limit_report (sc_park c) key n hint now) (\<lambda>_. skip) else skip)))"

text \<open>The reports left when one raised: every notice, and the newest limit reports.\<close>

definition kept_signals :: "signal list \<Rightarrow> signal list" where
  "kept_signals rest =
     filter (\<lambda>x. case x of InstallTainted _ _ _ _ \<Rightarrow> True | ExecDirCleared _ _ _ _ \<Rightarrow> True | _ \<Rightarrow> False) rest @
     (let limits = filter (\<lambda>x. case x of LimitSeen _ _ _ \<Rightarrow> True | _ \<Rightarrow> False) rest
      in drop (length limits - MAX_HELD) limits)"

primrec drain :: "sched_context \<Rightarrow> int \<Rightarrow> signal list \<Rightarrow> ((park_exn + unit) \<times> signal list) act" where
  "drain c now [] = ret (Inr (), [])"
| "drain c now (x # xs) = seq (attempt (handle_signal c now x)) (\<lambda>r. case r of
     Inl e \<Rightarrow> ret (Inl e, kept_signals (x # xs))
   | Inr _ \<Rightarrow> drain c now xs)"

definition signals :: "sched_context \<Rightarrow> int \<Rightarrow> signal list \<Rightarrow> ((park_exn + unit) \<times> signal list) act" where
  "signals c now kept =
     seq (query c pw_signals) (\<lambda>a. case a of
       Inl why \<Rightarrow> ret (Inl (XRuntimeUnavailable why), kept)
     | Inr new \<Rightarrow> drain c now (kept @ new))"

section \<open>Candidates\<close>

definition undeferrable :: "bead \<Rightarrow> bool" where
  "undeferrable v \<longleftrightarrow> labelled v L_DEFERRED \<and> \<not> labelled v L_HELD \<and> \<not> labelled v L_NEEDS_HUMAN \<and>
     (labelled v L_PARKED \<or> open_blockers v = [])"

text \<open>Beads whose current coder deferral is over.\<close>

definition over_beads :: "sched_context \<Rightarrow> int \<Rightarrow> journal \<Rightarrow> bead_id list" where
  "over_beads c now j =
     map (d_bead \<circ> snd) (filter (\<lambda>((key, n), d).
       (d_reason d = reason_value QUOTA \<and> (case epoch (d_defer_until d) of Some t \<Rightarrow> t \<le> now | None \<Rightarrow> False)) \<or>
       (d_reason d = reason_value ACCOUNT_CHANGED \<and> is_over key n j))
     (deferrals_current (sc_ws c) (pc_coder_role (sc_park c)) j))"

definition source_ok :: "sched_context \<Rightarrow> (bead_id \<times> bead_row) list \<Rightarrow> bead_id list \<Rightarrow> journal \<Rightarrow> bead \<Rightarrow> bool" where
  "source_ok c rows over j v \<longleftrightarrow> op_for (sc_ws c) (bd_id v) j = None \<and>
     (case map_of rows (bd_id v) of
        None \<Rightarrow> False
      | Some row \<Rightarrow> (b_state row \<in> RESUMABLE_ROWS \<and> resumable v) \<or>
                   (b_state row = DEFERRED \<and> bd_id v \<in> set over \<and> undeferrable v))"

definition source_one :: "sched_context \<Rightarrow> int \<Rightarrow> bead list act" where
  "source_one c now =
     seq (look (\<lambda>j. (states (sc_ws c) j, over_beads c now j))) (\<lambda>(rows, over).
     seq (queue c pw_ours) (\<lambda>ours.
     look (\<lambda>j. sort_key bd_id (filter (source_ok c rows over j) ours))))"

text \<open>One resumable bead: the guard's result, or \<open>None\<close> to go on, with a deadline it was skipped for.\<close>

definition resume_one :: "sched_context \<Rightarrow> string option \<Rightarrow> int \<Rightarrow> bead \<Rightarrow> (launch_result option \<times> int list) act" where
  "resume_one c ref now v =
     seq (look (state (sc_ws c) (bd_id v))) (\<lambda>row.
     if map_option b_state row = Some DEFERRED
     then seq (undefer (sc_park c) (bd_id v) ref) (\<lambda>l. ret (Some l, []))
     else seq (gate_resume c v now) (\<lambda>verdict.
          if map_option b_state row = Some PARKED \<and> verdict \<noteq> None
          then (let due = (case verdict of Some (Deadline t _) \<Rightarrow> Some t | _ \<Rightarrow> None) in
                seq (attempt (open_defer (sc_park c) (bd_id v)
                       (if due = None then reason_value ACCOUNT_CHANGED else reason_value QUOTA) due TRUSTED ref)) (\<lambda>r. case r of
                  Inl XNotDeferrable \<Rightarrow> seq (resume (sc_park c) (bd_id v) ref) (\<lambda>l. ret (Some l, []))
                | Inl e \<Rightarrow> raise e
                | Inr _ \<Rightarrow> ret (None, [])))
          else (case verdict of
                  Some (Deadline t _) \<Rightarrow> ret (None, [t])
                | _ \<Rightarrow> seq (resume (sc_park c) (bd_id v) ref) (\<lambda>l. ret (Some l, [])))))"

definition stalled :: "sched_context \<Rightarrow> pickup_outcome act" where
  "stalled c = look (\<lambda>j. if holds (sc_ws c) j \<noteq> [] then PuHeld else PuBusy)"

primrec resume_each :: "sched_context \<Rightarrow> string option \<Rightarrow> int \<Rightarrow> int list \<Rightarrow> bead list \<Rightarrow> (pickup_outcome option \<times> int list) act" where
  "resume_each c ref now ts [] = ret (None, ts)"
| "resume_each c ref now ts (v # vs) =
     seq (resume_one c ref now v) (\<lambda>(result, more).
     if result \<in> {Some GStarted, Some GLive} then ret (Some PuResumed, ts @ more)
     else if result \<in> {Some GWait, Some GUncertain} then seq (stalled c) (\<lambda>x. ret (Some x, ts @ more))
     else resume_each c ref now (ts @ more) vs)"

definition forget_unlisted :: "sched_context \<Rightarrow> bead_id list \<Rightarrow> unit act" where
  "forget_unlisted c listed =
     seq (look (states (sc_ws c))) (\<lambda>rows.
     each (\<lambda>(b, row).
       seq (look (op_for (sc_ws c) b)) (\<lambda>found.
       if b_state row = STUCK \<and> (case b_reason row of Some r \<Rightarrow> r \<in> UNLISTED | None \<Rightarrow> False) \<and> b \<notin> set listed \<and> found = None
       then adopt_bead c b DROPPED (Some CLAIM_ABANDONED) ''no longer ready'' else skip)) rows)"

definition unclaimable :: "sched_context \<Rightarrow> bead \<Rightarrow> string act" where
  "unclaimable c v =
     seq (queue c pw_claimable) (\<lambda>ok.
     ret (if \<not> ok then ''pinned to a btq session no per-bead worker has''
          else if labelled v L_PARKED \<or> labelled v L_HELD then ''unclaimed, but still labelled as parked by wsd''
          else []))"

section \<open>New work\<close>

definition finish_pickup :: "sched_context \<Rightarrow> op \<Rightarrow> OpStatus \<Rightarrow> BeadState \<Rightarrow> Reason option \<Rightarrow> string \<Rightarrow> unit act" where
  "finish_pickup c p status st reason detail = transaction (
     seq (end_op (sc_park c) p status) (\<lambda>_. set_bead (sc_park c) (op_bead p) st reason detail (ref_of p)))"

definition vanished :: "sched_context \<Rightarrow> op \<Rightarrow> unit act" where
  "vanished c p =
     seq (stop_sessions (sc_park c) (op_bead p)) (\<lambda>_.
     transaction (
       seq (end_op (sc_park c) p OP_ABANDONED) (\<lambda>_.
       seq (look (holds (sc_ws c))) (\<lambda>hs.
       seq (each (\<lambda>reason. if map_of hs reason = Some (op_bead p) then unhold_ws c reason else skip)
              [LAUNCH_UNCERTAIN, CLAIM_UNCERTAIN]) (\<lambda>_.
       adopt_bead c (op_bead p) DROPPED (Some CLAIM_LOST) ''the bead no longer exists'')))))"

text \<open>A pickup at its intent reads the claim back: the operation at \<^verbatim>\<open>claimed\<close>, or \<open>None\<close>.\<close>

definition resolve_claim :: "sched_context \<Rightarrow> op \<Rightarrow> BeadState \<times> Reason \<times> string \<Rightarrow> op option act" where
  "resolve_claim c p free =
     seq (attempt (read_claim (sc_park c))) (\<lambda>r. case r of
       Inl XBeadsUnavailable \<Rightarrow>
         seq (hold_ws (sc_park c) CLAIM_UNCERTAIN (op_bead p)) (\<lambda>_.
         seq (set_bead (sc_park c) (op_bead p) CLAIMING (Some CLAIM_UNCERTAIN) ''BeadsUnavailable'' None) (\<lambda>_. ret None))
     | Inl e \<Rightarrow> raise e
     | Inr who \<Rightarrow>
         if who = ClaimGone then seq (vanished c p) (\<lambda>_. ret None)
         else seq (unhold_ws c CLAIM_UNCERTAIN) (\<lambda>_.
              if who = ClaimFree
              then (case free of (st, reason, detail) \<Rightarrow> seq (finish_pickup c p OP_ABANDONED st (Some reason) detail) (\<lambda>_. ret None))
              else if who = ClaimOther
              then seq (finish_pickup c p OP_ABANDONED DROPPED (Some CLAIM_LOST) []) (\<lambda>_. ret None)
              else seq (step_op (sc_park c) p ''claimed'' []) (\<lambda>p. seq (cp (sc_park c)) (\<lambda>_. ret (Some p)))))"

definition STILL_FREE :: "BeadState \<times> Reason \<times> string" where "STILL_FREE = (DROPPED, CLAIM_ABANDONED, [])"

definition record_from :: "op \<Rightarrow> session_record act" where
  "record_from p =
     seq (data_item ''role'' p) (\<lambda>role.
     seq (data_item ''profile'' p) (\<lambda>profile.
     seq (data_item ''session_key'' p) (\<lambda>key.
     seq (data_item ''repo'' p) (\<lambda>repo.
     seq (data_item ''worktree'' p) (\<lambda>worktree.
     ret \<lparr>sr_role = role, sr_profile = profile, sr_session_key = key, sr_repo = repo, sr_worktree = worktree\<rparr>)))))"

text \<open>The steps of a pickup after its claim; \<open>Inl\<close> ends it.\<close>

definition place_claimed :: "sched_context \<Rightarrow> op \<Rightarrow> (launch_result + op) act" where
  "place_claimed c p =
     (if o_step (snd p) \<noteq> ''claimed'' then ret (Inr p)
      else if data_get ''role'' p \<noteq> Some (pc_coder_role (sc_park c))
      then seq (ended_with (sc_park c) p CONFIG_INVALID ''the coder role changed during the pickup'') (\<lambda>l. ret (Inl l))
      else seq (show_bead (sc_park c)) (\<lambda>v.
           seq (attempt (placed_record (sc_park c) v)) (\<lambda>r. case r of
             Inl (XConfigInvalid why) \<Rightarrow> seq (ended_with (sc_park c) p CONFIG_INVALID why) (\<lambda>l. ret (Inl l))
           | Inl e \<Rightarrow> raise e
           | Inr rec \<Rightarrow>
               seq (transaction (
                 seq (step_op (sc_park c) p ''placed'' [(''worktree'', sr_worktree rec), (''repo'', sr_repo rec),
                        (''profile'', sr_profile rec), (''session_key'', sr_session_key rec)]) (\<lambda>p.
                 seq (set_bead (sc_park c) (op_bead p) STARTING None [] None) (\<lambda>_. ret p)))) (\<lambda>p.
               seq (cp (sc_park c)) (\<lambda>_. ret (Inr p))))))"

definition make_worktree :: "sched_context \<Rightarrow> op \<Rightarrow> (launch_result + op) act" where
  "make_worktree c p =
     (if o_step (snd p) \<noteq> ''placed'' then ret (Inr p)
      else seq (data_item ''repo'' p) (\<lambda>repo.
           seq (perform (EWorktree (op_bead p))) (\<lambda>_.
           seq (query c pw_worktree) (\<lambda>a. case a of
             WorktreeNotOurs \<Rightarrow> seq (finish_pickup c p OP_ABANDONED STUCK (Some CLAIM_LOST) []) (\<lambda>_. ret (Inl GEnded))
           | WorktreeConflict why \<Rightarrow> seq (ended_with (sc_park c) p WORKTREE_FAILED why) (\<lambda>l. ret (Inl l))
           | WorktreeFails \<Rightarrow> raise XBeadsUnavailable
           | WorktreeMade \<Rightarrow>
               seq (cp (sc_park c)) (\<lambda>_.
               seq (step_op (sc_park c) p ''worktree'' []) (\<lambda>p. seq (cp (sc_park c)) (\<lambda>_. ret (Inr p))))))))"

definition start :: "sched_context \<Rightarrow> op \<Rightarrow> launch_result act" where
  "start c p =
     seq (place_claimed c p) (\<lambda>r. case r of
       Inl l \<Rightarrow> ret l
     | Inr p \<Rightarrow> seq (make_worktree c p) (\<lambda>r. case r of
         Inl l \<Rightarrow> ret l
       | Inr p \<Rightarrow> seq (record_from p) (\<lambda>rec. launch_guard (sc_park c) p (Some rec))))"

definition waits_claim :: "sched_context \<Rightarrow> launch_result act" where
  "waits_claim c = look (\<lambda>j. if CLAIM_UNCERTAIN \<in> fst ` set (holds (sc_ws c) j) then GWait else GEnded)"

definition replay_pickup :: "sched_context \<Rightarrow> op \<Rightarrow> launch_result act" where
  "replay_pickup c p =
     (if prefix ''defer.'' (o_step (snd p)) then seq (defer_tail (sc_park c) p) (\<lambda>_. ret GEnded)
      else if o_step (snd p) = ''quota'' then convert_quota (sc_park c) p
      else if o_step (snd p) = ''intent''
      then seq (resolve_claim c p STILL_FREE) (\<lambda>r. case r of None \<Rightarrow> waits_claim c | Some p \<Rightarrow> start c p)
      else start c p)"

text \<open>The claim gate's \<^verbatim>\<open>claim\<close>: \<open>None\<close> when paused.\<close>

definition claim_bead :: "sched_context \<Rightarrow> bead_id \<Rightarrow> claim_answer option act" where
  "claim_bead c b =
     seq (queue c pw_paused) (\<lambda>paused.
     if paused then ret None
     else seq (cp (sc_park c)) (\<lambda>_.
          seq (perform (EClaim b)) (\<lambda>_.
          seq (query c pw_claim) (\<lambda>a. ret (Some a)))))"

definition open_pickup :: "sched_context \<Rightarrow> bead_id \<Rightarrow> string option \<Rightarrow> op act" where
  "open_pickup c b ref = transaction (
     seq (look (state (sc_ws c) b)) (\<lambda>row.
     seq (if (case row of Some x \<Rightarrow> \<not> allowed (Some (b_state x)) CLAIMING | None \<Rightarrow> False)
          then adopt_bead c b DROPPED (Some CLAIM_LOST) ''returned to the queue'' else skip) (\<lambda>_.
     seq (open_op (sc_park c) PICKUP b [(''ref'', ref_text ref), (''role'', pc_coder_role (sc_park c))]) (\<lambda>p.
     seq (set_bead (sc_park c) b CLAIMING None [] ref) (\<lambda>_.
     seq (jwrite (sc_park c) (\<lambda>ts. crash_reset (sc_ws c) b)) (\<lambda>_. ret p))))))"

text \<open>\<open>None\<close>: the workstream was paused under the claim lock.\<close>

definition start_new :: "sched_context \<Rightarrow> bead_id \<Rightarrow> string option \<Rightarrow> launch_result option act" where
  "start_new c b ref =
     seq (open_pickup c b ref) (\<lambda>p.
     seq (cp (sc_park c)) (\<lambda>_.
     seq (claim_bead c b) (\<lambda>a. case a of
       None \<Rightarrow> seq (finish_pickup c p OP_ABANDONED DROPPED (Some CLAIM_ABANDONED) []) (\<lambda>_. ret None)
     | Some (ClaimRefused why) \<Rightarrow>
         seq (resolve_claim c p (STUCK, UNCLAIMABLE, why)) (\<lambda>r. case r of
           Some p \<Rightarrow> seq (start c p) (\<lambda>l. ret (Some l))
         | None \<Rightarrow> seq (waits_claim c) (\<lambda>l. ret (Some l)))
     | Some ClaimUnavailable \<Rightarrow> raise XBeadsUnavailable
     | Some ClaimRouting \<Rightarrow> seq (ended_with (sc_park c) p ROUTING_CHANGED []) (\<lambda>l. ret (Some l))
     | Some ClaimUncertain \<Rightarrow>
         seq (replay_pickup c p) (\<lambda>l.
         seq (look (state (sc_ws c) b)) (\<lambda>row.
         if (case row of Some x \<Rightarrow> b_state x = DROPPED \<and> b_reason x = Some CLAIM_ABANDONED | None \<Rightarrow> False)
         then raise XBeadsUnavailable else ret (Some l)))
     | Some Claimed \<Rightarrow>
         seq (cp (sc_park c)) (\<lambda>_.
         seq (step_op (sc_park c) p ''claimed'' []) (\<lambda>p.
         seq (cp (sc_park c)) (\<lambda>_. seq (start c p) (\<lambda>l. ret (Some l))))))))"

text \<open>One ready bead: an outcome, or \<open>None\<close> to go on, with whether it is stuck and a deadline it was skipped for.\<close>

definition new_one :: "sched_context \<Rightarrow> string option \<Rightarrow> int \<Rightarrow> bead \<Rightarrow> (pickup_outcome option \<times> bool \<times> int list) act" where
  "new_one c ref now v =
     seq (look (op_for (sc_ws c) (bd_id v))) (\<lambda>found.
     if found \<noteq> None then ret (None, False, [])
     else seq (unclaimable c v) (\<lambda>why.
          if why \<noteq> [] then seq (adopt_bead c (bd_id v) STUCK (Some UNCLAIMABLE) why) (\<lambda>_. ret (None, True, []))
          else seq (gate_new c v now) (\<lambda>verdict. case verdict of
            Some (Deadline t _) \<Rightarrow> ret (None, False, [t])
          | Some (AccountChanged profile f) \<Rightarrow>
              seq (adopt_bead c (bd_id v) STUCK (Some ACCOUNT_REPOINTED) (changed_detail profile f)) (\<lambda>_. ret (None, True, []))
          | _ \<Rightarrow>
              seq (start_new c (bd_id v) ref) (\<lambda>result.
              if result = None then ret (Some PuNothing, False, [])
              else if result \<in> {Some GStarted, Some GLive} then ret (Some PuStarted, False, [])
              else if result \<in> {Some GWait, Some GUncertain} then seq (stalled c) (\<lambda>x. ret (Some x, False, []))
              else seq (look (state (sc_ws c) (bd_id v))) (\<lambda>row.
                   ret (None, (case row of Some x \<Rightarrow> b_reason x = Some UNCLAIMABLE | None \<Rightarrow> False), []))))))"

primrec new_each :: "sched_context \<Rightarrow> string option \<Rightarrow> int \<Rightarrow> bool \<Rightarrow> int list \<Rightarrow> bead list \<Rightarrow> (pickup_outcome \<times> int list) act" where
  "new_each c ref now any ts [] = ret (if any then PuStuck else PuNothing, ts)"
| "new_each c ref now any ts (v # vs) =
     seq (new_one c ref now v) (\<lambda>(result, also_stuck, more). case result of
       Some x \<Rightarrow> ret (x, ts @ more)
     | None \<Rightarrow> new_each c ref now (any \<or> also_stuck) (ts @ more) vs)"

definition candidates :: "sched_context \<Rightarrow> string option \<Rightarrow> int \<Rightarrow> (pickup_outcome \<times> int list) act" where
  "candidates c ref now =
     seq (source_one c now) (\<lambda>vs.
     seq (resume_each c ref now [] vs) (\<lambda>(result, ts). case result of
       Some x \<Rightarrow> ret (x, ts)
     | None \<Rightarrow>
         seq (queue c pw_paused) (\<lambda>paused.
         if paused then ret (PuNothing, ts)
         else seq (queue c pw_ready) (\<lambda>ready.
              seq (forget_unlisted c (map bd_id ready)) (\<lambda>_. new_each c ref now False ts ready)))))"

section \<open>Pickup\<close>

definition replay_sched :: "sched_context \<Rightarrow> op \<Rightarrow> unit act" where
  "replay_sched c p =
     seq (attempt (if o_kind (snd p) = PICKUP then seq (replay_pickup c p) (\<lambda>_. skip) else replay (sc_park c) p)) (\<lambda>r. case r of
       Inl XBeadsUnavailable \<Rightarrow> seq (queue c pw_exists) (\<lambda>there. if there then raise XBeadsUnavailable else vanished c p)
     | r \<Rightarrow> reraise r)"

definition sweep_exception :: "sweep_exn \<Rightarrow> park_exn" where
  "sweep_exception e = (case e of BeadsUnavailable \<Rightarrow> XBeadsUnavailable | RuntimeUnavailable \<Rightarrow> XRuntimeUnavailable []
     | JournalRaised x \<Rightarrow> XJournal x)"

definition unswept :: "journal \<Rightarrow> sweep_state" where
  "unswept j = \<lparr>sw_journal = j, sw_resumes = [], sw_held = 0, sw_stopped = [], sw_unconfirmed = 0, sw_deferred = [], sw_labelled = []\<rparr>"

definition swept_effects :: "sweep_state \<Rightarrow> effect list" where
  "swept_effects w = map EStop (sw_stopped w) @ map (\<lambda>b. ELabel b L_NEEDS_HUMAN True) (sw_labelled w)"

text \<open>An action of the sweep as an action here, on one set of answers.\<close>

definition run_sweep :: "sched_context \<Rightarrow> bool \<Rightarrow> (sweep_context \<Rightarrow> sweep_action) \<Rightarrow> sweep_state act" where
  "run_sweep c deferring f =
     seq (query c pw_services) (\<lambda>sv.
     seq (query c pw_sweep_id) (\<lambda>ids.
     seq (ask (sc_park c) wd_now) (\<lambda>ts s.
       let cx = \<lparr>cx_services = sv, cx_ws = sc_ws c, cx_ts = ts, cx_new_id = ids, cx_defer = deferring\<rparr>;
           (w, raised) = f cx (unswept (pk_journal s));
           t = s\<lparr>pk_journal := sw_journal w, pk_effects := pk_effects s @ swept_effects w\<rparr>
       in case raised of None \<Rightarrow> (Inr w, t) | Some e \<Rightarrow> (Inl (sweep_exception e), t))))"

definition wait_times :: "sched_context \<Rightarrow> int \<Rightarrow> int list act" where
  "wait_times c now =
     seq (look (\<lambda>j. (states (sc_ws c) j, deferrals_current (sc_ws c) (pc_coder_role (sc_park c)) j))) (\<lambda>(rows, ds).
     seq (mapped (\<lambda>(k, d).
       seq (look (op_for (sc_ws c) (d_bead d))) (\<lambda>found. case epoch (d_defer_until d) of
         None \<Rightarrow> ret []
       | Some t \<Rightarrow>
           if d_reason d \<noteq> reason_value QUOTA \<or> t \<le> now \<or>
              (case map_of rows (d_bead d) of Some row \<Rightarrow> b_state row \<in> KEPT | None \<Rightarrow> False) \<or> found \<noteq> None
           then ret []
           else seq (show_bead (sc_park c)) (\<lambda>v.
                ret (if \<not> labelled v L_HELD \<and> \<not> labelled v L_NEEDS_HUMAN \<and> open_blockers v = [] then [t] else [])))) ds) (\<lambda>found.
     ret (concat found)))"

definition settle_actions :: "sched_context \<Rightarrow> string list \<Rightarrow> unit act" where
  "settle_actions c unresolved =
     (if unresolved \<noteq> [] then hold_ws (sc_park c) ACTIONS_UNRECONCILED (commas (sort unresolved))
      else unhold_ws c ACTIONS_UNRECONCILED)"

text \<open>The start of a pickup: \<open>None\<close> when the runtime did not answer and the workstream is held.\<close>

definition pickup_begin :: "sched_context \<Rightarrow> int option act" where
  "pickup_begin c =
     seq (ask (sc_park c) wd_clock) (\<lambda>now.
     seq (jact (sc_park c) (\<lambda>ts j. Inr (clamp_deadlines (clamp_bound now (pc_usage (sc_park c))) j))) (\<lambda>_.
     seq (cp (sc_park c)) (\<lambda>_.
     seq (attempt (
       seq (ask (sc_park c) wd_available) (\<lambda>up.
       if \<not> up then raise (XRuntimeUnavailable ''the runtime is not available'') else sessions (sc_park c)))) (\<lambda>r. case r of
         Inl (XRuntimeUnavailable why) \<Rightarrow> seq (hold_ws (sc_park c) RUNTIME_UNAVAILABLE why) (\<lambda>_. ret None)
       | Inl e \<Rightarrow> raise e
       | Inr _ \<Rightarrow>
           seq (unhold_ws c RUNTIME_UNAVAILABLE) (\<lambda>_.
           seq (queue c pw_unresolved) (\<lambda>unresolved.
           seq (unhold_ws c BEADS_UNREACHABLE) (\<lambda>_.
           seq (settle_actions c unresolved) (\<lambda>_. ret (Some now)))))))))"

definition expire :: "sched_context \<Rightarrow> unit act" where
  "expire c = seq (query c pw_expire) (\<lambda>a. case a of None \<Rightarrow> skip | Some why \<Rightarrow> raise (XRuntimeUnavailable why))"

text \<open>Sweep, replay and the session list: \<open>None\<close> when a hold is left.\<close>

definition reconcile_all :: "sched_context \<Rightarrow> rt_session list option act" where
  "reconcile_all c =
     seq (run_sweep c False sweep) (\<lambda>_.
     seq (look (ops_open (Some (sc_ws c)))) (\<lambda>ops.
     seq (each (replay_sched c) ops) (\<lambda>_.
     seq (look (holds (sc_ws c))) (\<lambda>hs.
     if hs \<noteq> [] then ret None else seq (sessions (sc_park c)) (\<lambda>ss. ret (Some ss))))))"

definition pickup_work :: "sched_context \<Rightarrow> string option \<Rightarrow> int \<Rightarrow> (pickup_outcome \<times> int option) act" where
  "pickup_work c ref now =
     seq (candidates c ref now) (\<lambda>(result, ts).
     if result \<notin> {PuNothing, PuStuck} then ret (result, None)
     else seq (wait_times c now) (\<lambda>more.
          let wake = wake_time (ts @ more) now in
          if result = PuStuck \<or> wake = None then ret (result, wake)
          else seq (attempt (sessions (sc_park c))) (\<lambda>r. case r of
                 Inl (XRuntimeUnavailable why) \<Rightarrow> seq (hold_ws (sc_park c) RUNTIME_UNAVAILABLE why) (\<lambda>_. ret (PuHeld, wake))
               | Inl e \<Rightarrow> raise e
               | Inr ss \<Rightarrow> if ss \<noteq> [] then seq (stalled c) (\<lambda>x. ret (x, wake)) else ret (PuDeferred, wake))))"

text \<open>The rest of a pickup once the reports are drained; the drain's own exception is the argument.\<close>

definition pickup_rest :: "sched_context \<Rightarrow> string option \<Rightarrow> int \<Rightarrow> park_exn + unit \<Rightarrow> (pickup_outcome \<times> int option) act" where
  "pickup_rest c ref now drained =
     seq (attempt (seq (reraise drained) (\<lambda>_. reconcile_all c))) (\<lambda>r. case r of
       Inl (XRuntimeUnavailable why) \<Rightarrow> seq (hold_ws (sc_park c) RUNTIME_UNAVAILABLE why) (\<lambda>_. ret (PuHeld, None))
     | Inl e \<Rightarrow> raise e
     | Inr None \<Rightarrow> ret (PuHeld, None)
     | Inr (Some (x # xs)) \<Rightarrow> ret (PuBusy, None)
     | Inr (Some []) \<Rightarrow> pickup_work c ref now)"

text \<open>\<^verbatim>\<open>_pickup\<close>, with the reports held for the next one whatever it raises.\<close>

definition pickup_pass :: "sched_context \<Rightarrow> string option \<Rightarrow> signal list \<Rightarrow>
    ((park_exn + (pickup_outcome \<times> int option)) \<times> signal list) act" where
  "pickup_pass c ref kept =
     seq (attempt (pickup_begin c)) (\<lambda>r. case r of
       Inl e \<Rightarrow> ret (Inl e, kept)
     | Inr None \<Rightarrow> ret (Inr (PuHeld, None), kept)
     | Inr (Some now) \<Rightarrow>
         seq (attempt (expire c)) (\<lambda>r.
         seq (case r of Inl e \<Rightarrow> ret (Inl e, kept) | Inr _ \<Rightarrow> signals c now kept) (\<lambda>(drained, kept).
         seq (attempt (pickup_rest c ref now drained)) (\<lambda>r. ret (r, kept)))))"

definition publish :: "sched_context \<Rightarrow> int option \<Rightarrow> unit act" where
  "publish c wake =
     seq (query c pw_paused) (\<lambda>a.
     seq (look (\<lambda>j. ws_state (a \<noteq> Some False) (map fst (holds (sc_ws c) j))
            (map (b_state \<circ> snd) (filter (\<lambda>(b, row). b_state row \<notin> TERMINAL) (states (sc_ws c) j))) (wake \<noteq> None))) (\<lambda>st.
     jwrite (sc_park c) (\<lambda>ts. set_ws_state ts (sc_ws c) st)))"

definition pickup :: "sched_context \<Rightarrow> string option \<Rightarrow> signal list \<Rightarrow>
    ((park_exn + pickup_outcome) \<times> int option \<times> signal list) act" where
  "pickup c ref kept =
     seq (pickup_pass c ref kept) (\<lambda>(r, kept). case r of
       Inl XBeadsUnavailable \<Rightarrow>
         seq (hold_ws (sc_park c) BEADS_UNREACHABLE ''BeadsUnavailable'') (\<lambda>_.
         seq (publish c None) (\<lambda>_. ret (Inr PuHeld, None, kept)))
     | Inl e \<Rightarrow> ret (Inl e, None, kept)
     | Inr (x, wake) \<Rightarrow> seq (publish c wake) (\<lambda>_. ret (Inr x, wake, kept)))"

section \<open>Re-gating and converted rows\<close>

definition regate_all :: "sched_context \<Rightarrow> (nat \<times> nat \<times> nat) act" where
  "regate_all c =
     seq (look (states (sc_ws c))) (\<lambda>rows.
     seq (mapped (\<lambda>(b, row). regate (sc_park c) b None)
       (filter (\<lambda>(b, row). b_state row = DEFERRED \<and> b_reason row = Some ACCOUNT_CHANGED) rows)) (\<lambda>rs.
     ret (count_list rs RegatedOver, count_list rs RegatedQuota, count_list rs RegatedUnchanged)))"

definition convert_row :: "sched_context \<Rightarrow> int \<Rightarrow> bead \<Rightarrow> bool act" where
  "convert_row c now v =
     seq (look (\<lambda>j. (state (sc_ws c) (bd_id v) j, op_for (sc_ws c) (bd_id v) j))) (\<lambda>(row, found).
     if (case row of None \<Rightarrow> True | Some x \<Rightarrow> \<not> (b_state x = PARKED \<and> b_reason x = Some QUOTA)) \<or> found \<noteq> None \<or> \<not> resumable v
     then ret False
     else seq (gate_resume c v now) (\<lambda>verdict. case verdict of
       None \<Rightarrow> seq (adopt_bead c (bd_id v) (parked_state v) (Some (parked_reason (parked_state v))) (blocker_detail v)) (\<lambda>_. ret True)
     | Some d \<Rightarrow>
         (let due = (case d of Deadline t _ \<Rightarrow> Some t | _ \<Rightarrow> None) in
          seq (attempt (open_defer (sc_park c) (bd_id v)
                 (if due = None then reason_value ACCOUNT_CHANGED else reason_value QUOTA) due TRUSTED None)) (\<lambda>r. case r of
            Inl XNotDeferrable \<Rightarrow> ret False
          | Inl e \<Rightarrow> raise e
          | Inr _ \<Rightarrow> ret True))))"

definition convert_quota_rows :: "sched_context \<Rightarrow> nat act" where
  "convert_quota_rows c =
     seq (ask (sc_park c) wd_clock) (\<lambda>now.
     seq (queue c pw_ours) (\<lambda>ours.
     seq (mapped (convert_row c now) (sort_key bd_id ours)) (\<lambda>converted. ret (length (filter id converted)))))"

end
