(* ===== verification/Recovery.thy ===== *)
theory Recovery
  imports Scheduler
begin

text \<open>
  Startup recovery of one workstream (\<^verbatim>\<open>wsd/recovery.py\<close>): read beads and sessions, hold for unsettled actions,
  replay the operations that never launch, settle uncertain holds no operation is left to settle, settle
  adoptions, convert old quota rows, sweep, and open the resumes the sweep found. Any step that cannot read
  what it needs fails the whole recovery with the matching hold.
\<close>

record recovered =
  rv_ok :: bool
  rv_replayed :: nat
  rv_resumes :: nat
  rv_held :: nat
  rv_stopped :: nat

definition defers :: "op \<Rightarrow> bool" where
  "defers p \<longleftrightarrow> o_kind (snd p) \<in> {PICKUP, RESUME} \<and> (prefix ''defer.'' (o_step (snd p)) \<or> o_step (snd p) = ''quota'')"

definition still_open :: "sched_context \<Rightarrow> op \<Rightarrow> journal \<Rightarrow> bool" where
  "still_open c p j = (case op_for (sc_ws c) (op_bead p) j of None \<Rightarrow> False | Some q \<Rightarrow> fst q = fst p)"

definition stop_unconfirmed :: "sched_context \<Rightarrow> op \<Rightarrow> journal \<Rightarrow> bool" where
  "stop_unconfirmed c p j \<longleftrightarrow> still_open c p j \<and>
     (case state (sc_ws c) (op_bead p) j of None \<Rightarrow> True | Some row \<Rightarrow> b_reason row = Some STOP_UNCONFIRMED)"

text \<open>One open operation: whether it was replayed.\<close>

definition recover_op :: "sched_context \<Rightarrow> bead_id list \<Rightarrow> op \<Rightarrow> bool act" where
  "recover_op c adopting p =
     (if o_kind (snd p) = ESCALATE \<and> op_bead p \<in> set adopting then ret False
      else if o_kind (snd p) = PICKUP \<and> o_step (snd p) = ''intent''
      then seq (resolve_claim c p STILL_FREE) (\<lambda>r.
           seq (look (still_open c p)) (\<lambda>open.
           if r = None \<and> open then raise XBeadsUnavailable else ret True))
      else if o_kind (snd p) \<in> {PARK, RELEASE, ESCALATE} \<or> defers p
      then seq (replay_sched c p) (\<lambda>_.
           seq (look (stop_unconfirmed c p)) (\<lambda>u.
           if u then raise (XRuntimeUnavailable ''a stop was not confirmed'') else ret True))
      else ret False)"

definition settle_orphans :: "sched_context \<Rightarrow> unit act" where
  "settle_orphans c =
     seq (look (holds (sc_ws c))) (\<lambda>hs.
     each (\<lambda>reason. case map_of hs reason of
         None \<Rightarrow> skip
       | Some b \<Rightarrow> seq (look (op_for (sc_ws c) b)) (\<lambda>found. if found = None then unhold_ws c reason else skip))
       [LAUNCH_UNCERTAIN, CLAIM_UNCERTAIN])"

definition settle_adoption_row :: "sched_context \<Rightarrow> bead_id \<Rightarrow> unit act" where
  "settle_adoption_row c b =
     seq (jwrite (sc_park c) (\<lambda>ts. adoption_settle (sc_ws c) b)) (\<lambda>_. cp (sc_park c))"

definition escalate_adoption :: "sched_context \<Rightarrow> bead_id \<Rightarrow> string \<Rightarrow> unit act" where
  "escalate_adoption c b detail =
     seq (transaction (
       seq (escalation_for (sc_park c) b UNEXPECTED_STATE detail) (\<lambda>esc.
       seq (jwrite (sc_park c) (\<lambda>ts. adoption_settle (sc_ws c) b)) (\<lambda>_. ret esc)))) (\<lambda>esc.
     seq (cp (sc_park c)) (\<lambda>_. replay_escalation (sc_park c) esc))"

definition settle_adoption :: "sched_context \<Rightarrow> bead_id \<times> adoption \<Rightarrow> unit act" where
  "settle_adoption c entry =
     (case entry of (b, a) \<Rightarrow>
        if a_verdict a \<noteq> ''adopted'' then escalate_adoption c b (a_detail a)
        else seq (look (launch (case a_session_key a of None \<Rightarrow> [] | Some k \<Rightarrow> k) 1)) (\<lambda>found. case found of
          None \<Rightarrow> escalate_adoption c b ''the adopted entry is missing from the journal''
        | Some e \<Rightarrow>
            seq (attempt (ensure_launch (sc_park c) e)) (\<lambda>r. case r of
              Inl XNotOurs \<Rightarrow> settle_adoption_row c b
            | Inl XLaunchConflict \<Rightarrow> raise XBeadsUnavailable
            | Inl XLaunchesUnreadable \<Rightarrow> raise XBeadsUnavailable
            | Inl ex \<Rightarrow> raise ex
            | Inr _ \<Rightarrow> seq (cp (sc_park c)) (\<lambda>_. settle_adoption_row c b))))"

definition adopting_beads :: "sched_context \<Rightarrow> journal \<Rightarrow> bead_id list" where
  "adopting_beads c j = map fst (filter (\<lambda>(b, a). a_verdict a = ''held'') (adoptions_unsettled (sc_ws c) j))"

text \<open>Steps 2 to 4a.\<close>

definition recover_journals :: "sched_context \<Rightarrow> nat act" where
  "recover_journals c =
     seq (queue c pw_ours) (\<lambda>_.
     seq (sessions (sc_park c)) (\<lambda>_.
     seq (cp (sc_park c)) (\<lambda>_.
     seq (queue c pw_unresolved) (\<lambda>unresolved.
     seq (settle_actions c unresolved) (\<lambda>_.
     seq (cp (sc_park c)) (\<lambda>_.
     seq (look (\<lambda>j. (adopting_beads c j, ops_open (Some (sc_ws c)) j))) (\<lambda>(adopting, ops).
     seq (mapped (recover_op c adopting) ops) (\<lambda>replayed.
     seq (settle_orphans c) (\<lambda>_.
     seq (look (adoptions_unsettled (sc_ws c))) (\<lambda>as.
     seq (each (settle_adoption c) as) (\<lambda>_.
     seq (cp (sc_park c)) (\<lambda>_. ret (length (filter id replayed))))))))))))))"

definition run_recovery :: "sched_context \<Rightarrow> recovered act" where
  "run_recovery c =
     seq (recover_journals c) (\<lambda>replayed.
     seq (convert_quota_rows c) (\<lambda>_.
     seq (run_sweep c True sweep) (\<lambda>swept.
     if sw_unconfirmed swept > 0 then raise (XRuntimeUnavailable ''a stop was not confirmed'')
     else seq (run_sweep c True (\<lambda>cx. open_resumes cx (sw_deferred swept))) (\<lambda>_.
          seq (cp (sc_park c)) (\<lambda>_.
          ret \<lparr>rv_ok = True, rv_replayed = replayed, rv_resumes = length (sw_deferred swept), rv_held = sw_held swept,
               rv_stopped = length (sw_stopped swept)\<rparr>)))))"

definition failed_recovery :: recovered where
  "failed_recovery = \<lparr>rv_ok = False, rv_replayed = 0, rv_resumes = 0, rv_held = 0, rv_stopped = 0\<rparr>"

definition recover :: "sched_context \<Rightarrow> int option \<Rightarrow> recovered act" where
  "recover c wake =
     seq (attempt (run_recovery c)) (\<lambda>r.
     seq (case r of
            Inl XBeadsUnavailable \<Rightarrow> seq (hold_ws (sc_park c) BEADS_UNREACHABLE ''BeadsUnavailable'') (\<lambda>_. ret failed_recovery)
          | Inl (XRuntimeUnavailable why) \<Rightarrow> seq (hold_ws (sc_park c) RUNTIME_UNAVAILABLE why) (\<lambda>_. ret failed_recovery)
          | Inl e \<Rightarrow> raise e
          | Inr done_all \<Rightarrow> seq (unhold_ws c BEADS_UNREACHABLE) (\<lambda>_. ret done_all)) (\<lambda>result.
     seq (publish c wake) (\<lambda>_. ret result)))"

end
