(* ===== verification/Park_Rules.thy ===== *)
theory Park_Rules
  imports Release Journal_Props
begin

text \<open>
  Rules for the parker's actions. A relation between the state before and after that every primitive keeps
  is kept by every operation built from them; the two locales state what is asked of the relation, and
  their lemmas walk the operations once. \<open>calm\<close> is the main instance: the journal moves only by its own
  methods and no session is launched. It holds of every operation but the dispatch.
\<close>

named_theorems keeps_rules \<open>an action stays in a relation\<close>

section \<open>Relations kept by actions\<close>

definition keeps :: "(park_state \<Rightarrow> park_state \<Rightarrow> bool) \<Rightarrow> 'a act \<Rightarrow> bool" where
  "keeps R f \<longleftrightarrow> (\<forall>s. R s (snd (f s)))"

lemma keepsD: "keeps R f \<Longrightarrow> f s = (r, s') \<Longrightarrow> R s s'"
  by (metis keeps_def snd_conv)

text \<open>A sequence stays in \<open>Q\<close> when one part does and the other stays in a relation that composes with it.\<close>

lemma keeps_before:
  assumes "\<And>s t u. R s t \<Longrightarrow> Q t u \<Longrightarrow> Q s u" and "\<And>s t. R s t \<Longrightarrow> Q s t"
    and "keeps R f" and "\<And>x. keeps Q (g x)"
  shows "keeps Q (seq f g)"
  unfolding keeps_def
proof
  fix s
  obtain r t where r: "f s = (r, t)" by force
  have c: "R s t" by (rule keepsD [OF assms(3) r])
  show "Q s (snd (seq f g s))"
    using c assms(1,2) assms(4) unfolding keeps_def by (cases r) (auto simp: seq_def r)
qed

lemma keeps_after:
  assumes "\<And>s t u. Q s t \<Longrightarrow> R t u \<Longrightarrow> Q s u" and "keeps Q f" and "\<And>x. keeps R (g x)"
  shows "keeps Q (seq f g)"
  unfolding keeps_def
proof
  fix s
  obtain r t where r: "f s = (r, t)" by force
  have c: "Q s t" by (rule keepsD [OF assms(2) r])
  show "Q s (snd (seq f g s))"
    using c assms(1) assms(3) unfolding keeps_def by (cases r) (auto simp: seq_def r)
qed

lemma keeps_try: "keeps R f \<Longrightarrow> keeps R (attempt f)"
  by (simp add: keeps_def attempt_def split_beta)

lemma keeps_cases [keeps_rules]:
  "(b \<Longrightarrow> keeps R f) \<Longrightarrow> (\<not> b \<Longrightarrow> keeps R g) \<Longrightarrow> keeps R (if b then f else g)"
  "keeps R f \<Longrightarrow> (\<And>y. keeps R (g' y)) \<Longrightarrow> keeps R (case_option f g' x)"
  "(\<And>y. keeps R (h y)) \<Longrightarrow> (\<And>y. keeps R (h' y)) \<Longrightarrow> keeps R (case_sum h h' z)"
  "(\<And>a b. keeps R (k a b)) \<Longrightarrow> keeps R (case_prod k w)"
  "keeps R (l t) \<Longrightarrow> keeps R (Let t l)"
  by (auto simp: Let_def split: option.splits sum.splits prod.splits)

lemma keeps_exn [keeps_rules]:
  assumes "keeps R a1" "\<And>x. keeps R (a2 x)" "keeps R a3" "keeps R a4" "keeps R a5" "keeps R a6" "\<And>x. keeps R (a7 x)"
    "keeps R a8" "keeps R a9" "\<And>x. keeps R (a10 x)" "\<And>x. keeps R (a11 x)" "\<And>x. keeps R (a12 x)" "keeps R a13" "keeps R a14"
    "keeps R a15" "keeps R a16" "keeps R a17"
  shows "keeps R (case_park_exn a1 a2 a3 a4 a5 a6 a7 a8 a9 a10 a11 a12 a13 a14 a15 a16 a17 e)"
  using assms by (cases e) simp_all

lemma keeps_answers [keeps_rules]:
  "keeps R f1 \<Longrightarrow> keeps R f2 \<Longrightarrow> keeps R f3 \<Longrightarrow> keeps R (case_owned_answer f1 f2 f3 a)"
  "(\<And>b. keeps R (g1 b)) \<Longrightarrow> keeps R f1 \<Longrightarrow> keeps R f2 \<Longrightarrow> keeps R f3 \<Longrightarrow> keeps R (case_validate_answer g1 f1 f2 f3 v)"
  "keeps R f1 \<Longrightarrow> keeps R f2 \<Longrightarrow> keeps R f3 \<Longrightarrow> keeps R f4 \<Longrightarrow> keeps R f5 \<Longrightarrow> (\<And>x. keeps R (h x)) \<Longrightarrow>
     keeps R (case_journal_error f1 f2 f3 f4 f5 h je)"
  "keeps R f1 \<Longrightarrow> keeps R f2 \<Longrightarrow> (\<And>x. keeps R (k x)) \<Longrightarrow> keeps R (case_bead_record f1 f2 k br)"
  "(\<And>x y. keeps R (d1 x y)) \<Longrightarrow> (\<And>x y. keeps R (d2 x y)) \<Longrightarrow> (\<And>x y. keeps R (d3 x y)) \<Longrightarrow> keeps R (case_decision d1 d2 d3 de)"
  "keeps R f1 \<Longrightarrow> keeps R f2 \<Longrightarrow> keeps R f3 \<Longrightarrow> keeps R f4 \<Longrightarrow> keeps R f5 \<Longrightarrow> keeps R (case_OpKind f1 f2 f3 f4 f5 ok)"
  "keeps R f1 \<Longrightarrow> (\<And>x. keeps R (r1 x)) \<Longrightarrow> (\<And>x. keeps R (r2 x)) \<Longrightarrow> keeps R f2 \<Longrightarrow> keeps R f3 \<Longrightarrow>
     keeps R (case_regate_verdict f1 r1 r2 f2 f3 rv)"
  "keeps R f1 \<Longrightarrow> (\<And>x xs. keeps R (l x xs)) \<Longrightarrow> keeps R (case_list f1 l xs)"
  by (simp_all split: owned_answer.split validate_answer.split journal_error.split bead_record.split decision.split
      OpKind.split regate_verdict.split list.split)

text \<open>The effects that start work: a launch and a claim. Each has a rule of its own.\<close>

fun is_start :: "effect \<Rightarrow> bool" where
  "is_start (ELaunch sp) = True"
| "is_start (EClaim b) = True"
| "is_start e = False"

locale effect_relation =
  fixes R :: "park_state \<Rightarrow> park_state \<Rightarrow> bool"
  assumes R_refl: "R s s"
    and R_trans: "R s t \<Longrightarrow> R t u \<Longrightarrow> R s u"
    and R_tick: "pk_tick s \<le> n \<Longrightarrow> R s (s\<lparr>pk_tick := n\<rparr>)"
    and R_effect: "\<not> is_start e \<Longrightarrow> R s (s\<lparr>pk_effects := pk_effects s @ [e]\<rparr>)"
begin

lemma keeps_ret [keeps_rules]: "keeps R (ret x)" "keeps R skip" "keeps R (raise e)" "keeps R (look f)"
  by (simp_all add: keeps_def ret_def skip_def raise_def look_def R_refl)

lemma keeps_seq [keeps_rules]: "keeps R f \<Longrightarrow> (\<And>x. keeps R (g x)) \<Longrightarrow> keeps R (seq f g)"
  unfolding keeps_def seq_def
proof
  fix s
  assume f: "\<forall>s. R s (snd (f s))" and g: "\<And>x. \<forall>s. R s (snd (g x s))"
  obtain r t where r: "f s = (r, t)" by force
  with f have "R s t" by (metis snd_conv)
  then show "R s (snd (case f s of (Inl e, s') \<Rightarrow> (Inl e, s') | (Inr x, s') \<Rightarrow> g x s'))"
    using g R_trans by (cases r) (auto simp: r)
qed

lemmas keeps_attempt [keeps_rules] = keeps_try [of R]

lemma keeps_reraise [keeps_rules]: "keeps R (reraise r)"
  by (cases r) (simp_all add: reraise_def keeps_rules keeps_ret)

lemma keeps_ask [keeps_rules]: "keeps R (ask c f)"
  by (simp add: keeps_def ask_def R_tick)

lemma keeps_perform: "\<not> is_start e \<Longrightarrow> keeps R (perform e)"
  by (simp add: keeps_def perform_def R_effect)

lemma keeps_each [keeps_rules]: "(\<And>x. keeps R (f x)) \<Longrightarrow> keeps R (each f xs)"
  by (induction xs) (simp_all add: keeps_ret keeps_seq)

lemma keeps_mapped [keeps_rules]: "(\<And>x. keeps R (f x)) \<Longrightarrow> keeps R (mapped f xs)"
  by (induction xs) (simp_all add: keeps_ret keeps_seq)

lemma keeps_cp [keeps_rules]: "keeps R (cp c)"
  unfolding cp_def by (intro keeps_rules)

lemma keeps_bd [keeps_rules]: "\<not> is_start e \<Longrightarrow> keeps R (bd c e)" "\<not> is_start e \<Longrightarrow> keeps R (write_bead c e)"
    "keeps R (owned c)" "keeps R (show_bead c)"
  unfolding bd_def write_bead_def owned_def show_bead_def
  by (intro keeps_rules keeps_perform | assumption)+

lemma keeps_ensure [keeps_rules]:
  "keeps R (ensure_label c b l present)" "keeps R (ensure_blocker c b x)" "keeps R (bead_comments c)"
  "keeps R (ensure_comment c b m t)" "keeps R (record_of v)" "keeps R (launches_on c v)"
  "keeps R (ensure_record c b r u)" "keeps R (ensure_launch c e)" "keeps R (validate c)" "keeps R (read_claim c)"
  "keeps R (verify_worktree c rec)"
  unfolding ensure_label_def ensure_blocker_def bead_comments_def ensure_comment_def record_of_def launches_on_def
    ensure_record_def ensure_launch_def validate_def read_claim_def verify_worktree_def
  by (intro keeps_rules | simp)+

lemma keeps_runtime [keeps_rules]:
  "keeps R (sessions c)" "keeps R (sessions_of_bead c b)" "keeps R (stop c key)" "keeps R (wip_commit c b key)"
  "keeps R (stop_sessions c b)" "keeps R (bead_write c e)"
  unfolding sessions_def sessions_of_bead_def stop_def wip_commit_def stop_sessions_def bead_write_def
  by (intro keeps_rules keeps_perform | simp)+

lemma keeps_reads [keeps_rules]:
  "keeps R (int_of tx)" "keeps R (data_item k p)" "keeps R (data_int k p)" "keeps R (row_state c b)"
  "keeps R (quota_detail t)" "keeps R (defer_comment key n d)" "keeps R (deferred_reason d)"
  "keeps R (decide_at c ac pr key now ex)" "keeps R (park_capabilities c aco pr)" "keeps R (trusted_read_of c eo)"
  "keeps R (pinned_entry p rec)" "keeps R (pin_holds c p ac rec e)" "keeps R (end_evidence c key)"
  "keeps R (deferral_of v)" "keeps R (regate_verdict_of c key d)" "keeps R (placed_record c v)"
  "keeps R (record_for_release c v)" "keeps R (reverify c p v)" "keeps R (write_adopted c p)"
  unfolding int_of_def data_item_def data_int_def row_state_def quota_detail_def defer_comment_def deferred_reason_def
    decide_at_def park_capabilities_def trusted_read_of_def pinned_entry_def pin_holds_def end_evidence_def deferral_of_def
    regate_verdict_of_def placed_record_def record_for_release_def reverify_def write_adopted_def
  by (intro keeps_rules | simp)+

end

text \<open>What a journal call does, when it returns.\<close>

definition moves :: "(timestamp \<Rightarrow> journal \<Rightarrow> journal_error + 'a \<times> journal) \<Rightarrow> bool" where
  "moves f \<longleftrightarrow> (\<forall>ts j x j'. f ts j = Inr (x, j') \<longrightarrow> jstep\<^sup>*\<^sup>* j j')"

named_theorems moves_rules \<open>journal calls move the journal by its own steps\<close>

lemma movesI: "(\<And>ts j x j'. f ts j = Inr (x, j') \<Longrightarrow> jstep j j') \<Longrightarrow> moves f"
  unfolding moves_def by blast

lemma moves_op [moves_rules]:
  "moves (\<lambda>ts. op_open ts i k w b d)" "moves (\<lambda>ts. op_step ts i st d)" "moves (\<lambda>ts. op_forget ts i ks)"
  "moves (\<lambda>ts. op_failed ts i)"
  by (rule movesI, erule s_op_open, rule movesI, erule s_op_step, rule movesI, erule s_op_forget, rule movesI,
      erule s_op_failed)

lemma moves_launch [moves_rules]:
  "moves (\<lambda>ts. launch_set key gen name v)" "moves (\<lambda>ts. crash_account w b e klass)"
  by (rule movesI, erule s_launch_set, rule movesI, erule s_crash_account)

lemma moves_try:
  assumes "\<And>ts j j'. f ts j = Inr j' \<Longrightarrow> jstep j j'"
  shows "moves (\<lambda>ts j. bind_result (f ts j) (\<lambda>j'. Inr ((), j')))"
  using assms by (intro movesI) (auto simp: bind_result_eq_Inr)

lemma moves_write:
  assumes "\<And>ts j. jstep j (f ts j)"
  shows "moves (\<lambda>ts j. Inr ((), f ts j))"
  using assms by (intro movesI) auto

lemma moves_usage [moves_rules]:
  "moves (\<lambda>ts. ingest_trusted key obs now us)" "moves (\<lambda>ts. mark_exhausted key h now us)"
proof -
  have two: "jstep\<^sup>*\<^sup>* j j'" if "jstep j k" "jstep k j'" for j k j' :: journal
    using that by (meson r_into_rtranclp rtranclp_trans)
  show "moves (\<lambda>ts. ingest_trusted key obs now us)"
    by (auto simp: moves_def ingest_trusted_def bind_result_eq_Inr split: sum.splits
        intro: two [OF s_usage_seq s_usage_trusted [OF refl]])
  show "moves (\<lambda>ts. mark_exhausted key h now us)"
    by (auto simp: moves_def mark_exhausted_def bind_result_eq_Inr intro: two [OF s_usage_seq s_exhausted [OF refl]])
qed

lemma moves_emit [moves_rules]:
  "moves (\<lambda>ts j. Inr ((), snd (emit ts w b k d r j)))" "moves (\<lambda>ts j. Inr (mark_over now key n j))"
  by (rule movesI, auto intro: s_emit [OF surjective_pairing], rule movesI, auto intro: s_mark_over)

locale action_relation = effect_relation +
  assumes R_journal: "jstep\<^sup>*\<^sup>* (pk_journal s) j \<Longrightarrow> R s (s\<lparr>pk_journal := j\<rparr>)"
    and R_rollback: "R s t \<Longrightarrow> R s (t\<lparr>pk_journal := pk_journal s\<rparr>)"
begin

lemma keeps_jact [keeps_rules]: "moves f \<Longrightarrow> keeps R (jact c f)"
  unfolding jact_def
  by (rule keeps_seq [OF keeps_ask])
    (auto simp: keeps_def moves_def R_refl intro: R_journal split: sum.splits prod.splits)

lemma keeps_transaction [keeps_rules]: "keeps R f \<Longrightarrow> keeps R (transaction f)"
  unfolding keeps_def transaction_def
proof
  fix s
  assume "\<forall>s. R s (snd (f s))"
  then have "R s (snd (f s))" ..
  then show "R s (snd (case f s of (Inl e, s') \<Rightarrow> (Inl e, s'\<lparr>pk_journal := pk_journal s\<rparr>) | (Inr x, s') \<Rightarrow> (Inr x, s')))"
    using R_rollback by (auto split: prod.splits sum.splits)
qed

lemma keeps_jtry [keeps_rules]: "(\<And>ts j j'. f ts j = Inr j' \<Longrightarrow> jstep j j') \<Longrightarrow> keeps R (jtry c f)"
  unfolding jtry_def by (intro keeps_jact moves_try)

lemma keeps_jwrite [keeps_rules]: "(\<And>ts j. jstep j (f ts j)) \<Longrightarrow> keeps R (jwrite c f)"
  unfolding jwrite_def by (intro keeps_jact moves_write)

lemmas journal_rules = moves_rules s_op_finish s_set_state s_deferral_insert s_launch_insert s_receipt_put
  s_adoption_resolve s_hold [OF refl] s_unhold [OF refl] s_adopt [OF refl] s_drop_over [OF refl] s_crash_reset [OF refl]

lemma keeps_op [keeps_rules]:
  "keeps R (open_op c k b d)" "keeps R (step_op c p st d)" "keeps R (forget_op c p ks)" "keeps R (end_op c p os)"
  "keeps R (set_bead c b bs re dt rf)" "keeps R (hold_ws c rs dt)" "keeps R (settle_hold c b)"
  unfolding open_op_def step_op_def forget_op_def end_op_def set_bead_def hold_ws_def settle_hold_def
  by (intro keeps_rules journal_rules | assumption)+

lemma keeps_finish [keeps_rules]:
  "keeps R (finish c p os st)" "keeps R (finish_parked c p os v)" "keeps R (claim_lost c p)" "keeps R (runtime_hold c p rs why)"
  "keeps R (stuck c p rs why)" "keeps R (replay_escalation c p)" "keeps R (hand_off c p)" "keeps R (escalate_from c p rs why)"
  unfolding finish_def finish_parked_def claim_lost_def runtime_hold_def stuck_def replay_escalation_def hand_off_def
    escalate_from_def
  by (intro keeps_rules journal_rules | assumption)+

lemma keeps_escalation [keeps_rules]:
  "keeps R (spend c p lm rs why ks)" "keeps R (open_escalation_op c b rs why)" "keeps R (escalate_bead c b rs why)"
  "keeps R (escalation_for c b rs why)"
  unfolding spend_def open_escalation_op_def escalate_bead_def escalation_for_def by (intro keeps_rules journal_rules | assumption)+

lemma keeps_at_step [keeps_rules]: "(\<And>p. keeps R (f p)) \<Longrightarrow> keeps R (at_step st f p)"
  unfolding at_step_def by (intro keeps_rules journal_rules)

lemma keeps_park_steps [keeps_rules]:
  "keeps R (stepped c p st d)" "keeps R (park_stop c p)" "keeps R (commit_wip c p key)" "keeps R (park_block c p)"
  "keeps R (park_label c p)" "keeps R (park_finish c p)" "keeps R (park_steps c p)"
  unfolding stepped_def park_stop_def commit_wip_def park_block_def park_label_def park_finish_def park_steps_def
  by (intro keeps_rules journal_rules | assumption)+

lemma keeps_park [keeps_rules]:
  "keeps R (park_except c p r)" "keeps R (replay_park c p)" "keeps R (park c b bs why held rf)"
  unfolding park_except_def replay_park_def park_def by (intro keeps_rules journal_rules | assumption)+

lemma keeps_defer_record [keeps_rules]:
  "keeps R (insert_deferral c b who why t tr)" "keeps R (record_defer c p who why t tr)"
  "keeps R (supersede_deferral c p key n d ac e rd)" "keeps R (confirm_limit c p)"
  unfolding insert_deferral_def record_defer_def supersede_deferral_def confirm_limit_def
  by (intro keeps_rules journal_rules | assumption)+

lemma keeps_defer [keeps_rules]:
  "keeps R (defer_stop c p)" "keeps R (defer_commit c key n p)" "keeps R (defer_label c p)"
  "keeps R (finish_defer c p key n d v)" "keeps R (defer_end c key n p)" "keeps R (defer_steps c key n p)"
  "keeps R (defer_tail c p)" "keeps R (defer_within c p who why t)" "keeps R (open_defer c b why t tr rf)"
  "keeps R (defer_bead c b why t tr rf)" "keeps R (limit_report c key gen h now)"
  unfolding defer_stop_def defer_commit_def defer_label_def finish_defer_def defer_end_def defer_steps_def defer_tail_def
    defer_within_def open_defer_def defer_bead_def limit_report_def
  by (intro keeps_rules journal_rules | assumption)+

lemma keeps_outcome [keeps_rules]:
  "keeps R (ended_with c p rs why)" "keeps R (put_field c e name v)" "keeps R (no_receipt c p gen)" "keeps R (settle_entry c e r)"
  "keeps R (stale_refusal c p e)" "keeps R (outcome c p e)" "keeps R (own_dispatch c p rec)"
  unfolding ended_with_def put_field_def no_receipt_def settle_entry_def stale_refusal_def outcome_def own_dispatch_def
  by (intro keeps_rules journal_rules | assumption)+

lemma keeps_reconcile_entry [keeps_rules]: "keeps R (reconcile_entry c p copies e)"
  unfolding reconcile_entry_def by (intro keeps_rules journal_rules | assumption)+

lemma keeps_reconcile_entries [keeps_rules]: "keeps R (reconcile_entries c p copies es)"
  by (induction es) (simp_all only: reconcile_entries.simps, (intro keeps_rules | assumption)+)

lemma keeps_reconcile [keeps_rules]: "keeps R (rebuild c p copies)" "keeps R (reconcile c p rec v)"
  unfolding rebuild_def reconcile_def by (intro keeps_rules journal_rules | assumption)+

lemma keeps_account_entry [keeps_rules]: "keeps R (account_entry c b todo found acc e)"
  unfolding account_entry_def by (intro keeps_rules journal_rules | assumption)+

lemma keeps_account_entries [keeps_rules]: "keeps R (account_entries c b todo found acc es)"
proof (induction es arbitrary: acc)
  case (Cons e es)
  then show ?case unfolding account_entries.simps by (intro keeps_rules)
qed (simp only: account_entries.simps, intro keeps_rules)

lemma keeps_account [keeps_rules]: "keeps R (account_deaths c p)"
  unfolding account_deaths_def by (intro keeps_rules journal_rules | assumption)+

lemma keeps_pin [keeps_rules]:
  "keeps R (pin_generation c p rec ad acc key)" "keeps R (pin c p rec ac ad)" "keeps R (pin_round c p rec ac ad)"
  "keeps R (pin_twice c p rec ac ad)" "keeps R (receipted c p e r)"
  unfolding pin_generation_def pin_def pin_round_def pin_twice_def receipted_def by (intro keeps_rules journal_rules | assumption)+

lemma keeps_ends [keeps_rules]:
  "keeps R (uncertain c p why)" "keeps R (shelve c p)" "keeps R (finish_live c p rec)" "keeps R (guard_except c p rl)"
  "keeps R (guard_record c p fr v)"
  unfolding uncertain_def shelve_def finish_live_def guard_except_def guard_record_def
  by (intro keeps_rules journal_rules | assumption)+

lemma keeps_undefer [keeps_rules]:
  "keeps R (convert_quota c p)" "keeps R (finish_waiting c p os cur)" "keeps R (undefer_verdict c p key n d)"
  "keeps R (undefer_gate c p)" "keeps R (undefer_steps c p)" "keeps R (regate_wait c b ins key n d)" "keeps R (regate c b ins)"
  unfolding convert_quota_def finish_waiting_def undefer_verdict_def undefer_gate_def undefer_steps_def regate_wait_def
    regate_def
  by (intro keeps_rules journal_rules | assumption)+

lemma keeps_release [keeps_rules]:
  "keeps R (resolve_adoption c p v)" "keeps R (release_regate c p)" "keeps R (release_steps c p)" "keeps R (release_except c p ex)"
  "keeps R (release_to_resume c p)" "keeps R (replay_release c p)" "keeps R (release c b rf)"
  unfolding resolve_adoption_def release_regate_def release_steps_def release_except_def release_to_resume_def
    replay_release_def release_def
  by (intro keeps_rules journal_rules | assumption)+

end

end
