(* ===== verification/Park_Props.thy ===== *)
theory Park_Props
  imports Park_Rules
begin

text \<open>
  What the launch guard promises. \<open>calm\<close>: an operation that launches nothing. \<open>guarded\<close>: an operation that
  launches at most one session, and only one whose journal entry was pinned, undispatched, without an
  outcome and admitted by the quota gate just before it was dispatched, on the journal of that moment, with the
  daemon's accounts, the clock and logins then read, and without the operation's stale keys. Every operation of the parker is guarded;
  hence no generation is ever launched twice, whatever the queue, the runtime and crashes do.
\<close>

section \<open>Launch calls\<close>

fun launch_specs :: "effect list \<Rightarrow> launch_spec list" where
  "launch_specs [] = []"
| "launch_specs (ELaunch sp # es) = sp # launch_specs es"
| "launch_specs (e # es) = launch_specs es"

definition launch_calls :: "park_state \<Rightarrow> launch_spec list" where
  "launch_calls s = launch_specs (pk_effects s)"

fun claimed_beads :: "effect list \<Rightarrow> bead_id list" where
  "claimed_beads [] = []"
| "claimed_beads (EClaim b # es) = b # claimed_beads es"
| "claimed_beads (e # es) = claimed_beads es"

definition claim_calls :: "park_state \<Rightarrow> bead_id list" where
  "claim_calls s = claimed_beads (pk_effects s)"

lemma claimed_beads_append [simp]: "claimed_beads (xs @ ys) = claimed_beads xs @ claimed_beads ys"
  by (induction xs rule: claimed_beads.induct) simp_all

lemma launch_specs_append [simp]: "launch_specs (xs @ ys) = launch_specs xs @ launch_specs ys"
  by (induction xs rule: launch_specs.induct) simp_all

lemma starts_other: "\<not> is_start e \<Longrightarrow> launch_specs [e] = []" "\<not> is_start e \<Longrightarrow> claimed_beads [e] = []"
  by (cases e; simp)+

lemma launch_calls_simps [simp]:
  "launch_calls (s\<lparr>pk_tick := n\<rparr>) = launch_calls s" "launch_calls (s\<lparr>pk_journal := j\<rparr>) = launch_calls s"
  "claim_calls (s\<lparr>pk_tick := n\<rparr>) = claim_calls s" "claim_calls (s\<lparr>pk_journal := j\<rparr>) = claim_calls s"
  by (simp_all add: launch_calls_def claim_calls_def)

definition still :: "park_state \<Rightarrow> park_state \<Rightarrow> bool" where
  "still s t \<longleftrightarrow> pk_journal t = pk_journal s \<and> launch_calls t = launch_calls s \<and> claim_calls t = claim_calls s"

interpretation still_acts: effect_relation still
  by unfold_locales (simp_all add: still_def launch_calls_def claim_calls_def starts_other)

definition calm :: "park_state \<Rightarrow> park_state \<Rightarrow> bool" where
  "calm s t \<longleftrightarrow> jstep\<^sup>*\<^sup>* (pk_journal s) (pk_journal t) \<and> launch_calls t = launch_calls s \<and> claim_calls t = claim_calls s \<and>
     pk_tick s \<le> pk_tick t"

interpretation calm_acts: action_relation calm
  by unfold_locales (auto simp: calm_def launch_calls_def claim_calls_def starts_other)

section \<open>Sequences\<close>

lemma seq_Inr: "seq f g s = (Inr y, u) \<longleftrightarrow> (\<exists>x t. f s = (Inr x, t) \<and> g x t = (Inr y, u))"
  by (auto simp: seq_def split: prod.splits sum.splits)

lemma seqE:
  assumes "seq f g s = (Inr y, u)"
  obtains x t where "f s = (Inr x, t)" "g x t = (Inr y, u)"
  using assms by (auto simp: seq_Inr)

lemma ret_eq [simp]: "ret x s = (r, t) \<longleftrightarrow> r = Inr x \<and> t = s" "skip s = (r', t) \<longleftrightarrow> r' = Inr () \<and> t = s"
    "raise e s = (r, t) \<longleftrightarrow> r = Inl e \<and> t = s"
  by (auto simp: ret_def skip_def raise_def)

lemma look_eq [simp]: "look f s = (r, t) \<longleftrightarrow> r = Inr (f (pk_journal s)) \<and> t = s"
  by (auto simp: look_def)

lemma jact_Inr: "jact c f s = (Inr x, t) \<Longrightarrow> \<exists>ts. f ts (pk_journal s) = Inr (x, pk_journal t) \<and> launch_calls t = launch_calls s"
  by (auto simp: jact_def seq_Inr ask_def split: sum.splits prod.splits)

lemma transaction_Inr [simp]: "transaction f s = (Inr x, t) \<longleftrightarrow> f s = (Inr x, t)"
  by (auto simp: transaction_def split: prod.splits sum.splits)

section \<open>The pinned entry\<close>

definition stored :: "launch_entry \<Rightarrow> journal \<Rightarrow> bool" where
  "stored e j \<longleftrightarrow> launch (le_session_key e) (le_generation e) j = Some e"

lemma launch_stored: "journal_wf j \<Longrightarrow> launch key gen j = Some e \<Longrightarrow> stored e j \<and> le_session_key e = key \<and> le_generation e = gen"
  by (auto simp: stored_def launch_def journal_wf_def launches_wf_def ident_def)

lemma launch_insert_stored: "launch_insert ts e b j = Inr j' \<Longrightarrow> stored e j'"
  by (auto simp: launch_insert_def stored_def launch_def ident_def map_add_def split: option.splits if_splits)

lemma op_step_launches: "op_step ts i st d j = Inr (r, j') \<Longrightarrow> j_launches j' = j_launches j \<and> j_usage j' = j_usage j"
  by (auto simp: op_step_def op_get_def op_put_def bind_result_eq_Inr Let_def split: option.splits if_splits)

lemma stored_cong: "j_launches j' = j_launches j \<Longrightarrow> stored e j' = stored e j"
  by (simp add: stored_def launch_def)

lemma step_op_stored: "step_op c p st d s = (Inr p', t) \<Longrightarrow> stored e (pk_journal s) \<Longrightarrow> stored e (pk_journal t)"
  by (auto simp: step_op_def seq_Inr dest!: jact_Inr op_step_launches elim!: stored_cong [THEN iffD2, rotated])

lemma still_bead_write: "bead_write c e s = (r, t) \<Longrightarrow> pk_journal t = pk_journal s"
  using keepsD [OF still_acts.keeps_runtime(6)] by (simp add: still_def)

lemma still_cp: "cp c s = (r, t) \<Longrightarrow> pk_journal t = pk_journal s"
  using keepsD [OF still_acts.keeps_cp] by (simp add: still_def)

text \<open>The operation a step hands on is the journal's row.\<close>

definition op_current :: "op \<Rightarrow> journal \<Rightarrow> bool" where
  "op_current p j \<longleftrightarrow> op_get (fst p) j = Inr (snd p)"

lemma op_writes_row: "op_step ts i st d j = Inr (r, j') \<Longrightarrow> op_get i j' = Inr r"
    "op_forget ts i ks j = Inr (r, j') \<Longrightarrow> op_get i j' = Inr r"
  by (auto simp: op_step_def op_forget_def op_get_def op_put_def update_conv' bind_result_eq_Inr Let_def
      split: option.splits if_splits)

lemma step_op_current:
  "step_op c p st d s = (Inr p', t) \<Longrightarrow> fst p' = fst p \<and> op_current p' (pk_journal t)"
  "forget_op c p ks s = (Inr p', t) \<Longrightarrow> fst p' = fst p \<and> op_current p' (pk_journal t)"
  by (auto simp: step_op_def forget_op_def seq_Inr op_current_def dest!: jact_Inr op_writes_row)

lemma pin_generation_stored:
  assumes "pin_generation c p rec ad acc key s = (Inr (Inr (p', e)), t)"
  shows "stored e (pk_journal t) \<and> le_session_key e = sr_session_key rec \<and> fst p' = fst p \<and> op_current p' (pk_journal t)"
proof -
  from assms obtain u1 u2 u3 u4 st d g a k pn ts where
      e: "e = new_entry c p rec g a k pn ts"
    and i: "jtry c (\<lambda>ts. launch_insert ts e False) u1 = (Inr (), u2)"
    and st: "step_op c p st d u2 = (Inr p', u3)"
    and cp: "cp c u3 = (Inr (), u4)" and w: "bead_write c e u4 = (Inr (), t)"
    by (auto simp: pin_generation_def Let_def ended_with_def elim!: seqE
        split: if_split_asm sum.split_asm option.split_asm)
  have "stored e (pk_journal u2)"
    using jact_Inr [OF i [unfolded jtry_def]] launch_insert_stored by (auto simp: bind_result_eq_Inr)
  then have "stored e (pk_journal u3)" by (rule step_op_stored [OF st])
  then show ?thesis
    using still_cp [OF cp] still_bead_write [OF w] step_op_current(1) [OF st] by (simp add: e new_entry_def)
qed

lemma pin_stored:
  assumes "pin c p rec ac ad s = (Inr (Inr (p', e)), t)"
  shows "stored e (pk_journal t) \<and> le_session_key e = sr_session_key rec \<and> fst p' = fst p \<and> op_current p' (pk_journal t)"
  using assms
  by (auto simp: pin_def ended_with_def elim!: seqE split: if_split_asm sum.split_asm decision.split_asm
      dest: pin_generation_stored)

lemma pinned_entry_stored:
  assumes "pinned_entry p rec s = (Inr (Some e), t)" and "journal_wf (pk_journal s)"
  shows "stored e (pk_journal t) \<and> le_session_key e = sr_session_key rec \<and> pk_journal t = pk_journal s"
proof -
  have "pk_journal t = pk_journal s" using keepsD [OF still_acts.keeps_reads(11) assms(1)] by (simp add: still_def)
  moreover obtain n where "launch (sr_session_key rec) n (pk_journal s) = Some e"
    using assms(1)
    by (auto simp: pinned_entry_def seq_Inr int_of_def split: option.splits)
  ultimately show ?thesis using launch_stored [OF assms(2)] by simp
qed

text \<open>
  The quota gate's answer for an entry at a tick: with the daemon's own accounts, the clock read at the tick and
  the logins read at the next one, on the journal, without the keys that the operation being launched, or its
  row in the journal, has found stale.
\<close>

definition launch_ops :: "op \<Rightarrow> journal \<Rightarrow> op list" where
  "launch_ops p j = p # (case op_get (fst p) j of Inl _ \<Rightarrow> [] | Inr r \<Rightarrow> [(fst p, r)])"

definition admitted_now :: "park_context \<Rightarrow> op \<Rightarrow> nat \<Rightarrow> launch_entry \<Rightarrow> journal \<Rightarrow> bool" where
  "admitted_now c p n e j \<longleftrightarrow> (case pc_accounts c of None \<Rightarrow> False | Some ac \<Rightarrow>
     list_ex (\<lambda>q. admitted (wd_login_key (pc_world c) (Suc n)) ac j (previous_key (le_session_key e) j) e
       (wd_clock (pc_world c) n) (pc_usage c) (set (stale_keys q))) (launch_ops p j))"

definition op_from :: "op \<Rightarrow> park_state \<Rightarrow> op \<Rightarrow> park_state \<Rightarrow> bool" where
  "op_from p s p' t \<longleftrightarrow> fst p' = fst p \<and> (p' = p \<and> pk_journal t = pk_journal s \<or> op_current p' (pk_journal t))"

lemma op_from_trans: "fst q = fst p \<Longrightarrow> op_current q (pk_journal s) \<Longrightarrow> op_from q s p' t \<Longrightarrow> op_from p u p' t"
  by (auto simp: op_from_def)

lemma op_from_launch_ops: "op_from p s p' t \<Longrightarrow> p' \<in> set (launch_ops p (pk_journal t))"
  by (cases p') (auto simp: op_from_def launch_ops_def op_current_def)

lemma pin_holds_admitted:
  assumes "pin_holds c q ac rec e s = (Inr True, t)" and "le_session_key e = sr_session_key rec"
    and "pc_accounts c = Some ac" and "q \<in> set (launch_ops p (pk_journal s))"
  shows "admitted_now c p (pk_tick s) e (pk_journal t) \<and> pk_journal t = pk_journal s \<and> pk_tick t = pk_tick s + 2"
  using assms by (auto simp: pin_holds_def seq_Inr ask_def admitted_now_def list_ex_iff)

text \<open>A round whose pin does not hold hands on the operation's row, without the pin.\<close>

lemma pin_round_lost:
  assumes "pin_round c p rec ac ad s = (Inr (Inr (False, p', e)), t)"
  shows "fst p' = fst p \<and> op_current p' (pk_journal t)"
proof -
  from assms obtain found u v w x y z q x' where f: "pinned_entry p rec s = (Inr found, u)"
    and r: "(case found of Some e \<Rightarrow> seq (bead_write c e) (\<lambda>_. ret (Inr (p, e))) | None \<Rightarrow> pin c p rec ac ad) u = (Inr (Inr (q, x)), v)"
    and o: "forget_op c q [''generation''] w = (Inr p', y)"
    and k: "cp c y = (Inr (), z)" "bead_write c x' z = (Inr (), t)"
    by (auto simp: pin_round_def elim!: seqE split: sum.split_asm prod.split_asm if_split_asm)
  have "fst q = fst p" using r pin_stored by (cases found) (fastforce simp: seq_Inr)+
  then show ?thesis using step_op_current(2) [OF o] still_cp [OF k(1)] still_bead_write [OF k(2)] by simp
qed

text \<open>A pin that held was admitted by the gate, and nothing has changed the journal since.\<close>

definition pin_held :: "park_context \<Rightarrow> op \<Rightarrow> session_record \<Rightarrow> launch_entry \<Rightarrow> park_state \<Rightarrow> park_state \<Rightarrow> bool" where
  "pin_held c p rec e s t \<longleftrightarrow> stored e (pk_journal t) \<and> le_session_key e = sr_session_key rec \<and>
     (\<exists>n. pk_tick s \<le> n \<and> pk_tick t = n + 2 \<and> admitted_now c p n e (pk_journal t))"

lemma pin_round_holds:
  assumes "pin_round c p rec ac ad s = (Inr (Inr (True, p', e)), t)" and wf: "journal_wf (pk_journal s)"
    and ac: "pc_accounts c = Some ac" and q: "p = p0 \<or> fst p = fst p0 \<and> op_current p (pk_journal s)"
  shows "pin_held c p0 rec e s t"
proof -
  from assms(1) obtain found u v where f: "pinned_entry p rec s = (Inr found, u)"
    and r: "(case found of Some e \<Rightarrow> seq (bead_write c e) (\<lambda>_. ret (Inr (p, e))) | None \<Rightarrow> pin c p rec ac ad) u = (Inr (Inr (p', e)), v)"
    and h: "pin_holds c p' ac rec e v = (Inr True, t)"
    by (auto simp: pin_round_def elim!: seqE split: sum.split_asm prod.split_asm if_split_asm)
  have e: "stored e (pk_journal v) \<and> le_session_key e = sr_session_key rec \<and> op_from p s p' v"
  proof (cases found)
    case None
    with r show ?thesis by (auto simp: op_from_def dest: pin_stored)
  next
    case (Some x)
    with r have "x = e" "p' = p" and w: "bead_write c e u = (Inr (), v)" by (auto simp: seq_Inr)
    then show ?thesis
      using pinned_entry_stored [OF f [unfolded Some] wf] still_bead_write [OF w] by (auto simp: op_from_def)
  qed
  then have "op_from p0 s p' v" using q op_from_trans by blast
  from pin_holds_admitted [OF h _ ac op_from_launch_ops [OF this]] e
  have h2: "admitted_now c p0 (pk_tick v) e (pk_journal t)" "pk_journal t = pk_journal v" "pk_tick t = pk_tick v + 2" by auto
  have "calm s u" by (rule keepsD [OF calm_acts.keeps_reads(11) f])
  moreover have "keeps calm (case found of Some e \<Rightarrow> seq (bead_write c e) (\<lambda>_. ret (Inr (p, e))) | None \<Rightarrow> pin c p rec ac ad)"
    by (rule keeps_cases calm_acts.keeps_seq calm_acts.keeps_runtime calm_acts.keeps_ret calm_acts.keeps_pin)+
  then have "calm u v" using r by (rule keepsD)
  ultimately show ?thesis using e h2 by (auto simp: pin_held_def calm_def)
qed

lemma calm_wf: "calm s t \<Longrightarrow> journal_wf (pk_journal s) \<Longrightarrow> journal_wf (pk_journal t)"
  using journal_inv.run_invar by (auto simp: calm_def)

lemma pin_twice_holds:
  assumes "pin_twice c p rec ac ad s = (Inr (Inr (p', e)), t)" and wf: "journal_wf (pk_journal s)"
    and ac: "pc_accounts c = Some ac"
  shows "pin_held c p rec e s t"
proof -
  from assms(1) obtain held q x u where r: "pin_round c p rec ac ad s = (Inr (Inr (held, q, x)), u)"
    and n: "(if held then ret (Inr (q, x)) else seq (pin_round c q rec ac ad) (\<lambda>r. case r of
                Inl l \<Rightarrow> ret (Inl l)
              | Inr (held, p, e) \<Rightarrow> if held then ret (Inr (p, e)) else ret (Inl GWait))) u = (Inr (Inr (p', e)), t)"
    by (auto simp: pin_twice_def elim!: seqE [of "pin_round c p rec ac ad"] split: sum.split_asm prod.split_asm)
  show ?thesis
  proof (cases held)
    case True
    with n r pin_round_holds [OF _ wf ac] show ?thesis by auto
  next
    case False
    with n have "pin_round c q rec ac ad u = (Inr (Inr (True, p', e)), t)"
      by (auto elim!: seqE split: sum.split_asm prod.split_asm if_split_asm)
    moreover have su: "calm s u" by (rule keepsD [OF calm_acts.keeps_pin(3) r])
    moreover have "fst q = fst p \<and> op_current q (pk_journal u)" using r False by (intro pin_round_lost) simp
    ultimately have "pin_held c p rec e u t" using calm_wf [OF su wf] ac by (blast intro: pin_round_holds)
    then show ?thesis using su by (auto simp: pin_held_def calm_def)
  qed
qed

section \<open>The dispatch\<close>

text \<open>A launch call for an entry: the session and generation, account, key, model and install are the pinned ones.\<close>

definition pinned_to :: "launch_spec \<Rightarrow> launch_entry \<Rightarrow> bool" where
  "pinned_to sp e \<longleftrightarrow> sp_session_key sp = le_session_key e \<and> sp_generation sp = le_generation e \<and> sp_account sp = le_account e \<and>
     sp_credential_key sp = le_credential_key e \<and> sp_model sp = le_model_passed e \<and> sp_install sp = le_install e \<and>
     sp_install_digest sp = le_install_digest e"

definition one_launch :: "launch_entry \<Rightarrow> park_state \<Rightarrow> park_state \<Rightarrow> bool" where
  "one_launch e s t \<longleftrightarrow> calm s t \<or>
     jstep\<^sup>*\<^sup>* (pk_journal s) (pk_journal t) \<and> claim_calls t = claim_calls s \<and> pk_tick s \<le> pk_tick t \<and>
     (\<exists>sp. launch_calls t = launch_calls s @ [sp] \<and> pinned_to sp e)"

lemma one_launch_pre: "calm s t \<Longrightarrow> one_launch e t u \<Longrightarrow> one_launch e s u"
  by (auto simp: one_launch_def calm_def intro: rtranclp_trans)

lemma keeps_one_launch:
  assumes "keeps calm f" "\<And>x. keeps (one_launch e) (g x)"
  shows "keeps (one_launch e) (seq f g)"
  by (rule keeps_before [OF one_launch_pre _ assms]) (simp_all add: one_launch_def)

lemma call_runtime_one:
  assumes "pinned_to sp e"
  shows "keeps (one_launch e) (call_runtime c p x sp)"
  unfolding keeps_def
proof
  fix s :: park_state
  let ?u = "s\<lparr>pk_effects := pk_effects s @ [ELaunch sp], pk_tick := Suc (pk_tick s)\<rparr>"
  let ?a = "wd_launch (pc_world c) (pk_tick s)"
  let ?g = "\<lambda>a. case a of
       Started st \<Rightarrow> seq (cp c) (\<lambda>_. receipted c p x (start_receipt x st))
     | LaunchFailed why \<Rightarrow> receipted c p x (refusal x ''failed'' why)
     | LaunchUnavailable why \<Rightarrow> receipted c p x (refusal x ''unavailable'' why)
     | LaunchUncertain \<Rightarrow> ended_with c p UNEXPECTED_STATE
         (''the runtime could not say whether generation '' @ show_int (le_generation x) @ '' started'')"
  have eq: "call_runtime c p x sp s = ?g ?a ?u"
    by (simp only: call_runtime_def runtime_launch_def seq_def perform_def ask_def prod.case sum.case) simp
  have "keeps calm (?g ?a)"
    by (cases ?a) (simp_all add: calm_acts.keeps_seq calm_acts.keeps_cp calm_acts.keeps_pin calm_acts.keeps_outcome)
  then have "calm ?u (snd (call_runtime c p x sp s))" unfolding eq keeps_def ..
  then show "one_launch e s (snd (call_runtime c p x sp s))"
    using assms by (auto simp: one_launch_def calm_def launch_calls_def claim_calls_def)
qed

lemma spec_for_pinned: "le_session_key e = sr_session_key rec \<Longrightarrow> pinned_to (spec_for c p rec wt ad caps ls e) e"
  by (simp add: pinned_to_def spec_for_def Let_def)

lemma launch_put_lookup:
  "launch key gen j \<noteq> None \<Longrightarrow> launch key gen (launch_put (key, gen) x j) = Some x"
  using map_of_map_rows [of "\<lambda>n y. (if n = (key, gen) then x else fst y, snd y)" "j_launches j" "(key, gen)"]
  by (auto simp: launch_def launch_put_def case_prod_unfold)

lemma launch_set_dispatch:
  assumes "launch_set (le_session_key e) (le_generation e) ''dispatched_at'' ts j = Inr (x, j')"
    and "stored e j" "le_dispatched_at e = None"
  shows "x = e\<lparr>le_dispatched_at := Some ts\<rparr> \<and> stored x j'"
proof -
  have "set_once_of ''dispatched_at'' = Some F_dispatched_at" by code_simp
  then show ?thesis using assms launch_put_lookup [of "le_session_key e" "le_generation e" j]
    by (auto simp: launch_set_def stored_def split: if_split_asm)
qed

text \<open>The dispatch's transaction: when it commits, the entry is stored with its dispatch and nothing was launched.\<close>

lemma dispatch_committed:
  assumes "transaction (seq (ask c wd_now) (\<lambda>ts. seq (put_field c e ''dispatched_at'' ts) (\<lambda>e.
      seq (step_op c p ''dispatched'' []) (\<lambda>p. ret (p, e))))) s = (Inr (q, x), t)"
    and "stored e (pk_journal s)" "le_dispatched_at e = None"
  shows "(\<exists>ts. x = e\<lparr>le_dispatched_at := Some ts\<rparr>) \<and> stored x (pk_journal t)"
proof -
  from assms(1) obtain ts u v where a: "ask c wd_now s = (Inr ts, u)" and f: "put_field c e ''dispatched_at'' ts u = (Inr x, v)"
    and o: "step_op c p ''dispatched'' [] v = (Inr q, t)"
    by (auto elim!: seqE)
  have "pk_journal u = pk_journal s" using a by (auto simp: ask_def)
  then obtain ts' where "x = e\<lparr>le_dispatched_at := Some ts'\<rparr> \<and> stored x (pk_journal v)"
    using jact_Inr [OF f [unfolded put_field_def]] launch_set_dispatch assms(2,3) by fastforce
  then show ?thesis using step_op_stored [OF o] by blast
qed

lemma dispatch_tail_one:
  assumes "le_session_key e = sr_session_key rec"
  shows "keeps (one_launch e) (seq (cp c) (\<lambda>_. seq (bead_write c e) (\<lambda>_.
     seq (look (\<lambda>j. filter (\<lambda>x. le_outcome x = Some LAUNCHED) (launches (sr_session_key rec) j))) (\<lambda>launched.
     seq (park_capabilities c (Some ac) (sr_profile rec)) (\<lambda>caps.
       call_runtime c p e (spec_for c p rec wt ad caps launched e))))))"
  by (intro keeps_one_launch calm_acts.keeps_cp calm_acts.keeps_runtime calm_acts.keeps_ret calm_acts.keeps_reads
      call_runtime_one spec_for_pinned assms)

text \<open>
  One launch made for an operation between two states: of an entry that stood in the journal, fresh and admitted
  at a tick between them, and that is dispatched afterwards.
\<close>

definition launched_by :: "park_context \<Rightarrow> op \<Rightarrow> park_state \<Rightarrow> park_state \<Rightarrow> bool" where
  "launched_by c p s t \<longleftrightarrow> (\<exists>e n j sp e'.
     jstep\<^sup>*\<^sup>* (pk_journal s) j \<and> stored e j \<and> le_dispatched_at e = None \<and> le_outcome e = None \<and>
     admitted_now c p n e j \<and> pk_tick s \<le> n \<and> n + 2 \<le> pk_tick t \<and>
     launch_calls t = launch_calls s @ [sp] \<and> claim_calls t = claim_calls s \<and>
     pinned_to sp e \<and> jstep\<^sup>*\<^sup>* j (pk_journal t) \<and> launch (le_session_key e) (le_generation e) (pk_journal t) = Some e' \<and> le_dispatched_at e' \<noteq> None)"

lemma launched_byI:
  assumes "jstep\<^sup>*\<^sup>* (pk_journal s) j" "stored e j" "le_dispatched_at e = None" "le_outcome e = None" "admitted_now c p n e j"
    "pk_tick s \<le> n" "n + 2 \<le> pk_tick t"
    "launch_calls t = launch_calls s @ [sp]" "claim_calls t = claim_calls s" "pinned_to sp e" "jstep\<^sup>*\<^sup>* j (pk_journal t)"
    "launch (le_session_key e) (le_generation e) (pk_journal t) = Some e'" "le_dispatched_at e' \<noteq> None"
  shows "launched_by c p s t"
  unfolding launched_by_def
  by (rule exI [of _ e], rule exI [of _ n], rule exI [of _ j], rule exI [of _ sp], rule exI [of _ e']) (intro conjI assms)

lemma launched_byE:
  assumes "launched_by c p s t"
  obtains e n j sp e' where "jstep\<^sup>*\<^sup>* (pk_journal s) j" "stored e j" "le_dispatched_at e = None" "le_outcome e = None"
    "admitted_now c p n e j" "pk_tick s \<le> n" "n + 2 \<le> pk_tick t"
    "launch_calls t = launch_calls s @ [sp]" "claim_calls t = claim_calls s" "pinned_to sp e"
    "jstep\<^sup>*\<^sup>* j (pk_journal t)" "launch (le_session_key e) (le_generation e) (pk_journal t) = Some e'" "le_dispatched_at e' \<noteq> None"
  using assms unfolding launched_by_def by (elim exE conjE) (rule that)

lemma launch_evolves:
  assumes "jstep\<^sup>*\<^sup>* j k" "launch key gen j = Some e"
  obtains e' where "launch key gen k = Some e'" "mergeable e e'"
proof -
  obtain r where "map_of (j_launches j) (key, gen) = Some (e, r)" using assms(2) by (auto simp: launch_def)
  from table_evolvesD [OF launch_hist.run_le [OF assms(1)] this] that show ?thesis by (auto simp: launch_def)
qed

lemma dispatched_stays:
  assumes "jstep\<^sup>*\<^sup>* j k" "launch key gen j = Some e" "le_dispatched_at e \<noteq> None"
  shows "\<exists>e'. launch key gen k = Some e' \<and> le_dispatched_at e' \<noteq> None"
proof -
  obtain e' where "launch key gen k = Some e'" "mergeable e e'" by (rule launch_evolves [OF assms(1,2)])
  then show ?thesis using assms(3) mergeable_get [of e e' F_dispatched_at] by force
qed

lemma dispatch_guarded:
  assumes d: "dispatch c p rec wt ac ad e s = (r, t)" and h: "pin_held c p0 rec e s0 s" and s0: "calm s0 s"
  shows "calm s0 t \<or> launched_by c p0 s0 t"
proof (cases "le_outcome e \<noteq> None \<or> le_dispatched_at e \<noteq> None")
  case True
  with d s0 show ?thesis by (simp add: dispatch_def calm_def)
next
  case fresh: False
  from h obtain n where e: "stored e (pk_journal s)" "le_session_key e = sr_session_key rec" "admitted_now c p0 n e (pk_journal s)"
    and n: "pk_tick s0 \<le> n" "pk_tick s = n + 2"
    by (auto simp: pin_held_def)
  let ?f = "transaction (seq (ask c wd_now) (\<lambda>ts. seq (put_field c e ''dispatched_at'' ts) (\<lambda>e.
      seq (step_op c p ''dispatched'' []) (\<lambda>p. ret (p, e)))))"
  obtain a u where f: "?f s = (a, u)" by force
  have "keeps calm ?f"
    by (intro calm_acts.keeps_transaction calm_acts.keeps_seq calm_acts.keeps_ask calm_acts.keeps_outcome
        calm_acts.keeps_op calm_acts.keeps_ret)
  then have "calm s u" using f by (rule keepsD)
  then have su: "calm s0 u" and su': "calm s u" using s0 calm_acts.R_trans by blast+
  show ?thesis
  proof (cases a)
    case (Inl ex)
    with d f fresh have "t = u" by (simp add: dispatch_def seq_def)
    then show ?thesis using su by simp
  next
    case (Inr y)
    then obtain q x where y: "a = Inr (q, x)" by (cases y) simp
    from dispatch_committed [OF f [unfolded y] e(1)] fresh
    obtain ts where x: "x = e\<lparr>le_dispatched_at := Some ts\<rparr>" and st: "stored x (pk_journal u)" by blast
    have "one_launch x u (snd (dispatch c p rec wt ac ad e s))"
      using dispatch_tail_one [of x rec c ac q wt ad] e(2) fresh unfolding keeps_def
      by (simp add: dispatch_def seq_def f y x)
    then have ut: "one_launch x u t" using d by simp
    then have "jstep\<^sup>*\<^sup>* (pk_journal u) (pk_journal t)" by (auto simp: one_launch_def calm_def)
    from dispatched_stays [OF this st [unfolded stored_def]]
    obtain e' where e': "launch (le_session_key e) (le_generation e) (pk_journal t) = Some e'" "le_dispatched_at e' \<noteq> None"
      by (auto simp: x)
    show ?thesis
    proof (cases "calm u t")
      case True
      then show ?thesis using su calm_acts.R_trans by blast
    next
      case False
      with ut obtain sp where sp: "launch_calls t = launch_calls u @ [sp]" "claim_calls t = claim_calls u" "pinned_to sp e"
          "pk_tick u \<le> pk_tick t" "jstep\<^sup>*\<^sup>* (pk_journal u) (pk_journal t)"
        by (auto simp: one_launch_def pinned_to_def x)
      have "launched_by c p0 s0 t"
        by (rule launched_byI [OF _ e(1) _ _ e(3) n(1) _ _ _ sp(3) _ e'])
          (use s0 su su' sp fresh n in \<open>auto simp: calm_def intro: rtranclp_trans\<close>)
      then show ?thesis ..
    qed
  qed
qed

section \<open>Guarded operations\<close>

text \<open>At most one launch, and made for an operation of a given kind.\<close>

definition guarded_by :: "park_context \<Rightarrow> (op \<Rightarrow> bool) \<Rightarrow> park_state \<Rightarrow> park_state \<Rightarrow> bool" where
  "guarded_by c P s t \<longleftrightarrow> (journal_wf (pk_journal s) \<longrightarrow> calm s t \<or> (\<exists>p. P p \<and> launched_by c p s t))"

abbreviation guarded :: "park_context \<Rightarrow> park_state \<Rightarrow> park_state \<Rightarrow> bool" where
  "guarded c \<equiv> guarded_by c (\<lambda>_. True)"

lemma calm_guarded: "calm s t \<Longrightarrow> guarded_by c P s t"
  by (simp add: guarded_by_def)

lemma launched_by_pre:
  assumes "calm s t" "launched_by c p t u"
  shows "launched_by c p s u"
  using assms(2)
proof (rule launched_byE)
  fix e n j sp e'
  assume l: "jstep\<^sup>*\<^sup>* (pk_journal t) j" "stored e j" "le_dispatched_at e = None" "le_outcome e = None"
     "admitted_now c p n e j" "pk_tick t \<le> n" "n + 2 \<le> pk_tick u"
     "launch_calls u = launch_calls t @ [sp]" "claim_calls u = claim_calls t" "pinned_to sp e"
     "jstep\<^sup>*\<^sup>* j (pk_journal u)" "launch (le_session_key e) (le_generation e) (pk_journal u) = Some e'" "le_dispatched_at e' \<noteq> None"
  show ?thesis
    by (rule launched_byI [OF _ l(2-5) _ l(7) _ _ l(10-13)]) (use assms(1) l(1,6-9) in \<open>auto simp: calm_def intro: rtranclp_trans\<close>)
qed

lemma launched_by_post:
  assumes "launched_by c p s t" "calm t u"
  shows "launched_by c p s u"
  using assms(1)
proof (rule launched_byE)
  fix e n j sp e'
  assume l: "jstep\<^sup>*\<^sup>* (pk_journal s) j" "stored e j" "le_dispatched_at e = None" "le_outcome e = None"
     "admitted_now c p n e j" "pk_tick s \<le> n" "n + 2 \<le> pk_tick t"
     "launch_calls t = launch_calls s @ [sp]" "claim_calls t = claim_calls s" "pinned_to sp e"
     "jstep\<^sup>*\<^sup>* j (pk_journal t)" "launch (le_session_key e) (le_generation e) (pk_journal t) = Some e'" "le_dispatched_at e' \<noteq> None"
  from assms(2) have tu: "jstep\<^sup>*\<^sup>* (pk_journal t) (pk_journal u)" by (simp add: calm_def)
  from dispatched_stays [OF tu l(12,13)] obtain e'' where
    e'': "launch (le_session_key e) (le_generation e) (pk_journal u) = Some e''" "le_dispatched_at e'' \<noteq> None" by blast
  show ?thesis
    by (rule launched_byI [OF l(1-6) _ _ _ l(10) _ e'']) (use assms(2) l(7-9,11) in \<open>auto simp: calm_def intro: rtranclp_trans\<close>)
qed

lemma guarded_pre: "calm s t \<Longrightarrow> guarded_by c P t u \<Longrightarrow> guarded_by c P s u"
  unfolding guarded_by_def using calm_wf calm_acts.R_trans launched_by_pre by blast

lemma guarded_post: "guarded_by c P s t \<Longrightarrow> calm t u \<Longrightarrow> guarded_by c P s u"
  unfolding guarded_by_def using calm_acts.R_trans launched_by_post by blast

lemma guarded_any: "guarded_by c P s t \<Longrightarrow> guarded c s t"
  by (auto simp: guarded_by_def)

named_theorems guarded_rules \<open>an action is guarded\<close>

lemma keeps_guarded: "keeps calm f \<Longrightarrow> keeps (guarded_by c P) f"
  by (simp add: keeps_def calm_guarded)

lemma keeps_guarded_any: "keeps (guarded_by c P) f \<Longrightarrow> keeps (guarded c) f"
  unfolding keeps_def using guarded_any by blast

lemma guarded_seq:
  "keeps calm f \<Longrightarrow> (\<And>x. keeps (guarded_by c P) (g x)) \<Longrightarrow> keeps (guarded_by c P) (seq f g)"
  by (rule keeps_before [OF guarded_pre calm_guarded])

lemma guarded_then:
  "keeps (guarded_by c P) f \<Longrightarrow> (\<And>x. keeps calm (g x)) \<Longrightarrow> keeps (guarded_by c P) (seq f g)"
  by (rule keeps_after [OF guarded_post])

lemma pin_and_dispatch_guarded:
  assumes "pc_accounts c = Some ac"
  shows "keeps (guarded_by c ((=) p)) (pin_and_dispatch c p rec wt ac)"
  unfolding keeps_def
proof
  fix s :: park_state
  let ?ad = "case adapter_of ac (sr_profile rec) of None \<Rightarrow> [] | Some a \<Rightarrow> a"
  obtain r t where r: "pin_twice c p rec ac ?ad s = (r, t)" by force
  have st: "calm s t" by (rule keepsD [OF calm_acts.keeps_pin(4) r])
  show "guarded_by c ((=) p) s (snd (pin_and_dispatch c p rec wt ac s))"
  proof (cases "\<exists>q e. r = Inr (Inr (q, e))")
    case True
    then obtain q e where q: "r = Inr (Inr (q, e))" by blast
    obtain y u where d: "dispatch c q rec wt ac ?ad e t = (y, u)" by force
    have "snd (pin_and_dispatch c p rec wt ac s) = u"
      by (simp add: pin_and_dispatch_def Let_def seq_def r q d)
    moreover have "calm s u \<or> launched_by c p s u" if "journal_wf (pk_journal s)"
      by (rule dispatch_guarded [OF d pin_twice_holds [OF r [unfolded q] that assms] st])
    ultimately show ?thesis unfolding guarded_by_def by blast
  next
    case False
    then have "snd (pin_and_dispatch c p rec wt ac s) = t"
      by (auto simp: pin_and_dispatch_def Let_def seq_def r ret_def split: sum.split)
    then show ?thesis using st by (simp add: calm_guarded)
  qed
qed

text \<open>
  How the rest of the guard is walked: a sequence whose first part is calm, cases, and calm leaves. The one
  call that handles the exceptions of a guarded call is \<open>guarded_excepted\<close>.
\<close>

lemmas calm_rules = calm_acts.keeps_outcome calm_acts.keeps_reconcile calm_acts.keeps_account calm_acts.keeps_ends
  calm_acts.keeps_op calm_acts.keeps_finish calm_acts.keeps_ret calm_acts.keeps_ensure calm_acts.keeps_ask calm_acts.keeps_cp
  calm_acts.keeps_bd calm_acts.keeps_runtime calm_acts.keeps_undefer calm_acts.keeps_defer calm_acts.keeps_park_steps
  calm_acts.keeps_park calm_acts.keeps_release

lemmas calm_walk = calm_rules calm_acts.keeps_attempt calm_acts.keeps_transaction calm_acts.keeps_seq

lemmas guarded_walk = guarded_seq keeps_cases keeps_exn calm_rules [THEN keeps_guarded]

lemma guard_launch_guarded:
  assumes "pc_accounts c = Some ac"
  shows "keeps (guarded_by c ((=) p)) (guard_launch c p rec v wt ac own)"
  unfolding guard_launch_def by (rule pin_and_dispatch_guarded [OF assms] guarded_walk calm_walk)+

lemma guarded_excepted:
  assumes "pc_accounts c = Some ac"
  shows "keeps (guarded_by c ((=) p)) (seq (attempt (guard_launch c p rec v wt ac own)) (guard_except c p))"
  by (intro guarded_then keeps_try guard_launch_guarded assms calm_rules)

lemma guard_accounts_guarded [guarded_rules]: "keeps (guarded_by c ((=) p)) (guard_accounts c p rec v wt own)"
proof (cases "pc_accounts c")
  case None
  then show ?thesis unfolding guard_accounts_def by (simp add: calm_rules [THEN keeps_guarded])
next
  case (Some ac)
  then have "guard_accounts c p rec v wt own =
      (if adapter_of ac (sr_profile rec) = None
       then ended_with c p CONFIG_INVALID ''no account can be pinned for the profile''
       else seq (look (adoption_for (pc_ws c) (op_bead p))) (\<lambda>a.
            if (case a of None \<Rightarrow> False | Some x \<Rightarrow> \<not> a_settled x) then ret GWait
            else case a of
              Some x \<Rightarrow> if unresolved_hold x then ended_with c p UNEXPECTED_STATE (a_detail x)
                        else seq (attempt (guard_launch c p rec v wt ac own)) (guard_except c p)
            | None \<Rightarrow> seq (attempt (guard_launch c p rec v wt ac own)) (guard_except c p)))"
    by (simp add: guard_accounts_def)
  moreover have "keeps (guarded_by c ((=) p)) \<dots>" by (rule guarded_excepted [OF Some] guarded_walk calm_walk)+
  ultimately show ?thesis by simp
qed

lemma guard_runnable_guarded [guarded_rules]: "keeps (guarded_by c ((=) p)) (guard_runnable c p rec v own)"
  unfolding guard_runnable_def by (rule guarded_rules guarded_walk calm_walk)+

lemma guard_bead_guarded [guarded_rules]: "keeps (guarded_by c ((=) p)) (guard_bead c p fr own)"
  unfolding guard_bead_def by (rule guarded_rules guarded_walk calm_walk)+

lemma launch_guard_guarded_by: "keeps (guarded_by c ((=) p)) (launch_guard c p fr)"
  unfolding launch_guard_def by (rule guarded_rules guarded_walk calm_walk)+

lemma launch_guard_guarded [guarded_rules]: "keeps (guarded c) (launch_guard c p fr)"
  by (rule keeps_guarded_any [OF launch_guard_guarded_by])

lemma replay_undefer_guarded [guarded_rules]: "keeps (guarded c) (replay_undefer c p)"
  unfolding replay_undefer_def by (rule guarded_rules guarded_walk calm_walk)+

lemma replay_resume_guarded [guarded_rules]: "keeps (guarded c) (replay_resume c p)"
  unfolding replay_resume_def by (rule guarded_rules guarded_walk calm_walk keeps_cases)+

lemma reads_calm: "keeps calm (deferral_of v)"
  by (rule calm_acts.keeps_reads)

lemma undefer_guarded [guarded_rules]: "keeps (guarded c) (undefer c b rf)"
  unfolding undefer_def by (rule guarded_rules guarded_walk calm_walk reads_calm)+

lemma resume_guarded [guarded_rules]: "keeps (guarded c) (resume c b rf)"
  unfolding resume_def by (rule guarded_rules guarded_walk calm_walk)+

lemma replay_guarded [guarded_rules]: "keeps (guarded c) (replay c p)"
  unfolding replay_def
  by (rule guarded_rules guarded_walk calm_walk guarded_then [OF replay_resume_guarded] keeps_answers(6))+

end
