(* ===== verification/Sched_Rules.thy ===== *)
theory Sched_Rules
  imports Recovery Park_Props
begin

text \<open>
  The rules of \<open>Park_Rules\<close> for pickup and recovery: what a relation kept by every journal call and by every
  effect but a launch and a claim is kept by. That is all of recovery, and all of pickup up to its claims
  and the launch guard.
\<close>

lemma sweep_journal: "jstep\<^sup>*\<^sup>* j (sw_journal (fst (sweep cx (unswept j))))"
proof (cases "sv_ours (cx_services cx) = None \<or> sv_sessions (cx_services cx) = None")
  case True
  then show ?thesis by (simp add: sweep_reads unswept_def)
next
  case False
  then show ?thesis using sweep_effects [of cx _ _ "unswept j"] by (auto simp: confined_def unswept_def)
qed

lemma resume_ops_journal: "resume_ops cx bs j = Inr j' \<Longrightarrow> jstep\<^sup>*\<^sup>* j j'"
proof (induction bs arbitrary: j)
  case (Cons b bs)
  from Cons.prems obtain k where k: "resume_op cx b j = Inr k" "resume_ops cx bs k = Inr j'" by (auto simp: bind_result_eq_Inr)
  have "jstep\<^sup>*\<^sup>* j k" using resume_op_frame [OF k(1)] by (simp add: confined_def)
  then show ?case using Cons.IH [OF k(2)] by (rule rtranclp_trans)
qed simp

lemma open_resumes_journal: "jstep\<^sup>*\<^sup>* j (sw_journal (fst (open_resumes cx bs (unswept j))))"
  using resume_ops_journal [of cx bs j]
  by (auto simp: open_resumes_def and_then_def journal_do_def unswept_def done_ok_def split: sum.split)

lemma not_start_swept: "e \<in> set (swept_effects w) \<Longrightarrow> \<not> is_start e"
  by (auto simp: swept_effects_def)

lemma moves_sched [moves_rules]:
  "moves (\<lambda>ts j. Inr (emit_once ts w b k d rf j))" "moves (\<lambda>ts j. Inr (clamp_deadlines n j))"
  by (rule movesI, auto intro: s_emit_once, rule movesI, auto intro: s_clamp)

lemma moves_untrusted [moves_rules]: "moves (\<lambda>ts. ingest_untrusted lch obs now us)"
proof -
  have two: "jstep\<^sup>*\<^sup>* j j'" if "jstep j k" "jstep k j'" for j k j' :: journal
    using that by (meson r_into_rtranclp rtranclp_trans)
  show ?thesis
    by (auto simp: moves_def ingest_untrusted_def bind_result_eq_Inr Let_def split: sum.split_asm option.split_asm if_split_asm
        intro: two [OF s_usage_seq s_usage_untrusted [OF refl]])
qed

lemma keeps_sched_cases [keeps_rules]:
  "keeps R f1 \<Longrightarrow> (\<And>x. keeps R (f2 x)) \<Longrightarrow> keeps R f3 \<Longrightarrow> keeps R f4 \<Longrightarrow> keeps R f5 \<Longrightarrow> keeps R (case_claim_answer f1 f2 f3 f4 f5 ca)"
  "keeps R h1 \<Longrightarrow> keeps R h2 \<Longrightarrow> (\<And>x. keeps R (h3 x)) \<Longrightarrow> keeps R h4 \<Longrightarrow> keeps R (case_worktree_answer h1 h2 h3 h4 wa)"
  "(\<And>x y z. keeps R (g1 x y z)) \<Longrightarrow> (\<And>x y z. keeps R (g2 x y z)) \<Longrightarrow> (\<And>x y z w. keeps R (g3 x y z w)) \<Longrightarrow>
     (\<And>x y z w. keeps R (g4 x y z w)) \<Longrightarrow> keeps R (case_signal g1 g2 g3 g4 sg)"
  by (simp_all split: claim_answer.split worktree_answer.split signal.split)

context effect_relation
begin

lemma keeps_query [keeps_rules]: "keeps R (query c f)"
  by (simp add: keeps_def query_def R_tick)

lemma keeps_queue [keeps_rules]: "keeps R (queue c f)"
  unfolding queue_def by (intro keeps_rules)

lemma R_effects: "(\<And>e. e \<in> set es \<Longrightarrow> \<not> is_start e) \<Longrightarrow> R s (s\<lparr>pk_effects := pk_effects s @ es\<rparr>)"
proof (induction es arbitrary: s)
  case Nil
  then show ?case by (simp add: R_refl)
next
  case (Cons e es)
  have "R s (s\<lparr>pk_effects := pk_effects s @ [e]\<rparr>)" using Cons.prems by (simp add: R_effect)
  moreover have "R (s\<lparr>pk_effects := pk_effects s @ [e]\<rparr>) (s\<lparr>pk_effects := pk_effects s @ e # es\<rparr>)"
    using Cons.IH [of "s\<lparr>pk_effects := pk_effects s @ [e]\<rparr>"] Cons.prems by simp
  ultimately show ?case by (rule R_trans)
qed

lemma keeps_sched_reads [keeps_rules]:
  "keeps R (gate_session c b pr key now)" "keeps R (gate_resume c v now)" "keeps R (source_one c now)" "keeps R (stalled c)"
  "keeps R (unclaimable c v)" "keeps R (record_from p)" "keeps R (waits_claim c)" "keeps R (wait_times c now)" "keeps R (expire c)"
  unfolding gate_session_def gate_resume_def source_one_def stalled_def unclaimable_def record_from_def waits_claim_def
    wait_times_def expire_def
  by (intro keeps_rules | simp)+

end

context action_relation
begin

lemma keeps_run_sweep:
  assumes "\<And>cx j. jstep\<^sup>*\<^sup>* j (sw_journal (fst (f cx (unswept j))))"
  shows "keeps R (run_sweep c d f)"
proof -
  have "R s (snd (let cx = \<lparr>cx_services = sv, cx_ws = sc_ws c, cx_ts = ts, cx_new_id = ids, cx_defer = d\<rparr>;
           (w, raised) = f cx (unswept (pk_journal s));
           t = s\<lparr>pk_journal := sw_journal w, pk_effects := pk_effects s @ swept_effects w\<rparr>
       in case raised of None \<Rightarrow> (Inr w, t) | Some e \<Rightarrow> (Inl (sweep_exception e), t)))" for s sv ids ts
  proof -
    let ?cx = "\<lparr>cx_services = sv, cx_ws = sc_ws c, cx_ts = ts, cx_new_id = ids, cx_defer = d\<rparr>"
    obtain w raised where w: "f ?cx (unswept (pk_journal s)) = (w, raised)" by force
    have "R s (s\<lparr>pk_journal := sw_journal w\<rparr>)" using R_journal assms [of "pk_journal s" ?cx] by (simp add: w)
    moreover have "R (s\<lparr>pk_journal := sw_journal w\<rparr>) (s\<lparr>pk_journal := sw_journal w, pk_effects := pk_effects s @ swept_effects w\<rparr>)"
      using R_effects [of "swept_effects w" "s\<lparr>pk_journal := sw_journal w\<rparr>"] not_start_swept by simp
    ultimately have "R s (s\<lparr>pk_journal := sw_journal w, pk_effects := pk_effects s @ swept_effects w\<rparr>)" by (rule R_trans)
    then show ?thesis by (simp add: w Let_def split: option.split)
  qed
  then show ?thesis unfolding run_sweep_def
    by (intro keeps_seq keeps_query keeps_ask) (simp only: keeps_def, blast)
qed

lemma keeps_sweep [keeps_rules]: "keeps R (run_sweep c d sweep)" "keeps R (run_sweep c d (\<lambda>cx. open_resumes cx bs))"
  by (rule keeps_run_sweep, rule sweep_journal, rule keeps_run_sweep, rule open_resumes_journal)

lemmas sched_journal = journal_rules s_set_ws_state [OF refl] s_adoption_settle [OF refl]

lemma keeps_sched_writes [keeps_rules]:
  "keeps R (adopt_bead c b st rs dt)" "keeps R (unhold_ws c rn)" "keeps R (finish_pickup c p os st rs dt)" "keeps R (vanished c p)"
  "keeps R (publish c wk)" "keeps R (settle_actions c us)" "keeps R (open_pickup c b rf)" "keeps R (gate_new c v now)"
  "keeps R (forget_unlisted c ls)" "keeps R (resolve_claim c p fr)"
  unfolding adopt_bead_def unhold_ws_def finish_pickup_def vanished_def publish_def settle_actions_def open_pickup_def gate_new_def
    forget_unlisted_def resolve_claim_def
  by (intro keeps_rules moves_rules sched_journal | assumption)+

lemma keeps_signals [keeps_rules]: "keeps R (handle_taint c e)" "keeps R (handle_signal c now sg)"
  unfolding handle_taint_def handle_signal_def by (intro keeps_rules moves_rules sched_journal keeps_perform | simp | assumption)+

lemma keeps_drain [keeps_rules]: "keeps R (drain c now xs)"
  by (induction xs) (simp_all only: drain.simps, (intro keeps_rules | assumption)+)

lemma keeps_pickup_steps [keeps_rules]:
  "keeps R (signals c now kept)" "keeps R (pickup_begin c)" "keeps R (place_claimed c p)" "keeps R (make_worktree c p)"
  "keeps R (regate_all c)" "keeps R (convert_row c now v)" "keeps R (convert_quota_rows c)"
  unfolding signals_def pickup_begin_def place_claimed_def make_worktree_def regate_all_def convert_row_def convert_quota_rows_def
  by (intro keeps_rules moves_rules sched_journal keeps_perform | simp | assumption)+

text \<open>The operations recovery replays: none reaches the launch guard.\<close>

lemma keeps_replay_quiet:
  assumes "o_kind (snd p) \<in> {PARK, RELEASE, ESCALATE} \<or> defers p"
  shows "keeps R (replay_sched c p)"
proof -
  have "keeps R (if o_kind (snd p) = PICKUP then seq (replay_pickup c p) (\<lambda>_. skip) else replay (sc_park c) p)"
    using assms
    by (cases "o_kind (snd p)"; simp add: replay_pickup_def replay_def defers_def; auto intro!: keeps_rules)
  then show ?thesis unfolding replay_sched_def by (rule keeps_seq [OF keeps_attempt]) (intro keeps_rules)
qed

lemma keeps_recover_op [keeps_rules]: "keeps R (recover_op c hs p)"
  unfolding recover_op_def by (intro keeps_rules keeps_replay_quiet | assumption)+

lemma keeps_settling [keeps_rules]: "keeps R (settle_orphans c)" "keeps R (settle_adoption_row c b)" "keeps R (escalate_adoption c b dt)"
  unfolding settle_orphans_def settle_adoption_row_def escalate_adoption_def by (intro keeps_rules sched_journal | assumption)+

lemma keeps_settle_adoption [keeps_rules]: "keeps R (settle_adoption c ba)"
  unfolding settle_adoption_def by (intro keeps_rules | assumption)+

lemma keeps_recover_journals [keeps_rules]: "keeps R (recover_journals c)"
  unfolding recover_journals_def by (intro keeps_rules | assumption)+

lemma keeps_run_recovery [keeps_rules]: "keeps R (run_recovery c)"
  unfolding run_recovery_def by (intro keeps_rules | assumption)+

lemma keeps_recover [keeps_rules]: "keeps R (recover c wk)"
  unfolding recover_def by (intro keeps_rules | assumption)+

lemmas keeps_recovery = keeps_recover_op keeps_settling keeps_settle_adoption keeps_recover_journals keeps_run_recovery keeps_recover

end

end
