(* ===== verification/Sched_Props.thy ===== *)
theory Sched_Props
  imports Sched_Rules
begin

text \<open>
  Pickup as a whole: relations that calm and guarded operations keep, and that allow some claims, are kept by
  every operation of the scheduler. Two instances: a generation is launched at most once, and a pickup claims
  only what the queue listed as ready, when nothing runs and nothing is held.
\<close>

named_theorems start_rules \<open>operations of the scheduler that may start work\<close>

lemmas calm_ops = calm_rules calm_acts.keeps_sched_reads calm_acts.keeps_sched_writes calm_acts.keeps_pickup_steps
  calm_acts.keeps_query calm_acts.keeps_queue calm_acts.keeps_sweep calm_acts.keeps_drain calm_acts.keeps_recovery
  calm_acts.keeps_signals calm_acts.keeps_reraise

locale start_relation = effect_relation +
  fixes may_claim :: "bead_id \<Rightarrow> bool"
  assumes R_calm: "calm s t \<Longrightarrow> R s t"
    and R_guarded: "guarded c s t \<Longrightarrow> R s t"
    and R_claim: "may_claim b \<Longrightarrow> R s (s\<lparr>pk_effects := pk_effects s @ [EClaim b]\<rparr>)"
begin

lemma keeps_calm: "keeps calm f \<Longrightarrow> keeps R f"
  by (simp add: keeps_def R_calm)

lemma keeps_guard [start_rules]:
  "keeps R (launch_guard c p fr)" "keeps R (undefer c b rf)" "keeps R (resume c b rf)" "keeps R (replay c p)"
  using launch_guard_guarded [of c p fr] undefer_guarded [of c b rf] resume_guarded [of c b rf] replay_guarded [of c p] R_guarded
  unfolding keeps_def by blast+

lemmas walk = keeps_seq keeps_attempt keeps_cases keeps_exn keeps_sched_cases keeps_answers(5,7,8) calm_ops [THEN keeps_calm]

lemma keeps_start [start_rules]: "keeps R (start c p)"
  unfolding start_def by (rule start_rules walk)+

lemma keeps_replay_pickup [start_rules]: "keeps R (replay_pickup c p)"
  unfolding replay_pickup_def by (rule start_rules walk)+

lemma keeps_claim [start_rules]: "may_claim b \<Longrightarrow> keeps R (claim_bead c b)"
proof -
  assume "may_claim b"
  then have claim: "keeps R (perform (EClaim b))" by (simp add: keeps_def perform_def R_claim)
  show ?thesis unfolding claim_bead_def by (rule claim walk)+
qed

lemma keeps_start_new [start_rules]: "may_claim b \<Longrightarrow> keeps R (start_new c b rf)"
  unfolding start_new_def by (rule start_rules walk | assumption)+

lemma keeps_resume_one [start_rules]: "keeps R (resume_one c rf now v)"
  unfolding resume_one_def by (rule start_rules walk)+

lemma keeps_resume_each [start_rules]: "keeps R (resume_each c rf now ts vs)"
proof (induction vs arbitrary: ts)
  case (Cons v vs)
  show ?case unfolding resume_each.simps by (rule start_rules walk Cons)+
qed (simp only: resume_each.simps, rule walk)

lemma unclaimable_seq:
  "seq (unclaimable c v) g = seq (queue c pw_claimable) (\<lambda>ok. g (if \<not> ok then ''pinned to a btq session no per-bead worker has''
     else if labelled v L_PARKED \<or> labelled v L_HELD then ''unclaimed, but still labelled as parked by wsd'' else []))"
  by (rule ext) (auto simp: unclaimable_def seq_def ret_def split: prod.split sum.split)

lemma keeps_new_one [start_rules]:
  assumes "\<not> labelled v L_PARKED \<Longrightarrow> \<not> labelled v L_HELD \<Longrightarrow> may_claim (bd_id v)"
  shows "keeps R (new_one c rf now v)"
proof (cases "labelled v L_PARKED \<or> labelled v L_HELD")
  case True
  have block: "keeps R (seq (unclaimable c v) (\<lambda>why. if why \<noteq> [] then seq (adopt_bead c (bd_id v) STUCK (Some UNCLAIMABLE) why)
      (\<lambda>_. ret (None, True, [])) else g))" for g :: "(pickup_outcome option \<times> bool \<times> int list) act"
    unfolding unclaimable_seq using True by (intro keeps_seq) (simp_all add: calm_ops keeps_calm keeps_seq)
  show ?thesis unfolding new_one_def
    by (rule keeps_seq, rule walk, rule keeps_cases(1), rule walk, rule block)
next
  case False
  with assms have new: "keeps R (start_new c (bd_id v) rf)" by (blast intro: keeps_start_new)
  show ?thesis unfolding new_one_def by (rule new walk)+
qed

lemma keeps_new_each [start_rules]:
  assumes "\<And>v. v \<in> set vs \<Longrightarrow> \<not> labelled v L_PARKED \<Longrightarrow> \<not> labelled v L_HELD \<Longrightarrow> may_claim (bd_id v)"
  shows "keeps R (new_each c rf now any ts vs)"
  using assms
proof (induction vs arbitrary: any ts)
  case (Cons v vs)
  have "keeps R (new_each c rf now any ts vs)" for any ts by (rule Cons.IH) (use Cons.prems in auto)
  moreover have "keeps R (new_one c rf now v)" by (rule keeps_new_one) (use Cons.prems in auto)
  ultimately show ?case unfolding new_each.simps by (intro keeps_seq keeps_cases) (simp_all add: calm_ops keeps_calm)
qed (simp only: new_each.simps, rule walk)

lemma keeps_candidates [start_rules]:
  assumes "\<And>b. may_claim b"
  shows "keeps R (candidates c rf now)"
proof -
  have new: "keeps R (new_each c rf now any ts vs)" for any ts vs by (rule keeps_new_each) (rule assms)
  show ?thesis unfolding candidates_def by (rule new start_rules walk)+
qed

lemma keeps_replay_sched [start_rules]: "keeps R (replay_sched c p)"
  unfolding replay_sched_def by (rule start_rules walk)+

lemma keeps_reconcile_all [start_rules]: "keeps R (reconcile_all c)"
  unfolding reconcile_all_def by (rule keeps_each start_rules walk)+

lemma keeps_pickup:
  assumes "\<And>b. may_claim b"
  shows "keeps R (pickup c rf kept)"
proof -
  have work: "keeps R (pickup_work c rf now)" for now
    unfolding pickup_work_def by (rule keeps_candidates [OF assms] walk)+
  have rest: "keeps R (pickup_rest c rf now d)" for now d
    unfolding pickup_rest_def by (rule work start_rules walk)+
  have "keeps R (pickup_pass c rf kept)"
    unfolding pickup_pass_def by (rule rest walk)+
  then show ?thesis unfolding pickup_def by (rule keeps_seq) (rule walk)+
qed

end

end
