(* ===== verification/Park_Runs.thy ===== *)
theory Park_Runs
  imports Park_Props
begin

text \<open>
  Calls of the parker, each with any settings and any behaviour of the world (a crash at any checkpoint
  included): when one launches, what it launches, and what a started launch leaves.
\<close>

section \<open>Runs of the daemon\<close>

text \<open>The calls other modules make of the parker.\<close>

datatype park_call = CLaunch op "session_record option" | CPark bead_id "bead_id list" string bool "string option"
  | CDefer bead_id string "int option" string "string option" | CLimit session_key generation "hint option" int
  | CUndefer bead_id "string option" | CRegate bead_id "op option" | CResume bead_id "string option"
  | CRelease bead_id "string option" | CEscalate bead_id Reason string | CReplay op

definition run_call :: "park_context \<Rightarrow> park_call \<Rightarrow> unit act" where
  "run_call c k = (case k of
     CLaunch p fr \<Rightarrow> seq (launch_guard c p fr) (\<lambda>_. skip)
   | CPark b bs why held ref \<Rightarrow> seq (park c b bs why held ref) (\<lambda>_. skip)
   | CDefer b why t trust ref \<Rightarrow> seq (defer_bead c b why t trust ref) (\<lambda>_. skip)
   | CLimit key n h now \<Rightarrow> seq (limit_report c key n h now) (\<lambda>_. skip)
   | CUndefer b ref \<Rightarrow> seq (undefer c b ref) (\<lambda>_. skip)
   | CRegate b within_ \<Rightarrow> seq (regate c b within_) (\<lambda>_. skip)
   | CResume b ref \<Rightarrow> seq (resume c b ref) (\<lambda>_. skip)
   | CRelease b ref \<Rightarrow> seq (release c b ref) (\<lambda>_. skip)
   | CEscalate b reason detail \<Rightarrow> escalate_bead c b reason detail
   | CReplay p \<Rightarrow> replay c p)"

lemma run_call_guarded: "keeps (guarded c) (run_call c k)"
proof -
  have g: "keeps (guarded c) (seq f (\<lambda>_. skip))" if "keeps (guarded c) f" for f :: "'a act"
    using that by (rule guarded_then) (rule calm_rules)
  show ?thesis unfolding run_call_def
    by (cases k; simp; (rule g guarded_rules calm_rules [THEN keeps_guarded] calm_acts.keeps_escalation [THEN keeps_guarded])+)
qed

section \<open>A concrete launch\<close>

text \<open>
  A bead whose resume has pinned its first generation; the world lists no session and the runtime starts it.
\<close>

definition ex_entry :: "string option \<Rightarrow> string option \<Rightarrow> launch_entry" where
  "ex_entry d out = (example_entry 1)\<lparr>le_dispatched_at := d, le_outcome := out\<rparr>"

definition ex_record :: session_record where
  "ex_record = \<lparr>sr_role = ''coder'', sr_profile = ''p'', sr_session_key = ''k'', sr_repo = ''default'', sr_worktree = ''/w''\<rparr>"

definition ex_shown :: "nat \<Rightarrow> bead" where
  "ex_shown n = \<lparr>bd_id = ''b'', bd_status = ''in_progress'', bd_labels = [], bd_record = RecordOf ex_record, bd_thread = None,
     bd_launches = MetaStr (if n < 17 then ''e0'' else if n < 25 then ''e1'' else ''e2''), bd_repo = Absent, bd_deps = []\<rparr>"

definition ex_world :: world where
  "ex_world = \<lparr>wd_crash = (\<lambda>n. False), wd_now = (\<lambda>n. ''t1''), wd_clock = (\<lambda>n. 1000), wd_new_id = (\<lambda>n. ''o2''),
     wd_show = (\<lambda>n. Some (ex_shown n)), wd_comments = (\<lambda>n. Some []), wd_owned = (\<lambda>n. OwnedOk), wd_bd = (\<lambda>n. True),
     wd_validate = (\<lambda>n. Validated (ex_shown n)), wd_claim = (\<lambda>n. Some ClaimOurs), wd_worktree = (\<lambda>n. None),
     wd_worktree_fails = (\<lambda>n. False), wd_commit = (\<lambda>n. Inr ''sha''), wd_available = (\<lambda>n. True), wd_sessions = (\<lambda>n. Inr []),
     wd_stop = (\<lambda>n. None), wd_ended = (\<lambda>n. Inr None),
     wd_launch = (\<lambda>n. Started \<lparr>st_tmux_session = ''s'', st_tmux_pane = ''0'', st_pane_pid = 7, st_native_id = None\<rparr>),
     wd_selection = (\<lambda>n. Inr None), wd_read = (\<lambda>n. None), wd_login_key = (\<lambda>n a b d. Inr ''c''), wd_login_resolves = (\<lambda>n. True),
     wd_resolve = (\<lambda>n x. x)\<rparr>"

definition ex_accounts :: configured_accounts where
  "ex_accounts = \<lparr>ac_profiles = [(''p'', \<lparr>pa_adapter = ''claude-code'', pa_accounts = [], pa_failover = FailoverNone\<rparr>)],
     ac_named = [], ac_capabilities = []\<rparr>"

definition ex_context :: park_context where
  "ex_context = \<lparr>pc_ws = ''w'', pc_world = ex_world, pc_accounts = Some ex_accounts, pc_usage = default_usage,
     pc_launch_failures = 3, pc_park_attempts = 3, pc_models = [], pc_repos = [], pc_coder_role = ''coder'', pc_coder_profile = ''p'',
     pc_profiles = [''p''], pc_uuid5 = (\<lambda>x. x), pc_encode = (\<lambda>e. []), pc_decode_raws = (\<lambda>r. Some [r]),
     pc_decode_entry = (\<lambda>r. Some (if r = ''e0'' then ex_entry None None else if r = ''e1'' then ex_entry (Some ''t1'') None
        else ex_entry (Some ''t1'') (Some LAUNCHED))),
     pc_decode_end = (\<lambda>r. None), pc_adoption_adapter = (\<lambda>r. None), pc_configured = (\<lambda>a b. True), pc_error_text = (\<lambda>e. [])\<rparr>"

definition ex_op :: op where
  "ex_op = (''o1'', \<lparr>o_kind = RESUME, o_ws = ''w'', o_bead = ''b'', o_step = ''entry'', o_data = [(''generation'', ''1'')],
     o_attempts = 0, o_status = OP_OPEN, o_created_at = ''t0'', o_updated_at = ''t0''\<rparr>)"

definition ex_journal :: journal where
  "ex_journal = (fresh_journal ''t0'')\<lparr>j_ops := [ex_op], j_launches := [((''k'', 1), (ex_entry None None, None))],
     j_beads := [((''w'', ''b''), \<lparr>b_state = RESUMING, b_reason = None, b_detail = [], b_since = ''t0''\<rparr>)]\<rparr>"

definition ex_start :: park_state where
  "ex_start = \<lparr>pk_journal = ex_journal, pk_tick = 0, pk_effects = []\<rparr>"

definition ex_spec :: launch_spec where
  "ex_spec = \<lparr>sp_ws = ''w'', sp_bead = ''b'', sp_role = ''coder'', sp_profile = ''p'', sp_session_key = ''k'',
     sp_worktree = ''/w'', sp_resume = True, sp_ref = None, sp_generation = 1, sp_native_id = Some ''k'',
     sp_account = ''default'', sp_credential_key = ''c'', sp_handoff = False, sp_model = ''m'', sp_repo = ''default'',
     sp_install = [], sp_install_digest = []\<rparr>"

definition ex_after :: park_state where
  "ex_after = snd (run_call ex_context (CLaunch ex_op None) ex_start)"

lemma ex_launched: "launch_calls ex_after = [ex_spec]"
  by code_simp

lemma ex_wf: "journal_wf ex_journal"
proof -
  have "show_int 0 = ''0''"
    by code_simp
  then show ?thesis
    by (auto simp: journal_wf_def tables_keyed_def events_wf_def ops_wf_def inbox_wf_def launches_wf_def
        receipts_wf_def seq_wf_def ex_journal_def fresh_journal_def keyed_def SEQ_KEY_def sqlite_max_def ident_def
        ex_entry_def example_entry_def ex_op_def launch_row_check_def outcome_check_def intro!: exI [of _ 0])
qed

section \<open>One call\<close>

text \<open>
  C6. A call of the launch guard for an operation launches at most one session, and all its writes are the
  journal's own. When it launches, the launch's entry was in the journal at some point of the call with neither
  an outcome nor a dispatch, and the quota gate admitted it on that journal: with the daemon's configured
  accounts and usage settings, the clock read then and the logins read just after it, against the session's last
  credential key, and with the stale keys of the operation (as passed, or as the journal's row of it then
  stood) excluded. The runtime is called with the entry's account, credential key, model and install, and after
  the call the journal holds the entry with its dispatch.
\<close>

theorem launch_only_as_pinned:
  assumes "launch_guard c p fresh s = (r, t)" and "journal_wf (pk_journal s)"
  shows "jstep\<^sup>*\<^sup>* (pk_journal s) (pk_journal t) \<and>
    (launch_calls t = launch_calls s \<or>
     (\<exists>sp e n j e'. launch_calls t = launch_calls s @ [sp] \<and> pinned_to sp e \<and>
        jstep\<^sup>*\<^sup>* (pk_journal s) j \<and> jstep\<^sup>*\<^sup>* j (pk_journal t) \<and>
        launch (sp_session_key sp) (sp_generation sp) j = Some e \<and> le_dispatched_at e = None \<and> le_outcome e = None \<and>
        pk_tick s \<le> n \<and> n + 2 \<le> pk_tick t \<and> admitted_now c p n e j \<and>
        launch (sp_session_key sp) (sp_generation sp) (pk_journal t) = Some e' \<and> le_dispatched_at e' \<noteq> None))"
proof -
  have "calm s t \<or> launched_by c p s t"
    using keepsD [OF launch_guard_guarded_by assms(1)] assms(2) by (auto simp: guarded_by_def)
  then show ?thesis
  proof
    assume "calm s t"
    then show ?thesis by (simp add: calm_def)
  next
    assume "launched_by c p s t"
    then show ?thesis
    proof (rule launched_byE)
      fix e n j sp e'
      assume l: "jstep\<^sup>*\<^sup>* (pk_journal s) j" "stored e j" "le_dispatched_at e = None" "le_outcome e = None"
        "admitted_now c p n e j" "pk_tick s \<le> n" "n + 2 \<le> pk_tick t" "launch_calls t = launch_calls s @ [sp]"
        "pinned_to sp e" "jstep\<^sup>*\<^sup>* j (pk_journal t)"
        "launch (le_session_key e) (le_generation e) (pk_journal t) = Some e'" "le_dispatched_at e' \<noteq> None"
      have key: "sp_session_key sp = le_session_key e" "sp_generation sp = le_generation e" using l(9) by (simp_all add: pinned_to_def)
      show ?thesis
        by (rule conjI [OF rtranclp_trans [OF l(1,10)]], rule disjI2, rule exI [of _ sp], rule exI [of _ e],
            rule exI [of _ n], rule exI [of _ j], rule exI [of _ e'])
          (use l key in \<open>simp add: stored_def\<close>)
    qed
  qed
qed

theorem launch_only_as_pinned_witness:
  "journal_wf (pk_journal ex_start) \<and> launch_calls ex_after = [ex_spec] \<and>
   (\<exists>e n j. pinned_to ex_spec e \<and> jstep\<^sup>*\<^sup>* ex_journal j \<and> launch ''k'' 1 j = Some e \<and> le_dispatched_at e = None \<and>
      admitted_now ex_context ex_op n e j)"
proof -
  have wf: "journal_wf (pk_journal ex_start)" by (simp add: ex_start_def ex_wf)
  have no: "launch_calls ex_start = []" by code_simp
  have key: "sp_session_key ex_spec = ''k''" "sp_generation ex_spec = 1" by (simp_all add: ex_spec_def)
  have "launch_guard ex_context ex_op None ex_start = (fst (launch_guard ex_context ex_op None ex_start), ex_after)"
    by (simp add: ex_after_def run_call_def seq_def skip_def ret_def prod_eq_iff split: prod.split sum.split)
  from launch_only_as_pinned [OF this wf] ex_launched no
  obtain e n j where "pinned_to ex_spec e" "jstep\<^sup>*\<^sup>* (pk_journal ex_start) j" "launch ''k'' 1 j = Some e"
    "le_dispatched_at e = None" "admitted_now ex_context ex_op n e j"
    by (auto simp: key)
  then show ?thesis using wf ex_launched by (auto simp: ex_start_def)
qed

section \<open>When the guard launches\<close>

lemma guard_launch_busy: "own \<noteq> [] \<Longrightarrow> keeps calm (guard_launch c p rec v wt ac own)"
  unfolding guard_launch_def
  by (rule keeps_cases calm_walk | simp)+

lemma guard_bead_busy:
  assumes "own \<noteq> []"
  shows "keeps calm (guard_bead c p fr own)"
proof -
  have 1: "keeps calm (guard_accounts c p rec v wt own)" for rec v wt
    unfolding guard_accounts_def by (rule guard_launch_busy [OF assms] keeps_cases calm_walk)+
  have 2: "keeps calm (guard_runnable c p rec v own)" for rec v
    unfolding guard_runnable_def by (rule 1 keeps_cases keeps_exn calm_walk)+
  show ?thesis unfolding guard_bead_def by (rule 2 keeps_cases keeps_exn calm_walk)+
qed

lemma calm_not_launched:
  "keeps calm f \<Longrightarrow> f s = (r, t) \<Longrightarrow> launch_calls t = launch_calls s"
  by (drule (1) keepsD) (simp add: calm_def)

lemma listed_idle:
  assumes tail: "seq (attempt (sessions c)) (\<lambda>r. case r of
        Inl (XRuntimeUnavailable why) \<Rightarrow> seq (hold_ws c RUNTIME_UNAVAILABLE why) (\<lambda>_. ret GWait)
      | Inl e \<Rightarrow> raise e
      | Inr listed \<Rightarrow> if list_ex (\<lambda>se. rs_bead se \<noteq> op_bead p) listed then ret GWait else guard_bead c p fresh listed) s = (r, t)"
    and launched: "launch_calls t \<noteq> launch_calls s"
  shows "wd_sessions (pc_world c) (pk_tick s) = Inr []"
proof (rule ccontr)
  let ?u = "s\<lparr>pk_tick := Suc (pk_tick s)\<rparr>"
  assume busy: "\<not> ?thesis"
  show False
  proof (cases "wd_sessions (pc_world c) (pk_tick s)")
    case (Inl why)
    with tail have "seq (hold_ws c RUNTIME_UNAVAILABLE why) (\<lambda>_. ret GWait) ?u = (r, t)"
      by (simp add: seq_def [of "attempt f" for f] attempt_def sessions_def seq_def [of "ask c wd_sessions"] ask_def raise_def)
    then have "launch_calls t = launch_calls ?u" by (rule calm_not_launched [rotated]) (rule calm_walk)+
    then show False using launched by simp
  next
    case (Inr listed)
    with tail have "(if list_ex (\<lambda>se. rs_bead se \<noteq> op_bead p) listed then ret GWait else guard_bead c p fresh listed) ?u = (r, t)"
      by (simp add: seq_def [of "attempt f" for f] attempt_def sessions_def seq_def [of "ask c wd_sessions"] ask_def ret_def)
    then have "launch_calls t = launch_calls ?u"
      by (rule calm_not_launched [rotated]) (rule keeps_cases calm_walk guard_bead_busy | use busy Inr in simp)+
    then show False using launched by simp
  qed
qed

text \<open>
  C7. The launch guard calls the runtime only when the operation has attempts left, the runtime is available, no
  hold of the workstream stands but an uncertain launch of this very bead, and the runtime listed no session
  at all: never beside a session that is running or cannot be confirmed.
\<close>

theorem launch_only_when_idle:
  assumes "launch_guard c p fresh s = (r, t)" and "launch_calls t \<noteq> launch_calls s"
  shows "o_attempts (snd p) < pc_launch_failures c \<and> wd_available (pc_world c) (pk_tick s) \<and>
    list_all (\<lambda>(reason, held). reason = LAUNCH_UNCERTAIN \<and> held = op_bead p) (holds (pc_ws c) (pk_journal s)) \<and>
    wd_sessions (pc_world c) (Suc (pk_tick s)) = Inr []"
proof -
  let ?u = "s\<lparr>pk_tick := Suc (pk_tick s)\<rparr>"
  have att: "o_attempts (snd p) < pc_launch_failures c"
  proof (rule ccontr)
    assume "\<not> ?thesis"
    with assms(1) have "ended_with c p LAUNCH_FAILED (''the launch'' @ [CHR 0x27] @ ''s attempts are spent'') s = (r, t)"
      by (simp add: launch_guard_def)
    then show False using calm_not_launched [OF calm_acts.keeps_outcome(1)] assms(2) by blast
  qed
  have up: "wd_available (pc_world c) (pk_tick s)"
  proof (rule ccontr)
    assume "\<not> ?thesis"
    with assms(1) att have "seq (hold_ws c RUNTIME_UNAVAILABLE []) (\<lambda>_. ret GWait) ?u = (r, t)"
      by (simp add: launch_guard_def seq_def [of "ask c wd_available"] ask_def)
    then have "launch_calls t = launch_calls ?u" by (rule calm_not_launched [rotated]) (rule calm_walk)+
    then show False using assms(2) by simp
  qed
  have free: "\<not> list_ex (\<lambda>(reason, held). reason \<notin> GUARD_SETTLES \<or> held \<noteq> op_bead p) (holds (pc_ws c) (pk_journal s))"
    using assms att up
    by (auto simp: launch_guard_def seq_def [of "ask c wd_available"] seq_def [of "look f" for f] ask_def look_def)
  with assms(1) att up have "wd_sessions (pc_world c) (pk_tick ?u) = Inr []"
    by (intro listed_idle [where t = t and p = p])
      (simp_all add: launch_guard_def seq_def [of "ask c wd_available"] seq_def [of "look f" for f] ask_def look_def assms(2))
  then show ?thesis using att up free by (auto simp: list_ex_iff list_all_iff GUARD_SETTLES_def)
qed

theorem launch_only_when_idle_witness:
  "launch_calls (snd (launch_guard ex_context ex_op None ex_start)) \<noteq> launch_calls ex_start \<and>
   wd_sessions ex_world 1 = Inr []"
proof -
  have l: "launch_calls (snd (launch_guard ex_context ex_op None ex_start)) \<noteq> launch_calls ex_start" by code_simp
  show ?thesis using launch_only_when_idle [OF prod.collapse [symmetric] l] l by (simp add: ex_context_def ex_start_def)
qed

section \<open>What a started launch leaves\<close>

lemma jtry_Inr: "jtry c f s = (Inr x, t) \<Longrightarrow> \<exists>ts. f ts (pk_journal s) = Inr (pk_journal t)"
  unfolding jtry_def by (drule jact_Inr) (auto simp: bind_result_eq_Inr)

lemma launch_set_holds:
  assumes "launch_set key gen name v j = Inr (x, j')" "set_once_of name = Some f"
  shows "launch key gen j' = Some x \<and> get_once f x = Some v"
  using assms launch_put_lookup [of key gen j] by (auto simp: launch_set_def split: option.split_asm if_split_asm)

text \<open>The outcome a step reads on the entry stays.\<close>

lemma outcome_stays:
  assumes "jstep\<^sup>*\<^sup>* j k" "launch key gen j = Some e" "le_outcome e = Some v"
  shows "\<exists>e'. launch key gen k = Some e' \<and> le_outcome e' = Some v"
proof -
  obtain e' where "launch key gen k = Some e'" "mergeable e e'" by (rule launch_evolves [OF assms(1,2)])
  then show ?thesis using mergeable_get [of e e' F_outcome v] assms(3) by simp
qed

lemma settle_entry_outcome:
  assumes "settle_entry c e r s = (Inr x, t)" "rc_kind r = ''started''"
  shows "\<exists>e'. launch (le_session_key e) (le_generation e) (pk_journal t) = Some e' \<and> le_outcome e' = Some LAUNCHED"
proof -
  have f: "set_once_of ''outcome'' = Some F_outcome" by code_simp
  from assms obtain y u v w where p: "put_field c e ''outcome'' LAUNCHED s = (Inr y, u)"
    and q: "(case truthy (rc_native_id r) of None \<Rightarrow> ret y | Some nat_id \<Rightarrow> put_field c y ''native_id'' nat_id) u = (Inr x, v)"
    and rest: "cp c v = (Inr (), w)" "bead_write c x w = (Inr (), t)"
    by (auto simp: settle_entry_def elim!: seqE)
  from jact_Inr [OF p [unfolded put_field_def]] launch_set_holds [OF _ f]
  have y: "launch (le_session_key e) (le_generation e) (pk_journal u) = Some y" "le_outcome y = Some LAUNCHED" by auto
  have "keeps calm (case truthy (rc_native_id r) of None \<Rightarrow> ret y | Some nat_id \<Rightarrow> put_field c y ''native_id'' nat_id)"
    by (rule keeps_cases calm_rules)+
  then have "jstep\<^sup>*\<^sup>* (pk_journal u) (pk_journal v)" using q by (auto dest: keepsD simp: calm_def)
  then show ?thesis using outcome_stays [OF _ y] still_cp [OF rest(1)] still_bead_write [OF rest(2)] by simp
qed

lemma op_finish_closed:
  "op_finish ts i st j = Inr j' \<Longrightarrow> map_of (j_ops j') i = Some row \<Longrightarrow> o_status row \<noteq> OP_OPEN"
  by (auto simp: op_finish_def op_put_def update_conv split: if_split_asm option.split_asm)

lemma unhold_ops: "j_ops (unhold ts ws r j) = j_ops j"
  by (simp add: unhold_def emit_def Let_def)

lemma settle_hold_ops: "settle_hold c b s = (Inr x, t) \<Longrightarrow> j_ops (pk_journal t) = j_ops (pk_journal s)"
  by (auto simp: settle_hold_def jwrite_def dest!: jact_Inr elim!: seqE split: if_split_asm) (metis unhold_ops)

lemma set_state_ops: "set_state ts ws b st re d rf j = Inr j' \<Longrightarrow> j_ops j' = j_ops j"
  by (drule set_state_put) (simp add: put_state_def emit_def Let_def split: option.split)

lemma finish_done:
  assumes "finish c p st (Some (x, re, d)) s = (Inr (), t)"
  shows "map_option b_state (state (pc_ws c) (op_bead p) (pk_journal t)) = Some x"
    and "map_of (j_ops (pk_journal t)) (fst p) = Some row \<Longrightarrow> o_status row \<noteq> OP_OPEN"
proof -
  from assms obtain u v where o: "end_op c p st s = (Inr (), u)" and h: "settle_hold c (op_bead p) u = (Inr (), v)"
    and b: "set_bead c (op_bead p) x re d (ref_of p) v = (Inr (), t)"
    by (auto simp: finish_def elim!: seqE)
  obtain ts where set: "set_state ts (pc_ws c) (op_bead p) x re d (ref_of p) (pk_journal v) = Inr (pk_journal t)"
    using jtry_Inr [OF b [unfolded set_bead_def]] by blast
  show "map_option b_state (state (pc_ws c) (op_bead p) (pk_journal t)) = Some x"
    using set by (rule set_state_state)
  assume "map_of (j_ops (pk_journal t)) (fst p) = Some row"
  then show "o_status row \<noteq> OP_OPEN"
    using jtry_Inr [OF o [unfolded end_op_def]] op_finish_closed set_state_ops [OF set] settle_hold_ops [OF h] by metis
qed

lemma not_started:
  "ended_with c p re why s \<noteq> (Inr GStarted, t)" "no_receipt c p n s \<noteq> (Inr GStarted, t)" "stale_refusal c p e s \<noteq> (Inr GStarted, t)"
  by (auto simp: ended_with_def no_receipt_def stale_refusal_def Let_def elim!: seqE
      split: option.split_asm sum.split_asm decision.split_asm)

text \<open>
  C8. When the guard reports a launch as started, the journal says so in every part: the generation has a
  started receipt, its entry the outcome \<^verbatim>\<open>launched\<close>, its operation is no longer open and its bead is RUNNING.
\<close>

theorem outcome_started:
  assumes "outcome c p e s = (Inr GStarted, t)"
  shows "(\<exists>r. receipt_for e (pk_journal t) = Some r \<and> rc_kind r = ''started'') \<and>
    (\<exists>x. launch (le_session_key e) (le_generation e) (pk_journal t) = Some x \<and> le_outcome x = Some LAUNCHED) \<and>
    (\<forall>row. map_of (j_ops (pk_journal t)) (fst p) = Some row \<longrightarrow> o_status row \<noteq> OP_OPEN) \<and>
    map_option b_state (state (pc_ws c) (op_bead p) (pk_journal t)) = Some RUNNING"
proof -
  have j: "jstep\<^sup>*\<^sup>* (pk_journal s) (pk_journal t)"
    using keepsD [OF calm_acts.keeps_outcome(6) assms] by (simp add: calm_def)
  from assms obtain r x u v where r: "receipt_for e (pk_journal s) = Some r" "rc_kind r = ''started''"
    and x: "settle_entry c e r s = (Inr x, u)"
    and f: "finish c p OP_DONE (Some (RUNNING, None, [])) u = (Inr (), v)" and cp: "cp c v = (Inr (), t)"
    by (auto simp: outcome_def not_started elim!: seqE split: option.split_asm if_split_asm)
  have "receipt_for e (pk_journal t) = Some r"
    using table_evolvesD [OF receipt_hist.run_le [OF j]] r(1) by (force simp: receipt_for_def receipt_of_def)
  moreover have uv: "jstep\<^sup>*\<^sup>* (pk_journal u) (pk_journal v)"
    using keepsD [OF calm_acts.keeps_finish(1) f] by (simp add: calm_def)
  ultimately show ?thesis
    using r(2) settle_entry_outcome [OF x r(2)] outcome_stays [OF uv] finish_done [OF f] still_cp [OF cp] by auto
qed

text \<open>A dispatched generation with its receipt, as a crash before the outcome leaves it.\<close>

definition ex_receipted :: park_state where
  "ex_receipted = ex_start\<lparr>pk_tick := 25, pk_journal := ex_journal\<lparr>
     j_launches := [((''k'', 1), (ex_entry (Some ''t1'') None, None))],
     j_receipts := [((''k'', 1), (start_receipt (ex_entry None None)
        \<lparr>st_tmux_session = ''s'', st_tmux_pane = ''0'', st_pane_pid = 7, st_native_id = None\<rparr>, ''t1''))]\<rparr>\<rparr>"

theorem outcome_started_witness:
  "map_option b_state (state ''w'' ''b'' (pk_journal (snd (outcome ex_context ex_op (ex_entry (Some ''t1'') None) ex_receipted)))) =
     Some RUNNING"
proof -
  have "fst (outcome ex_context ex_op (ex_entry (Some ''t1'') None) ex_receipted) = Inr GStarted" by code_simp
  then have "outcome ex_context ex_op (ex_entry (Some ''t1'') None) ex_receipted =
      (Inr GStarted, snd (outcome ex_context ex_op (ex_entry (Some ''t1'') None) ex_receipted))"
    by (simp add: prod_eq_iff)
  from outcome_started [OF this] show ?thesis by (simp add: ex_context_def ex_op_def op_bead_def)
qed

end
