(* ===== verification/Daemon_Runs.thy ===== *)
theory Daemon_Runs
  imports Sched_Props Park_Runs
begin

text \<open>
  Runs of the workstream daemon. Over every run a launch generation is launched at most once, and only as its
  journal entry pinned it.
\<close>

section \<open>Any run\<close>

text \<open>
  A run: pickups, recoveries, re-gates and the operator's calls of the parker, each with any settings and any
  behaviour of the world, interleaved with any other journal call.
\<close>

inductive daemon_step :: "park_state \<Rightarrow> park_state \<Rightarrow> bool" where
  d_pickup: "pickup sc ref kept s = (r, t) \<Longrightarrow> daemon_step s t"
| d_recover: "recover sc wake s = (x, t) \<Longrightarrow> daemon_step s t"
| d_regate: "regate_all sc s = (y, t) \<Longrightarrow> daemon_step s t"
| d_call: "run_call c k s = (z, t) \<Longrightarrow> daemon_step s t"
| d_journal: "jstep (pk_journal s) j \<Longrightarrow> daemon_step s (s\<lparr>pk_journal := j\<rparr>)"

definition spec_ident :: "launch_spec \<Rightarrow> session_key \<times> generation" where
  "spec_ident sp = (sp_session_key sp, sp_generation sp)"

definition dispatched_as :: "journal \<Rightarrow> launch_spec \<Rightarrow> bool" where
  "dispatched_as j sp \<longleftrightarrow> (\<exists>e. launch (sp_session_key sp) (sp_generation sp) j = Some e \<and>
     le_dispatched_at e \<noteq> None \<and> pinned_to sp e)"

definition launches_once :: "park_state \<Rightarrow> bool" where
  "launches_once s \<longleftrightarrow> journal_wf (pk_journal s) \<and> distinct (map spec_ident (launch_calls s)) \<and>
     (\<forall>sp \<in> set (launch_calls s). dispatched_as (pk_journal s) sp)"

lemma pinned_to_mergeable: "mergeable e e' \<Longrightarrow> pinned_to sp e = pinned_to sp e'"
  by (auto simp: mergeable_def pinned_to_def)

lemma dispatched_as_run:
  assumes "jstep\<^sup>*\<^sup>* j k" "dispatched_as j sp"
  shows "dispatched_as k sp"
proof -
  from assms(2) obtain e where e: "launch (sp_session_key sp) (sp_generation sp) j = Some e" "le_dispatched_at e \<noteq> None"
    "pinned_to sp e" by (auto simp: dispatched_as_def)
  obtain e' where "launch (sp_session_key sp) (sp_generation sp) k = Some e'" "mergeable e e'"
    by (rule launch_evolves [OF assms(1) e(1)])
  then show ?thesis using dispatched_stays [OF assms(1) e(1,2)] e(3) pinned_to_mergeable by (auto simp: dispatched_as_def)
qed

lemma calm_launches_once: "calm s t \<Longrightarrow> launches_once s \<Longrightarrow> launches_once t"
  unfolding launches_once_def using calm_wf dispatched_as_run by (auto simp: calm_def)

lemma launched_by_once:
  assumes "launched_by c p s t" "launches_once s"
  shows "launches_once t"
proof -
  obtain e n j sp e' where l: "jstep\<^sup>*\<^sup>* (pk_journal s) j" "stored e j" "le_dispatched_at e = None"
     "launch_calls t = launch_calls s @ [sp]" "pinned_to sp e" "jstep\<^sup>*\<^sup>* j (pk_journal t)"
     "launch (le_session_key e) (le_generation e) (pk_journal t) = Some e'" "le_dispatched_at e' \<noteq> None"
    using assms(1) by (rule launched_byE) (rule that)
  have id: "sp_session_key sp = le_session_key e" "sp_generation sp = le_generation e" using l(5) by (auto simp: pinned_to_def)
  have run: "jstep\<^sup>*\<^sup>* (pk_journal s) (pk_journal t)" using l(1,6) by simp
  have "spec_ident sp \<notin> spec_ident ` set (launch_calls s)"
  proof
    assume "spec_ident sp \<in> spec_ident ` set (launch_calls s)"
    then obtain x where x: "x \<in> set (launch_calls s)" "spec_ident x = spec_ident sp" by force
    then have "dispatched_as j x" using assms(2) dispatched_as_run [OF l(1)] by (simp add: launches_once_def)
    with x(2) l(2,3) show False by (simp add: dispatched_as_def spec_ident_def stored_def id)
  qed
  moreover have "dispatched_as (pk_journal t) sp"
  proof -
    obtain e'' where "launch (le_session_key e) (le_generation e) (pk_journal t) = Some e''" "mergeable e e''"
      using l(2) unfolding stored_def by (rule launch_evolves [OF l(6)])
    then show ?thesis using l(5,7,8) pinned_to_mergeable by (simp add: dispatched_as_def id)
  qed
  moreover have "journal_wf (pk_journal t)"
    using journal_inv.run_invar [OF run] assms(2) by (simp add: launches_once_def)
  ultimately show ?thesis
    using assms(2) dispatched_as_run [OF run] by (auto simp: launches_once_def l(4))
qed

definition once :: "park_state \<Rightarrow> park_state \<Rightarrow> bool" where
  "once s t \<longleftrightarrow> (launches_once s \<longrightarrow> launches_once t)"

lemma guarded_once: "guarded c s t \<Longrightarrow> once s t"
  unfolding once_def guarded_by_def using calm_launches_once launched_by_once by (auto simp: launches_once_def)

lemma launches_once_cong: "pk_journal t = pk_journal s \<Longrightarrow> launch_calls t = launch_calls s \<Longrightarrow> launches_once t = launches_once s"
  by (simp add: launches_once_def)

interpretation once_acts: start_relation once "\<lambda>b. True"
proof unfold_locales
  fix s t :: park_state and e n b c
  show "once s s" by (simp add: once_def)
  show "once s (s\<lparr>pk_tick := n\<rparr>)" using launches_once_cong [of "s\<lparr>pk_tick := n\<rparr>" s] by (simp add: once_def)
  show "once s (s\<lparr>pk_effects := pk_effects s @ [e]\<rparr>)" if "\<not> is_start e"
    using launches_once_cong [of "s\<lparr>pk_effects := pk_effects s @ [e]\<rparr>" s] starts_other [OF that] by (simp add: once_def launch_calls_def)
  show "once s (s\<lparr>pk_effects := pk_effects s @ [EClaim b]\<rparr>)"
    using launches_once_cong [of "s\<lparr>pk_effects := pk_effects s @ [EClaim b]\<rparr>" s] by (simp add: once_def launch_calls_def)
  show "once s t" if "calm s t" using that calm_launches_once by (simp add: once_def)
  show "once s t" if "guarded c s t" using that by (rule guarded_once)
next
  fix s t u
  show "once s t \<Longrightarrow> once t u \<Longrightarrow> once s u" by (simp add: once_def)
qed

lemma daemon_step_once: "daemon_step s t \<Longrightarrow> once s t"
proof (induction rule: daemon_step.cases)
  case (d_pickup sc ref kept s r t)
  then show ?case using keepsD [OF once_acts.keeps_pickup] by simp
next
  case (d_recover sc wake s x t)
  then show ?case using keepsD [OF once_acts.keeps_calm [OF calm_acts.keeps_recovery(8)]] by simp
next
  case (d_regate sc s y t)
  then show ?case using keepsD [OF once_acts.keeps_calm [OF calm_acts.keeps_pickup_steps(5)]] by simp
next
  case (d_call c k s z t)
  then show ?case using guarded_once [OF keepsD [OF run_call_guarded]] by simp
next
  case (d_journal u j)
  then have "calm s t" by (simp add: calm_def r_into_rtranclp)
  then show ?case unfolding once_def by (blast intro: calm_launches_once)
qed

interpretation daemon_inv: step_invariant daemon_step launches_once
  by unfold_locales (use daemon_step_once in \<open>simp add: once_def\<close>)

text \<open>
  C3. Over any run of pickups, recoveries, operator calls and other journal calls, whatever the queue, the
  runtime, git, the clock and crashes do, no session generation is launched twice, and every launch the
  runtime was asked for is a generation the journal holds as dispatched, with the same account, credential
  key, model and install.
\<close>

theorem launch_at_most_once:
  assumes "daemon_step\<^sup>*\<^sup>* s t" and "journal_wf (pk_journal s)" and "launch_calls s = []"
  shows "distinct (map (\<lambda>sp. (sp_session_key sp, sp_generation sp)) (launch_calls t)) \<and>
    (\<forall>sp \<in> set (launch_calls t). \<exists>e. launch (sp_session_key sp) (sp_generation sp) (pk_journal t) = Some e \<and>
       le_dispatched_at e \<noteq> None \<and> pinned_to sp e)"
proof -
  have "launches_once s" using assms(2,3) by (simp add: launches_once_def)
  then have "launches_once t" by (rule daemon_inv.run_invar [OF assms(1)])
  then show ?thesis by (simp add: launches_once_def dispatched_as_def spec_ident_def [abs_def])
qed

definition ex_again :: park_state where
  "ex_again = snd (run_call ex_context (CReplay ex_op) ex_after)"

text \<open>The operation replayed after its launch: still one launch.\<close>

theorem launch_at_most_once_witness:
  "daemon_step\<^sup>*\<^sup>* ex_start ex_again \<and> launch_calls ex_again = [ex_spec] \<and>
   (\<exists>e. launch ''k'' 1 (pk_journal ex_again) = Some e \<and> le_dispatched_at e \<noteq> None \<and> pinned_to ex_spec e)"
proof -
  have "daemon_step ex_start ex_after"
    by (rule d_call) (simp add: ex_after_def prod_eq_iff)
  moreover have "daemon_step ex_after ex_again"
    by (rule d_call) (simp add: ex_again_def prod_eq_iff)
  ultimately have run: "daemon_step\<^sup>*\<^sup>* ex_start ex_again" by (meson r_into_rtranclp rtranclp_trans)
  have one: "launch_calls ex_again = [ex_spec]" by code_simp
  have "journal_wf (pk_journal ex_start)" by (simp add: ex_start_def ex_wf)
  moreover have "launch_calls ex_start = []" by code_simp
  ultimately show ?thesis
    using launch_at_most_once [OF run] run one by (auto simp: ex_spec_def)
qed

end
