(* ===== verification/Daemon_Props.thy ===== *)
theory Daemon_Props
  imports Daemon_Runs
begin

text \<open>
  What a pickup may claim, and that recovery starts nothing. A pickup's claims are tracked through the rules of
  \<open>start_relation\<close>, instantiated with the claims a set of beads allows.
\<close>

section \<open>Claims\<close>

definition claims_in :: "bead_id set \<Rightarrow> park_state \<Rightarrow> park_state \<Rightarrow> bool" where
  "claims_in A s t \<longleftrightarrow> (journal_wf (pk_journal s) \<longrightarrow> jstep\<^sup>*\<^sup>* (pk_journal s) (pk_journal t) \<and> pk_tick s \<le> pk_tick t \<and>
     (\<exists>bs. claim_calls t = claim_calls s @ bs \<and> set bs \<subseteq> A))"

lemma claims_in_calm: "calm s t \<Longrightarrow> claims_in A s t"
  by (simp add: claims_in_def calm_def)

lemma claims_in_guarded: "guarded c s t \<Longrightarrow> claims_in A s t"
  unfolding guarded_by_def claims_in_def
  by (auto simp: calm_def elim!: launched_byE intro: rtranclp_trans)

lemma claims_in_trans: "claims_in A s t \<Longrightarrow> claims_in A t u \<Longrightarrow> claims_in A s u"
  unfolding claims_in_def using journal_inv.run_invar [of "pk_journal s" "pk_journal t"]
  by (auto intro: rtranclp_trans)

lemma claims_in_mono: "claims_in A s t \<Longrightarrow> A \<subseteq> B \<Longrightarrow> claims_in B s t"
  unfolding claims_in_def by blast

interpretation claim_acts: start_relation "claims_in A" "\<lambda>b. b \<in> A" for A
proof unfold_locales
  fix s t u :: park_state and e n b c
  show "claims_in A s s" by (simp add: claims_in_def)
  show "claims_in A s (s\<lparr>pk_tick := n\<rparr>)" if "pk_tick s \<le> n" using that by (simp add: claims_in_def claim_calls_def)
  show "claims_in A s (s\<lparr>pk_effects := pk_effects s @ [e]\<rparr>)" if "\<not> is_start e"
    using starts_other [OF that] by (simp add: claims_in_def claim_calls_def)
  show "claims_in A s (s\<lparr>pk_effects := pk_effects s @ [EClaim b]\<rparr>)" if "b \<in> A"
    using that by (simp add: claims_in_def claim_calls_def)
  show "claims_in A s t" if "calm s t" using that by (rule claims_in_calm)
  show "claims_in A s t" if "guarded c s t" using that by (rule claims_in_guarded)
  show "claims_in A s t \<Longrightarrow> claims_in A t u \<Longrightarrow> claims_in A s u" by (rule claims_in_trans)
qed


lemma keeps_reconcile_parts: "keeps (claims_in A) (reconcile_all c)" "keeps (claims_in A) (run_sweep c d sweep)" "keeps (claims_in A) (each (replay_sched c) ops)"
  by (rule claim_acts.keeps_reconcile_all claim_acts.walk claim_acts.keeps_each claim_acts.keeps_replay_sched)+

text \<open>A pickup that goes on to its candidates has found no hold and no session.\<close>

lemma reconciled_idle:
  assumes "reconcile_all c s = (Inr (Some []), t)"
  obtains u where "claims_in {} s u" "holds (sc_ws c) (pk_journal u) = []" "wd_sessions (pc_world (sc_park c)) (pk_tick u) = Inr []"
    "t = u\<lparr>pk_tick := Suc (pk_tick u)\<rparr>"
proof -
  from assms obtain x u1 ops y u where r: "run_sweep c False sweep s = (Inr x, u1)" "each (replay_sched c) ops u1 = (Inr y, u)"
    and i: "holds (sc_ws c) (pk_journal u) = []" "sessions (sc_park c) u = (Inr [], t)"
    by (auto simp: reconcile_all_def look_def elim!: seqE split: if_split_asm)
  have "claims_in {} s u" by (rule claims_in_trans [OF keepsD [OF keeps_reconcile_parts(2) r(1)] keepsD [OF keeps_reconcile_parts(3) r(2)]])
  with i show thesis
    by (auto simp: sessions_def ask_def elim!: seqE split: sum.split_asm intro: that)
qed

text \<open>Work a pickup may claim: the queue listed it as ready after the pause flag was read as down.\<close>

definition free_work :: "sched_context \<Rightarrow> nat \<Rightarrow> bead_id \<Rightarrow> bool" where
  "free_work c n b \<longleftrightarrow> (\<exists>k m ready v. n \<le> k \<and> k < m \<and> pw_paused (sc_world c) k = Some False \<and>
     pw_ready (sc_world c) m = Some ready \<and> v \<in> set ready \<and> bd_id v = b \<and> \<not> labelled v L_PARKED \<and> \<not> labelled v L_HELD)"

lemma seq_queue: "seq (queue c f) g s = (case f (sc_world c) (pk_tick s) of
     None \<Rightarrow> (Inl XBeadsUnavailable, s\<lparr>pk_tick := Suc (pk_tick s)\<rparr>) | Some x \<Rightarrow> g x (s\<lparr>pk_tick := Suc (pk_tick s)\<rparr>))"
  by (simp add: queue_def query_def seq_def ret_def raise_def split: option.split)

definition claims_free :: "sched_context \<Rightarrow> park_state \<Rightarrow> park_state \<Rightarrow> bool" where
  "claims_free c s t \<longleftrightarrow> claims_in {b. free_work c (pk_tick s) b} s t"

lemma claims_free_pre: "claims_in {} s t \<Longrightarrow> claims_free c t u \<Longrightarrow> claims_free c s u"
proof (cases "journal_wf (pk_journal s)")
  case True
  assume st: "claims_in {} s t" and tu: "claims_free c t u"
  have "{b. free_work c (pk_tick t) b} \<subseteq> {b. free_work c (pk_tick s) b}"
    using st True unfolding claims_in_def free_work_def by (auto intro: order_trans)
  then have "claims_in {b. free_work c (pk_tick s) b} t u" using tu claims_in_mono unfolding claims_free_def by blast
  moreover have "claims_in {b. free_work c (pk_tick s) b} s t" using st by (rule claims_in_mono) simp
  ultimately show "claims_free c s u" unfolding claims_free_def using claims_in_trans by blast
qed (simp add: claims_free_def claims_in_def)

lemma claims_free_none: "claims_in {} s t \<Longrightarrow> claims_free c s t"
  unfolding claims_free_def by (erule claims_in_mono) (rule empty_subsetI)

lemma keeps_free: "keeps (claims_in {}) f \<Longrightarrow> keeps (claims_free c) f"
  by (simp add: keeps_def claims_free_none)

lemma free_before: "keeps (claims_in {}) f \<Longrightarrow> (\<And>x. keeps (claims_free c) (g x)) \<Longrightarrow> keeps (claims_free c) (seq f g)"
  by (rule keeps_before [OF claims_free_pre claims_free_none])

lemma listing_claims:
  "keeps (claims_free c) (seq (queue c pw_paused) (\<lambda>paused. if paused then ret (PuNothing, ts)
     else seq (queue c pw_ready) (\<lambda>ready. seq (forget_unlisted c (map bd_id ready)) (\<lambda>_. new_each c rf now False ts ready))))"
  (is "keeps _ ?f")
  unfolding keeps_def
proof
  fix s :: park_state
  let ?u = "s\<lparr>pk_tick := Suc (pk_tick s)\<rparr>" and ?v = "s\<lparr>pk_tick := Suc (Suc (pk_tick s))\<rparr>" and ?A = "{b. free_work c (pk_tick s) b}"
  have idle: "claims_in ?A s ?u" "claims_in ?A s ?v" by (rule claim_acts.R_tick, simp)+
  show "claims_free c s (snd (?f s))"
  proof (cases "pw_paused (sc_world c) (pk_tick s) = Some False")
    case False
    then show ?thesis using idle
      by (cases "pw_paused (sc_world c) (pk_tick s)") (auto simp: claims_free_def seq_queue ret_def)
  next
    case free: True
    show ?thesis
    proof (cases "pw_ready (sc_world c) (Suc (pk_tick s))")
      case None
      with free idle show ?thesis by (simp add: claims_free_def seq_queue)
    next
      case (Some ready)
      have "bd_id v \<in> ?A" if "v \<in> set ready" "\<not> labelled v L_PARKED" "\<not> labelled v L_HELD" for v
        using free Some that unfolding free_work_def
        by (intro CollectI exI [of _ "pk_tick s"] exI [of _ "Suc (pk_tick s)"] exI [of _ ready] exI [of _ v]) simp
      then have "keeps (claims_in ?A) (new_each c rf now False ts ready)" by (rule claim_acts.keeps_new_each)
      then have "keeps (claims_in ?A) (seq (forget_unlisted c (map bd_id ready)) (\<lambda>_. new_each c rf now False ts ready))"
        by (intro claim_acts.keeps_seq claim_acts.walk)
      then have "claims_in ?A ?v (snd (seq (forget_unlisted c (map bd_id ready)) (\<lambda>_. new_each c rf now False ts ready) ?v))"
        by (simp add: keeps_def)
      moreover have "?f s = seq (forget_unlisted c (map bd_id ready)) (\<lambda>_. new_each c rf now False ts ready) ?v"
        using free Some by (simp add: seq_queue)
      ultimately show ?thesis unfolding claims_free_def using idle(2) claims_in_trans by simp
    qed
  qed
qed

lemma candidates_claims: "keeps (claims_free c) (candidates c rf now)"
  unfolding candidates_def
  by (rule free_before listing_claims keeps_cases claim_acts.keeps_resume_each claim_acts.walk | rule keeps_free, rule claim_acts.walk)+

section \<open>A pickup\<close>

text \<open>
  Between two states of a pickup: nothing is claimed, or from a state with no hold, in which the runtime lists
  no session, only free work is.
\<close>

definition idle_claims :: "sched_context \<Rightarrow> park_state \<Rightarrow> park_state \<Rightarrow> bool" where
  "idle_claims c s t \<longleftrightarrow> claims_in {} s t \<or> (\<exists>u. claims_in {} s u \<and> holds (sc_ws c) (pk_journal u) = [] \<and>
     wd_sessions (pc_world (sc_park c)) (pk_tick u) = Inr [] \<and> claims_free c (u\<lparr>pk_tick := Suc (pk_tick u)\<rparr>) t)"

lemma idle_pre: "claims_in {} s t \<Longrightarrow> idle_claims c t u \<Longrightarrow> idle_claims c s u"
  unfolding idle_claims_def using claims_in_trans by blast

lemma claims_free_post: "claims_free c s t \<Longrightarrow> claims_in {} t u \<Longrightarrow> claims_free c s u"
  unfolding claims_free_def using claims_in_trans claims_in_mono by blast

lemma idle_post: "idle_claims c s t \<Longrightarrow> claims_in {} t u \<Longrightarrow> idle_claims c s u"
  unfolding idle_claims_def using claims_in_trans claims_free_post by blast

lemma idle_none: "claims_in {} s t \<Longrightarrow> idle_claims c s t"
  by (simp add: idle_claims_def)

lemma idle_before: "keeps (claims_in {}) f \<Longrightarrow> (\<And>x. keeps (idle_claims c) (g x)) \<Longrightarrow> keeps (idle_claims c) (seq f g)"
  by (rule keeps_before [OF idle_pre idle_none])

lemma idle_after: "keeps (idle_claims c) f \<Longrightarrow> (\<And>x. keeps (claims_in {}) (g x)) \<Longrightarrow> keeps (idle_claims c) (seq f g)"
  by (rule keeps_after [OF idle_post])

lemma keeps_idle: "keeps (claims_in {}) f \<Longrightarrow> keeps (idle_claims c) f"
  by (simp add: keeps_def idle_none)

lemma free_after: "keeps (claims_free c) f \<Longrightarrow> (\<And>x. keeps (claims_in {}) (g x)) \<Longrightarrow> keeps (claims_free c) (seq f g)"
  by (rule keeps_after [OF claims_free_post])

lemma pickup_work_claims: "keeps (claims_free c) (pickup_work c rf now)"
  unfolding pickup_work_def by (rule free_after candidates_claims claim_acts.walk)+

lemma pickup_rest_claims: "keeps (idle_claims c) (pickup_rest c rf now drained)"
  unfolding keeps_def
proof
  fix s :: park_state
  let ?f = "attempt (seq (reraise drained) (\<lambda>_. reconcile_all c))"
  let ?g = "\<lambda>r. case r of
       Inl (XRuntimeUnavailable why) \<Rightarrow> seq (hold_ws (sc_park c) RUNTIME_UNAVAILABLE why) (\<lambda>_. ret (PuHeld, None))
     | Inl e \<Rightarrow> raise e
     | Inr None \<Rightarrow> ret (PuHeld, None)
     | Inr (Some (x # xs)) \<Rightarrow> ret (PuBusy, None)
     | Inr (Some []) \<Rightarrow> pickup_work c rf now"
  obtain y t where f: "?f s = (Inr y, t)" by (cases "?f s") (auto simp: attempt_def split_beta)
  have kf: "keeps (claims_in {}) ?f" by (rule claim_acts.walk claim_acts.keeps_reconcile_all)+
  have st: "claims_in {} s t" by (rule keepsD [OF kf f])
  have eq: "pickup_rest c rf now drained s = ?g y t" using f by (simp add: pickup_rest_def seq_def)
  show "idle_claims c s (snd (pickup_rest c rf now drained s))"
  proof (cases "y = Inr (Some [])")
    case True
    then have "reconcile_all c s = (Inr (Some []), t)"
      using f by (cases drained) (auto simp: attempt_def seq_def reraise_def ret_def raise_def split: prod.split_asm)
    then obtain u where u: "claims_in {} s u" "holds (sc_ws c) (pk_journal u) = []"
      "wd_sessions (pc_world (sc_park c)) (pk_tick u) = Inr []" "t = u\<lparr>pk_tick := Suc (pk_tick u)\<rparr>" by (rule reconciled_idle)
    have "claims_free c t (snd (pickup_work c rf now t))" using pickup_work_claims by (simp add: keeps_def)
    then show ?thesis using u True eq by (auto simp: idle_claims_def)
  next
    case False
    have "keeps (claims_in {}) (?g y)"
      using False by (cases y) (auto split: option.split list.split intro!: claim_acts.walk)
    then have "claims_in {} t (snd (?g y t))" by (simp add: keeps_def)
    then show ?thesis unfolding eq by (intro idle_none claims_in_trans [OF st])
  qed
qed

lemma pickup_claims: "keeps (idle_claims c) (pickup c rf kept)"
proof -
  have "keeps (idle_claims c) (pickup_pass c rf kept)" unfolding pickup_pass_def
    by (rule idle_before idle_after keeps_try pickup_rest_claims keeps_cases claim_acts.walk | rule keeps_idle, rule claim_acts.walk)+
  then show ?thesis unfolding pickup_def by (rule idle_after) (rule claim_acts.walk)+
qed

text \<open>
  C4. A pickup claims only free work of an idle workstream: before its first claim it has, in this order, found
  no hold in the journal, been told by the runtime that no session is listed, read the pause flag as down, and
  been given the ready list; whatever it claims is on that list without the labels of a parked or held bead.
  Everything else it writes is a sequence of journal calls.
\<close>

theorem pickup_claims_only_free:
  assumes "pickup c rf kept s = (r, t)" and "journal_wf (pk_journal s)"
  shows "\<exists>bs. claim_calls t = claim_calls s @ bs \<and> jstep\<^sup>*\<^sup>* (pk_journal s) (pk_journal t) \<and>
    (\<forall>b \<in> set bs. \<exists>j n k m ready v. jstep\<^sup>*\<^sup>* (pk_journal s) j \<and> jstep\<^sup>*\<^sup>* j (pk_journal t) \<and> holds (sc_ws c) j = [] \<and>
       pk_tick s \<le> n \<and> wd_sessions (pc_world (sc_park c)) n = Inr [] \<and> n < k \<and> pw_paused (sc_world c) k = Some False \<and>
       k < m \<and> pw_ready (sc_world c) m = Some ready \<and> v \<in> set ready \<and> bd_id v = b \<and>
       \<not> labelled v L_PARKED \<and> \<not> labelled v L_HELD)"
proof -
  have "idle_claims c s t" by (rule keepsD [OF pickup_claims assms(1)])
  then consider "claims_in {} s t" | u where "claims_in {} s u" "holds (sc_ws c) (pk_journal u) = []"
     "wd_sessions (pc_world (sc_park c)) (pk_tick u) = Inr []" "claims_free c (u\<lparr>pk_tick := Suc (pk_tick u)\<rparr>) t"
    unfolding idle_claims_def by blast
  then show ?thesis
  proof cases
    case 1
    then show ?thesis using assms(2) by (auto simp: claims_in_def)
  next
    case 2
    have u: "jstep\<^sup>*\<^sup>* (pk_journal s) (pk_journal u)" "pk_tick s \<le> pk_tick u" "claim_calls u = claim_calls s"
      using 2(1) assms(2) by (auto simp: claims_in_def)
    moreover have "journal_wf (pk_journal u)" using journal_inv.run_invar [OF u(1)] assms(2) by simp
    ultimately obtain bs where bs: "claim_calls t = claim_calls s @ bs" "\<forall>b \<in> set bs. free_work c (Suc (pk_tick u)) b"
      and ut: "jstep\<^sup>*\<^sup>* (pk_journal u) (pk_journal t)"
      using 2(4) by (auto simp: claims_free_def claims_in_def claim_calls_def subset_iff)
    have "\<exists>j n k m ready v. jstep\<^sup>*\<^sup>* (pk_journal s) j \<and> jstep\<^sup>*\<^sup>* j (pk_journal t) \<and> holds (sc_ws c) j = [] \<and>
       pk_tick s \<le> n \<and> wd_sessions (pc_world (sc_park c)) n = Inr [] \<and> n < k \<and> pw_paused (sc_world c) k = Some False \<and>
       k < m \<and> pw_ready (sc_world c) m = Some ready \<and> v \<in> set ready \<and> bd_id v = b \<and>
       \<not> labelled v L_PARKED \<and> \<not> labelled v L_HELD" if b: "b \<in> set bs" for b
    proof -
      from bs(2) b have "free_work c (Suc (pk_tick u)) b" by blast
      then obtain k m ready v where "Suc (pk_tick u) \<le> k" "k < m" "pw_paused (sc_world c) k = Some False"
        "pw_ready (sc_world c) m = Some ready" "v \<in> set ready" "bd_id v = b" "\<not> labelled v L_PARKED" "\<not> labelled v L_HELD"
        unfolding free_work_def by blast
      then show ?thesis using u(1,2) ut 2(2,3)
        by - (rule exI [of _ "pk_journal u"], rule exI [of _ "pk_tick u"], rule exI [of _ k], rule exI [of _ m],
          rule exI [of _ ready], rule exI [of _ v], simp)
    qed
    then show ?thesis using bs(1) rtranclp_trans [OF u(1) ut] by (intro exI [of _ bs]) simp
  qed
qed

text \<open>A queue with one ready bead whose claim is lost to another worker.\<close>

definition pick_bead :: bead where
  "pick_bead = \<lparr>bd_id = ''b'', bd_status = ''open'', bd_labels = [], bd_record = NoRecord, bd_thread = None,
     bd_launches = Absent, bd_repo = Absent, bd_deps = []\<rparr>"

definition pick_world :: pickup_world where
  "pick_world = \<lparr>pw_paused = (\<lambda>n. Some False), pw_ready = (\<lambda>n. Some [pick_bead]), pw_ours = (\<lambda>n. Some []),
     pw_exists = (\<lambda>n. Some True), pw_claimable = (\<lambda>n. Some True), pw_claim = (\<lambda>n. ClaimRefused ''taken''),
     pw_worktree = (\<lambda>n. WorktreeMade), pw_signals = (\<lambda>n. Inr []), pw_expire = (\<lambda>n. None), pw_unresolved = (\<lambda>n. Some []),
     pw_taint_current = (\<lambda>n. None),
     pw_services = (\<lambda>n. \<lparr>sv_ours = Some [], sv_sessions = Some [], sv_stop = (\<lambda>k. True), sv_exists = (\<lambda>b. Some True),
        sv_status = (\<lambda>b. None), sv_validate = (\<lambda>b. ValidUnavailable), sv_label = (\<lambda>b. LabelUnavailable)\<rparr>),
     pw_sweep_id = (\<lambda>n b. ''o'' @ b)\<rparr>"

definition pick_context :: sched_context where
  "pick_context = \<lparr>sc_park = ex_context\<lparr>pc_world := ex_world\<lparr>wd_claim := \<lambda>n. Some ClaimOther\<rparr>\<rparr>, sc_world = pick_world\<rparr>"

definition pick_start :: park_state where
  "pick_start = \<lparr>pk_journal = fresh_journal ''t0'', pk_tick = 0, pk_effects = []\<rparr>"

definition pick_at :: "nat \<Rightarrow> park_state" where
  "pick_at n = pick_start\<lparr>pk_tick := n\<rparr>"

definition pick_op :: op where
  "pick_op = (''o2'', \<lparr>o_kind = PICKUP, o_ws = ''w'', o_bead = ''b'', o_step = ''intent'', o_data = [(''ref'', []), (''role'', ''coder'')],
     o_attempts = 0, o_status = OP_OPEN, o_created_at = ''t1'', o_updated_at = ''t1''\<rparr>)"

definition pick_intent :: park_state where
  "pick_intent = snd (open_pickup pick_context ''b'' None (pick_at 19))"

definition pick_opened :: park_state where
  "pick_opened = snd (cp (sc_park pick_context) pick_intent)"

definition pick_refused :: park_state where
  "pick_refused = snd (claim_bead pick_context ''b'' pick_opened)"

definition pick_lost :: park_state where
  "pick_lost = snd (resolve_claim pick_context pick_op (STUCK, UNCLAIMABLE, ''taken'') pick_refused)"

definition pick_end :: park_state where
  "pick_end = snd (publish pick_context None pick_lost)"

lemma pick_clamp: "clamp_deadlines n (fresh_journal ''t0'') = (0, fresh_journal ''t0'')"
proof -
  have "filter (is_clamp_key \<circ> fst) (j_meta (fresh_journal ''t0'')) = []" by code_simp
  moreover have "j_exhausted (fresh_journal ''t0'') = []" "j_deferrals (fresh_journal ''t0'') = []" by (simp_all add: fresh_journal_def)
  ultimately show ?thesis by (simp add: clamp_deadlines_def current_deferrals_def Let_def split_def)
qed

lemma pick_asks: "ask (sc_park pick_context) wd_clock pick_start = (Inr 1000, pick_at 1)"
  "cp (sc_park pick_context) (pick_at 2) = (Inr (), pick_at 3)"
  "ask (sc_park pick_context) wd_available (pick_at 3) = (Inr True, pick_at 4)"
  "sessions (sc_park pick_context) (pick_at 4) = (Inr [], pick_at 5)"
  "unhold_ws pick_context RUNTIME_UNAVAILABLE (pick_at 5) = (Inr (), pick_at 6)"
  "queue pick_context pw_unresolved (pick_at 6) = (Inr [], pick_at 7)"
  "unhold_ws pick_context BEADS_UNREACHABLE (pick_at 7) = (Inr (), pick_at 8)"
  "settle_actions pick_context [] (pick_at 8) = (Inr (), pick_at 9)"
  by code_simp+

lemma pick_begin: "pickup_begin pick_context pick_start = (Inr (Some 1000), pick_at 9)"
proof -
  have "jact (sc_park pick_context) (\<lambda>ts j. Inr (clamp_deadlines (clamp_bound 1000 (pc_usage (sc_park pick_context))) j)) (pick_at 1) =
      (Inr 0, pick_at 2)"
    by (simp add: jact_def ask_def seq_def pick_at_def pick_start_def pick_clamp)
  then show ?thesis by (simp add: pickup_begin_def seq_def attempt_def ret_def pick_asks)
qed

lemma pick_expire: "expire pick_context (pick_at 9) = (Inr (), pick_at 10)" by code_simp
lemma pick_signals: "signals pick_context 1000 [] (pick_at 10) = (Inr (Inr (), []), pick_at 11)"
  by (simp add: signals_def query_def seq_def pick_context_def pick_world_def pick_at_def ret_def)
lemma pick_sweep: "run_sweep pick_context False sweep (pick_at 11) = (Inr (unswept (fresh_journal ''t0'')), pick_at 14)" by code_simp
lemma pick_sessions: "sessions (sc_park pick_context) (pick_at 14) = (Inr [], pick_at 15)" by code_simp
lemma pick_sources: "source_one pick_context 1000 (pick_at 15) = (Inr [], pick_at 16)" by code_simp
lemma pick_paused: "queue pick_context pw_paused (pick_at 16) = (Inr False, pick_at 17)" by code_simp
lemma pick_ready: "queue pick_context pw_ready (pick_at 17) = (Inr [pick_bead], pick_at 18)" by code_simp
lemma pick_forget: "forget_unlisted pick_context [''b''] (pick_at 18) = (Inr (), pick_at 18)" by code_simp
lemma pick_claimable: "unclaimable pick_context pick_bead (pick_at 18) = (Inr [], pick_at 19)" by code_simp
lemma pick_gate: "gate_new pick_context pick_bead 1000 (pick_at 19) = (Inr None, pick_at 19)" by code_simp
lemma pick_open: "cp (sc_park pick_context) pick_intent = (Inr (), pick_opened)"
  "open_pickup pick_context ''b'' None (pick_at 19) = (Inr pick_op, pick_intent)"
  by code_simp+
lemma pick_claim: "claim_bead pick_context ''b'' pick_opened = (Inr (Some (ClaimRefused ''taken'')), pick_refused)" by code_simp
lemma pick_resolve: "resolve_claim pick_context pick_op (STUCK, UNCLAIMABLE, ''taken'') pick_refused = (Inr None, pick_lost)" by code_simp
lemma pick_ended: "waits_claim pick_context pick_lost = (Inr GEnded, pick_lost)" by code_simp
lemma pick_times: "wait_times pick_context 1000 pick_lost = (Inr [], pick_lost)" by code_simp
lemma pick_publish: "publish pick_context None pick_lost = (Inr (), pick_end)" by code_simp
lemma pick_state: "map_option b_reason (state ''w'' ''b'' (pk_journal pick_lost)) = Some (Some CLAIM_LOST)" by code_simp
lemma pick_claims: "claim_calls pick_end = [''b'']" by code_simp
lemma pick_look: "look (ops_open (Some (sc_ws pick_context))) (pick_at 14) = (Inr [], pick_at 14)"
  "look (holds (sc_ws pick_context)) (pick_at 14) = (Inr [], pick_at 14)"
  "look (op_for (sc_ws pick_context) ''b'') (pick_at 18) = (Inr None, pick_at 18)"
  by code_simp+

lemma pick_reconcile: "reconcile_all pick_context (pick_at 11) = (Inr (Some []), pick_at 15)"
  by (simp add: reconcile_all_def seq_def skip_def ret_def pick_sweep pick_look pick_sessions)

lemma pick_start_new: "start_new pick_context ''b'' None (pick_at 19) = (Inr (Some GEnded), pick_lost)"
  by (simp add: start_new_def seq_def pick_open(2) pick_open(1) pick_claim pick_resolve pick_ended)

lemma pick_new: "new_one pick_context None 1000 pick_bead (pick_at 18) = (Inr (None, False, []), pick_lost)"
proof -
  have id: "bd_id pick_bead = ''b''" by (simp add: pick_bead_def)
  have look: "look (state (sc_ws pick_context) ''b'') pick_lost = (Inr (state ''w'' ''b'' (pk_journal pick_lost)), pick_lost)"
    by (simp add: look_def sc_ws_def pick_context_def ex_context_def)
  show ?thesis
    using pick_state
    by (auto simp: new_one_def seq_def ret_def id pick_look(3) pick_claimable pick_gate pick_start_new look)
qed

lemma pick_candidates: "candidates pick_context None 1000 (pick_at 15) = (Inr (PuNothing, []), pick_lost)"
proof -
  have id: "map bd_id [pick_bead] = [''b'']" by (simp add: pick_bead_def)
  have new: "new_each pick_context None 1000 False [] [pick_bead] (pick_at 18) = (Inr (PuNothing, []), pick_lost)"
    by (simp add: seq_def pick_new ret_def)
  have none: "resume_each pick_context None 1000 [] [] (pick_at 16) = (Inr (None, []), pick_at 16)" by (simp add: ret_def)
  show ?thesis unfolding candidates_def
    by (simp only: seq_def pick_sources none pick_paused pick_ready id pick_forget new
      prod.case option.case sum.case if_False)
qed

lemma pick_run: "pickup pick_context None [] pick_start = (Inr (Inr PuNothing, None, []), pick_end)"
proof -
  have work: "pickup_work pick_context None 1000 (pick_at 15) = (Inr (PuNothing, None), pick_lost)"
    by (simp add: pickup_work_def seq_def pick_candidates pick_times wake_time_def ret_def)
  have "attempt (seq (reraise (Inr ())) (\<lambda>_. reconcile_all pick_context)) (pick_at 11) = (Inr (Inr (Some [])), pick_at 15)"
    by (simp add: attempt_def reraise_def seq_def ret_def pick_reconcile)
  then have "pickup_rest pick_context None 1000 (Inr ()) (pick_at 11) = (Inr (PuNothing, None), pick_lost)"
    unfolding pickup_rest_def by (simp add: seq_def work)
  then have "pickup_pass pick_context None [] pick_start = (Inr (Inr (PuNothing, None), []), pick_lost)"
    unfolding pickup_pass_def
    by (simp add: seq_def pick_begin pick_expire pick_signals attempt_def ret_def)
  then show ?thesis unfolding pickup_def by (simp add: seq_def pick_publish ret_def)
qed

theorem pickup_claims_only_free_witness:
  "pickup pick_context None [] pick_start = (Inr (Inr PuNothing, None, []), pick_end) \<and> claim_calls pick_end = [''b''] \<and>
   (\<exists>j n. jstep\<^sup>*\<^sup>* (fresh_journal ''t0'') j \<and> holds ''w'' j = [] \<and> wd_sessions ex_world n = Inr [])"
proof -
  have wf: "journal_wf (pk_journal pick_start)" by (simp add: pick_start_def fresh_journal_wf)
  have no: "claim_calls pick_start = []" by (simp add: pick_start_def claim_calls_def)
  have eqs: "sc_ws pick_context = ''w''" "pk_journal pick_start = fresh_journal ''t0''"
     "wd_sessions (pc_world (sc_park pick_context)) = wd_sessions ex_world"
    by (simp_all add: pick_context_def sc_ws_def ex_context_def pick_start_def)
  obtain j n where "jstep\<^sup>*\<^sup>* (pk_journal pick_start) j" "holds (sc_ws pick_context) j = []"
     "wd_sessions (pc_world (sc_park pick_context)) n = Inr []"
    using pickup_claims_only_free [OF pick_run wf] unfolding no pick_claims by auto
  then show ?thesis using pick_run pick_claims by (auto simp: eqs)
qed

section \<open>Recovery\<close>

lemma held_reasons: "fst ` set (holds ws j) = {r. map_of (j_holds j) (ws, r) \<noteq> None}"
proof -
  have "fst ` set (holds ws j) = {r. (ws, r) \<in> fst ` set (j_holds j)}"
    by (force simp: holds_def)
  then show ?thesis by (simp add: map_of_eq_None_iff)
qed

lemma held_after:
  "fst ` set (holds ws (hold ts ws r d j)) = insert r (fst ` set (holds ws j))"
  "fst ` set (holds ws (unhold ts ws r j)) = fst ` set (holds ws j) - {r}"
  "holds ws (set_ws_state ts ws' st j) = holds ws j"
  by (auto simp: held_reasons hold_def unhold_def emit_def Let_def update_conv' delete_conv' split: if_split_asm)
     (simp add: set_ws_state_def holds_def emit_def Let_def)

lemma publish_holds: "publish c wk s = (Inr x, t) \<Longrightarrow> holds ws (pk_journal t) = holds ws (pk_journal s)"
  by (auto simp: publish_def query_def look_def jwrite_def elim!: seqE dest!: jact_Inr) (metis held_after(3))

lemma hold_ws_held: "hold_ws c reason d s = (Inr x, t) \<Longrightarrow> reason \<in> fst ` set (holds (pc_ws c) (pk_journal t))"
proof -
  assume "hold_ws c reason d s = (Inr x, t)"
  then obtain ts where "hold ts (pc_ws c) reason d (pk_journal s) = pk_journal t"
    by (auto simp: hold_ws_def jwrite_def dest!: jact_Inr)
  then show ?thesis using held_after(1) [of "pc_ws c" ts reason d "pk_journal s"] by simp
qed

lemma unhold_ws_held: "unhold_ws c reason s = (Inr x, t) \<Longrightarrow> reason \<notin> fst ` set (holds (sc_ws c) (pk_journal t))"
proof -
  assume "unhold_ws c reason s = (Inr x, t)"
  then obtain ts where "unhold ts (sc_ws c) reason (pk_journal s) = pk_journal t"
    by (auto simp: unhold_ws_def jwrite_def dest!: jact_Inr)
  then show ?thesis using held_after(2) [of "sc_ws c" ts reason "pk_journal s"] by simp
qed

text \<open>
  C5. Startup recovery starts nothing: it asks the runtime for no launch and claims no bead, whatever it finds and
  wherever it is cut off. When it fails it leaves the workstream held for the queue or the runtime, and when it
  succeeds the queue is no longer held as unreachable.
\<close>

theorem recover_never_starts:
  assumes "recover c wake s = (r, t)"
  shows "launch_calls t = launch_calls s \<and> claim_calls t = claim_calls s \<and> jstep\<^sup>*\<^sup>* (pk_journal s) (pk_journal t) \<and>
    (\<forall>x. r = Inr x \<longrightarrow> (if rv_ok x then BEADS_UNREACHABLE \<notin> fst ` set (holds (sc_ws c) (pk_journal t))
       else {BEADS_UNREACHABLE, RUNTIME_UNAVAILABLE} \<inter> fst ` set (holds (sc_ws c) (pk_journal t)) \<noteq> {}))"
proof -
  have "calm s t" by (rule keepsD [OF calm_acts.keeps_recovery(8) assms])
  moreover have "if rv_ok x then BEADS_UNREACHABLE \<notin> fst ` set (holds (sc_ws c) (pk_journal t))
       else {BEADS_UNREACHABLE, RUNTIME_UNAVAILABLE} \<inter> fst ` set (holds (sc_ws c) (pk_journal t)) \<noteq> {}" if r: "r = Inr x" for x
  proof -
    from assms [unfolded r recover_def] obtain y u1 u2 where run: "attempt (run_recovery c) s = (Inr y, u1)"
      and settle: "(case y of
            Inl XBeadsUnavailable \<Rightarrow> seq (hold_ws (sc_park c) BEADS_UNREACHABLE ''BeadsUnavailable'') (\<lambda>_. ret failed_recovery)
          | Inl (XRuntimeUnavailable why) \<Rightarrow> seq (hold_ws (sc_park c) RUNTIME_UNAVAILABLE why) (\<lambda>_. ret failed_recovery)
          | Inl e \<Rightarrow> raise e
          | Inr done_all \<Rightarrow> seq (unhold_ws c BEADS_UNREACHABLE) (\<lambda>_. ret done_all)) u1 = (Inr x, u2)"
      and pub: "\<exists>z. publish c wake u2 = (Inr z, t)"
      by (auto elim!: seqE)
    have "rv_ok z" if "y = Inr z" for z
      using run that by (auto simp: attempt_def run_recovery_def elim!: seqE split: prod.split_asm if_split_asm)
    then have "if rv_ok x then BEADS_UNREACHABLE \<notin> fst ` set (holds (sc_ws c) (pk_journal u2))
       else {BEADS_UNREACHABLE, RUNTIME_UNAVAILABLE} \<inter> fst ` set (holds (sc_ws c) (pk_journal u2)) \<noteq> {}"
      using settle unfolding sc_ws_def [of c]
      by (auto simp: failed_recovery_def elim!: seqE dest!: hold_ws_held unhold_ws_held [unfolded sc_ws_def]
          split: sum.split_asm park_exn.split_asm simp del: image_iff)
    then show ?thesis using pub publish_holds by auto
  qed
  ultimately show ?thesis unfolding calm_def by blast
qed

text \<open>The runtime does not answer: recovery fails and leaves its hold.\<close>

definition unreachable_context :: sched_context where
  "unreachable_context = pick_context\<lparr>sc_park := ex_context\<lparr>pc_world := ex_world\<lparr>wd_sessions := \<lambda>n. Inl ''down''\<rparr>\<rparr>\<rparr>"

theorem recover_never_starts_witness:
  "fst (recover unreachable_context None pick_start) = Inr failed_recovery \<and>
   launch_calls (snd (recover unreachable_context None pick_start)) = [] \<and>
   {BEADS_UNREACHABLE, RUNTIME_UNAVAILABLE} \<inter> fst ` set (holds ''w'' (pk_journal (snd (recover unreachable_context None pick_start)))) \<noteq> {}"
proof -
  have r: "recover unreachable_context None pick_start = (Inr failed_recovery, snd (recover unreachable_context None pick_start))"
  proof -
    have "fst (recover unreachable_context None pick_start) = Inr failed_recovery" by code_simp
    then show ?thesis by (simp add: prod_eq_iff)
  qed
  have "sc_ws unreachable_context = ''w''" "launch_calls pick_start = []" "\<not> rv_ok failed_recovery"
    by (simp_all add: unreachable_context_def sc_ws_def ex_context_def pick_start_def launch_calls_def failed_recovery_def)
  then show ?thesis
    using recover_never_starts [OF r] r by (metis fst_conv)
qed

end
