(* ===== verification/Dispatch.thy ===== *)
theory Dispatch
  imports Prelude
begin

text \<open>
  The dispatch contract of the action executor (\<^verbatim>\<open>actions/dispatch.py\<close>, with \<^verbatim>\<open>changed\<close> and \<^verbatim>\<open>digest_syntax\<close> of
  \<^verbatim>\<open>actions/requests.py\<close> and \<^verbatim>\<open>safe_label\<close> and \<^verbatim>\<open>BEAD_ID\<close> of \<^verbatim>\<open>actions/codec.py\<close>): one record per approved
  effect, and one reducer per operation, which returns the changed record or a action_refusal. A action_refusal is the
  fixed diagnostic of the source.
\<close>

section \<open>Data\<close>

type_synonym action_refusal = string

record action_clock =
  ck_boot_id :: string
  ck_mono_ns :: int
  ck_utc_ns :: int

datatype dispatch_state = DsPreparing | DsReady | DsHeld | DsExecuting | DsUncertain | DsSucceeded | DsFailed | DsDenied
datatype dispatch_kind = DkInitial | DkReconcile
datatype effect_seen = EffSucceeded | EffAbsent | EffUnknown

record dispatch_record =
  di_approval_id :: string
  di_revision :: int
  di_digest :: string
  di_target :: string
  di_attempt_id :: string
  di_resource :: string
  di_startup_hash :: string
  di_started :: action_clock
  di_deadline_ns :: int
  di_preparation_deadline_ns :: int
  di_state :: dispatch_state
  di_version :: int
  di_claim_hash :: "string option"
  di_claim_deadline_ns :: "int option"
  di_claim_consumed :: bool
  di_launch_attempts :: nat
  di_retired_startups :: "string list"
  di_retired_nonces :: "string list"
  di_lookups :: nat
  di_evidence :: "string option"
  di_cleanup_proven :: bool
  di_settled :: bool
  di_recovery_operator_event :: "string option"
  di_kind :: dispatch_kind
  di_parent_attempt_id :: "string option"
  di_reconciliation_attempts :: "string list"
  di_reconciliation_effect :: "effect_seen option"
  di_reconciliation_cleanup_proven :: bool

definition DISPATCH_WINDOW_NS :: int where "DISPATCH_WINDOW_NS = 60000000000"
definition PREPARATION_WINDOW_NS :: int where "PREPARATION_WINDOW_NS = 30000000000"

section \<open>Syntax of identities\<close>

definition ascii_code :: "char \<Rightarrow> nat" where "ascii_code c = of_char c"

definition between :: "nat \<Rightarrow> nat \<Rightarrow> char \<Rightarrow> bool" where
  "between a b c \<longleftrightarrow> a \<le> ascii_code c \<and> ascii_code c \<le> b"

definition ascii_alnum :: "char \<Rightarrow> bool" where
  "ascii_alnum c \<longleftrightarrow> between 48 57 c \<or> between 65 90 c \<or> between 97 122 c"

definition digest_syntax :: "string \<Rightarrow> bool" where
  "digest_syntax v \<longleftrightarrow> length v = 64 \<and> list_all (\<lambda>c. between 48 57 c \<or> between 97 102 c) v"

definition safe_label :: "nat \<Rightarrow> string \<Rightarrow> bool" where
  "safe_label maximum v \<longleftrightarrow> 1 \<le> length v \<and> length v \<le> maximum \<and> list_all (between 32 126) v"

text \<open>
  \<^verbatim>\<open>[a-z][a-z0-9-]{0,31}-[0-9a-z]{5}\<close>, matched on the whole string: the dash and the five last characters have
  fixed places from the end.
\<close>

definition bead_id_syntax :: "string \<Rightarrow> bool" where
  "bead_id_syntax v \<longleftrightarrow> 7 \<le> length v \<and> length v \<le> 38 \<and> between 97 122 (hd v) \<and>
     list_all (\<lambda>c. between 97 122 c \<or> between 48 57 c \<or> c = CHR ''-'') (tl (take (length v - 6) v)) \<and>
     v ! (length v - 6) = CHR ''-'' \<and>
     list_all (\<lambda>c. between 97 122 c \<or> between 48 57 c) (drop (length v - 5) v)"

section \<open>Clocks\<close>

definition action_clock_ok :: "action_clock \<Rightarrow> action_refusal + unit" where
  "action_clock_ok k = guard_result (1 \<le> length (ck_boot_id k) \<and> length (ck_boot_id k) \<le> 128 \<and>
     list_all (\<lambda>c. ascii_alnum c \<or> c \<in> {CHR ''-'', CHR ''_'', CHR ''.''}) (ck_boot_id k) \<and>
     0 \<le> ck_mono_ns k \<and> ck_mono_ns k < 2 ^ 63 \<and> 0 \<le> ck_utc_ns k \<and> ck_utc_ns k < 2 ^ 63) ''invalid-clock''"

definition clock_elapsed :: "action_clock \<Rightarrow> action_clock \<Rightarrow> action_refusal + int" where
  "clock_elapsed started now =
     bind_result (action_clock_ok started) (\<lambda>_.
     bind_result (action_clock_ok now) (\<lambda>_.
     if ck_boot_id now \<noteq> ck_boot_id started \<or> ck_mono_ns now < ck_mono_ns started \<or> ck_utc_ns now < ck_utc_ns started \<or>
        \<bar>(ck_utc_ns now - ck_utc_ns started) - (ck_mono_ns now - ck_mono_ns started)\<bar> > 1000000000
     then Inl ''dispatch-clock-or-deadline''
     else Inr ((ck_mono_ns now - ck_mono_ns started) div 1000000000)))"

definition elapsed_seconds :: "dispatch_record \<Rightarrow> action_clock \<Rightarrow> action_refusal + int" where
  "elapsed_seconds v now = clock_elapsed (di_started v) now"

definition within_deadline :: "dispatch_record \<Rightarrow> action_clock \<Rightarrow> action_refusal + unit" where
  "within_deadline v now = bind_result (elapsed_seconds v now) (\<lambda>_.
     guard_result (ck_mono_ns now < di_deadline_ns v) ''dispatch-clock-or-deadline'')"

definition changed :: "(dispatch_record \<Rightarrow> dispatch_record) \<Rightarrow> dispatch_record \<Rightarrow> dispatch_record" where
  "changed f v = (f v)\<lparr>di_version := di_version v + 1\<rparr>"

section \<open>Preparing and claiming\<close>

definition prepare :: "string \<Rightarrow> int \<Rightarrow> string \<Rightarrow> string \<Rightarrow> string \<Rightarrow> string \<Rightarrow> string \<Rightarrow> action_clock \<Rightarrow> bool \<Rightarrow>
    action_refusal + dispatch_record" where
  "prepare approval revision digest target attempt_id resource startup_hash now finalized =
     bind_result (action_clock_ok now) (\<lambda>_.
     if \<not> finalized \<or> \<not> bead_id_syntax approval \<or> \<not> (1 \<le> revision \<and> revision \<le> 2 ^ 31 - 1) \<or>
        \<not> list_all digest_syntax [digest, target, startup_hash] \<or>
        \<not> (1 \<le> length attempt_id \<and> length attempt_id \<le> 128) \<or> \<not> (1 \<le> length resource \<and> length resource \<le> 256) \<or>
        \<not> list_all (\<lambda>c. ascii_alnum c \<or> c \<in> {CHR ''-'', CHR ''_'', CHR ''.'', CHR '':''}) (attempt_id @ resource)
     then Inl ''dispatch-preparation-binding''
     else Inr \<lparr>di_approval_id = approval, di_revision = revision, di_digest = digest, di_target = target,
       di_attempt_id = attempt_id, di_resource = resource, di_startup_hash = startup_hash, di_started = now,
       di_deadline_ns = ck_mono_ns now + DISPATCH_WINDOW_NS,
       di_preparation_deadline_ns = ck_mono_ns now + PREPARATION_WINDOW_NS,
       di_state = DsPreparing, di_version = 0, di_claim_hash = None, di_claim_deadline_ns = None,
       di_claim_consumed = False, di_launch_attempts = 1, di_retired_startups = [], di_retired_nonces = [],
       di_lookups = 0, di_evidence = None, di_cleanup_proven = False, di_settled = False,
       di_recovery_operator_event = None, di_kind = DkInitial, di_parent_attempt_id = None,
       di_reconciliation_attempts = [], di_reconciliation_effect = None,
       di_reconciliation_cleanup_proven = False\<rparr>)"

definition ready :: "dispatch_record \<Rightarrow> string \<Rightarrow> action_clock \<Rightarrow> bool \<Rightarrow> bool \<Rightarrow> action_refusal + dispatch_record" where
  "ready v claim now fresh_gates startup_readback =
     bind_result (within_deadline v now) (\<lambda>_.
     if di_kind v \<noteq> DkInitial \<or> di_state v \<noteq> DsPreparing \<or> di_claim_consumed v \<or> \<not> fresh_gates \<or> \<not> startup_readback \<or>
        \<not> digest_syntax claim \<or> claim = di_startup_hash v \<or> claim \<in> set (di_retired_nonces v) \<or>
        claim \<in> set (di_retired_startups v) \<or> ck_mono_ns now \<ge> di_preparation_deadline_ns v
     then Inl ''dispatch-not-ready''
     else Inr (changed (\<lambda>v. v\<lparr>di_state := DsReady, di_claim_hash := Some claim,
            di_claim_deadline_ns := Some (min (ck_mono_ns now + 5000000000) (di_deadline_ns v))\<rparr>) v))"

definition restart_preparation :: "dispatch_record \<Rightarrow> string \<Rightarrow> action_clock \<Rightarrow> action_refusal + dispatch_record" where
  "restart_preparation v startup now =
     bind_result (within_deadline v now) (\<lambda>_.
     if di_kind v \<noteq> DkInitial \<or> di_state v \<noteq> DsHeld \<or> di_claim_consumed v \<or> di_launch_attempts v \<ge> 3 \<or>
        \<not> digest_syntax startup \<or> startup = di_startup_hash v \<or> startup \<in> set (di_retired_startups v) \<or>
        startup \<in> set (di_retired_nonces v)
     then Inl ''preparation-retry-refused''
     else Inr (changed (\<lambda>v. v\<lparr>di_state := DsPreparing, di_startup_hash := startup,
            di_retired_startups := di_retired_startups v @ [di_startup_hash v],
            di_preparation_deadline_ns := min (ck_mono_ns now + PREPARATION_WINDOW_NS) (di_deadline_ns v),
            di_launch_attempts := di_launch_attempts v + 1\<rparr>) v))"

definition preparation_failed :: "dispatch_record \<Rightarrow> bool \<Rightarrow> bool \<Rightarrow> action_refusal + dispatch_record" where
  "preparation_failed v launcher_exited no_children =
     (if di_state v \<noteq> DsPreparing \<or> \<not> launcher_exited \<or> \<not> no_children \<or> di_claim_consumed v
      then Inl ''preparation-cleanup-unproved''
      else Inr (changed (\<lambda>v. v\<lparr>di_state := DsHeld, di_cleanup_proven := True\<rparr>) v))"

definition consume_claim :: "dispatch_record \<Rightarrow> string \<Rightarrow> action_clock \<Rightarrow> bool \<Rightarrow> action_refusal + dispatch_record" where
  "consume_claim v claim now fresh_gates =
     bind_result (within_deadline v now) (\<lambda>_.
     if di_kind v \<noteq> DkInitial \<or> di_state v \<noteq> DsReady \<or> di_claim_consumed v \<or> \<not> fresh_gates \<or>
        Some claim \<noteq> di_claim_hash v \<or> claim \<in> set (di_retired_nonces v) \<or>
        (case di_claim_deadline_ns v of None \<Rightarrow> True | Some d \<Rightarrow> ck_mono_ns now \<ge> d)
     then Inl ''claim-refused''
     else Inr (changed (\<lambda>v. v\<lparr>di_state := DsExecuting, di_claim_consumed := True\<rparr>) v))"

definition retire_unconsumed :: "dispatch_record \<Rightarrow> string \<Rightarrow> bool \<Rightarrow> bool \<Rightarrow> action_refusal + dispatch_record" where
  "retire_unconsumed v claim launcher_exited no_children =
     (if di_state v \<noteq> DsReady \<or> di_claim_consumed v \<or> Some claim \<noteq> di_claim_hash v \<or> \<not> launcher_exited \<or>
         \<not> no_children \<or> di_claim_hash v = None
      then Inl ''claim-retirement-unproved''
      else Inr (changed (\<lambda>v. v\<lparr>di_state := DsHeld, di_claim_hash := None, di_claim_deadline_ns := None,
             di_retired_nonces := di_retired_nonces v @ [claim]\<rparr>) v))"

section \<open>Results\<close>

definition dispatch_uncertain :: "dispatch_record \<Rightarrow> action_refusal + dispatch_record" where
  "dispatch_uncertain v =
     (if di_state v = DsUncertain \<and> \<not> di_settled v then Inr v
      else if di_settled v \<or> di_state v \<notin> {DsReady, DsExecuting, DsUncertain}
      then Inl ''settled-or-unissued-dispatch-conflict''
      else Inr (changed (\<lambda>v. v\<lparr>di_state := DsUncertain\<rparr>) v))"

definition report :: "dispatch_record \<Rightarrow> string \<Rightarrow> string \<Rightarrow> string \<Rightarrow> string \<Rightarrow> effect_seen \<Rightarrow> string option \<Rightarrow> bool \<Rightarrow>
    action_refusal + dispatch_record" where
  "report v attempt_id claim digest target seen evidence cleanup =
     (if \<not> di_claim_consumed v \<or> di_claim_hash v \<noteq> Some claim \<or> attempt_id \<noteq> di_attempt_id v \<or> digest \<noteq> di_digest v \<or>
         target \<noteq> di_target v \<or> (case evidence of None \<Rightarrow> False | Some e \<Rightarrow> \<not> digest_syntax e)
      then Inl ''dispatch-report-binding''
      else if di_settled v
      then (if di_state v = DsSucceeded \<and> seen = EffSucceeded \<and> cleanup \<and> evidence = di_evidence v then Inr v
            else Inl ''settled-report-conflict'')
      else if di_state v \<notin> {DsExecuting, DsUncertain} then Inl ''report-outside-execution''
      else if di_evidence v \<noteq> None \<and> evidence \<noteq> di_evidence v then Inl ''retained-report-evidence-conflict''
      else if seen = EffSucceeded \<and> evidence \<noteq> None \<and> cleanup
      then Inr (changed (\<lambda>v. v\<lparr>di_state := DsSucceeded, di_evidence := evidence, di_cleanup_proven := True,
             di_settled := True\<rparr>) v)
      else if seen = EffAbsent \<and> evidence \<noteq> None \<and> cleanup
      then Inr (changed (\<lambda>v. v\<lparr>di_state := DsFailed, di_evidence := evidence, di_cleanup_proven := True\<rparr>) v)
      else Inr (changed (\<lambda>v. v\<lparr>di_state := DsUncertain, di_evidence := evidence, di_cleanup_proven := cleanup\<rparr>) v))"

definition some_digest :: "string option \<Rightarrow> bool" where
  "some_digest evidence \<longleftrightarrow> digest_syntax (case evidence of None \<Rightarrow> [] | Some e \<Rightarrow> e)"

definition LOOKUP_DUE :: "int list" where "LOOKUP_DUE = [1, 5, 30]"

definition reconcile_lookup :: "dispatch_record \<Rightarrow> int \<Rightarrow> effect_seen \<Rightarrow> bool \<Rightarrow> string option \<Rightarrow> action_refusal + dispatch_record" where
  "reconcile_lookup v elapsed seen cleanup evidence =
     (if di_kind v \<noteq> DkInitial \<or> di_state v \<notin> {DsUncertain, DsFailed} \<or> di_settled v \<or> di_lookups v \<ge> 3
      then Inl ''reconciliation-needs-authenticated-recovery''
      else if elapsed < LOOKUP_DUE ! di_lookups v then Inl ''reconciliation-not-due''
      else if seen = EffSucceeded \<and> \<not> di_claim_consumed v
      then Inr (changed (\<lambda>v. v\<lparr>di_lookups := di_lookups v + 1\<rparr>) v)
      else if di_state v = DsFailed \<and> seen = EffSucceeded
      then Inl ''reconciliation-outcome-conflict-needs-authenticated-recovery''
      else if seen = EffSucceeded \<and> cleanup \<and> some_digest evidence
      then Inr (changed (\<lambda>v. v\<lparr>di_lookups := di_lookups v + 1, di_state := DsSucceeded, di_settled := True,
             di_evidence := evidence, di_cleanup_proven := True\<rparr>) v)
      else Inr (changed (\<lambda>v. v\<lparr>di_lookups := di_lookups v + 1,
             di_state := (if di_state v = DsFailed \<or> (seen = EffAbsent \<and> cleanup \<and> some_digest evidence)
                          then DsFailed else DsUncertain),
             di_cleanup_proven := (if di_state v = DsFailed then di_cleanup_proven v else cleanup),
             di_evidence := (if di_state v = DsFailed then di_evidence v else evidence)\<rparr>) v))"

section \<open>Recovery\<close>

record reconciliation_disposition =
  rd_attempt_id :: string
  rd_version :: int
  rd_effect :: "effect_seen option"
  rd_evidence :: "string option"
  rd_cleanup_proven :: bool
  rd_settled :: bool
  rd_applied :: bool

definition disposition_of :: "dispatch_record \<Rightarrow> dispatch_record \<Rightarrow> reconciliation_disposition" where
  "disposition_of parent child =
     \<lparr>rd_attempt_id = di_attempt_id child, rd_version = di_version child, rd_effect = di_reconciliation_effect child,
      rd_evidence = di_evidence child, rd_cleanup_proven = di_cleanup_proven child, rd_settled = di_settled child,
      rd_applied = (di_attempt_id child \<in> set (di_reconciliation_attempts parent))\<rparr>"

record dispatch_recovery =
  dr_approval_id :: string
  dr_revision :: int
  dr_digest :: string
  dr_target :: string
  dr_attempt_id :: string
  dr_expected_version :: int
  dr_evidence :: string
  dr_operator_event :: string
  dr_authenticated_current :: bool
  dr_exact_repair_scope :: bool
  dr_native_readback :: bool
  dr_definitively_absent :: bool
  dr_cleanup_proven :: bool
  dr_attested_succeeded :: bool
  dr_clock_discontinuity :: bool
  dr_observed_now :: "action_clock option"
  dr_clock_anchor :: "action_clock option"
  dr_completed_attempts :: "string list"
  dr_observed_reconciliations :: "reconciliation_disposition list"

definition facts_bound :: "dispatch_record \<Rightarrow> reconciliation_disposition list \<Rightarrow> bool" where
  "facts_bound v facts \<longleftrightarrow> di_kind v = DkInitial \<and> 1 \<le> length facts \<and> length facts \<le> 3 \<and>
     distinct (map rd_attempt_id facts) \<and> list_all (\<lambda>f. rd_settled f \<and> rd_cleanup_proven f) facts"

definition facts_exhausted :: "dispatch_record \<Rightarrow> dispatch_recovery \<Rightarrow> bool" where
  "facts_exhausted v ob \<longleftrightarrow> facts_bound v (dr_observed_reconciliations ob) \<and> length (dr_observed_reconciliations ob) = 3 \<and>
     sort (map rd_attempt_id (dr_observed_reconciliations ob)) = sort (dr_completed_attempts ob)"

definition facts_conflict :: "dispatch_record \<Rightarrow> dispatch_recovery \<Rightarrow> bool" where
  "facts_conflict v ob \<longleftrightarrow> facts_bound v (dr_observed_reconciliations ob) \<and>
     list_ex (\<lambda>f. \<not> rd_applied f \<and> rd_effect f = Some EffSucceeded \<and> (di_state v = DsFailed \<or> \<not> di_claim_consumed v))
       (dr_observed_reconciliations ob)"

definition clock_discontinuous :: "dispatch_record \<Rightarrow> dispatch_recovery \<Rightarrow> action_refusal + bool" where
  "clock_discontinuous v ob =
     (case (dr_clock_discontinuity ob, dr_observed_now ob) of
        (True, Some now) \<Rightarrow>
          bind_result (action_clock_ok now) (\<lambda>_.
          case clock_elapsed (case dr_clock_anchor ob of None \<Rightarrow> di_started v | Some a \<Rightarrow> a) now of
            Inl _ \<Rightarrow> Inr True | Inr _ \<Rightarrow> Inr False)
      | _ \<Rightarrow> Inr False)"

definition settle_dispatch :: "dispatch_record \<Rightarrow> dispatch_recovery \<Rightarrow> action_refusal + dispatch_record" where
  "settle_dispatch v ob =
     bind_result (clock_discontinuous v ob) (\<lambda>discontinuous.
     let waived = discontinuous \<or> facts_exhausted v ob \<or> facts_conflict v ob in
     if di_state v \<notin> {DsHeld, DsUncertain, DsFailed} \<or> di_settled v \<or>
        (di_claim_consumed v \<and> di_lookups v \<noteq> 3 \<and> \<not> waived) \<or>
        (\<not> di_claim_consumed v \<and> di_state v \<noteq> DsHeld \<and> di_lookups v \<noteq> 3 \<and> \<not> waived) \<or>
        (dr_approval_id ob, dr_revision ob, dr_digest ob, dr_target ob, dr_attempt_id ob, dr_expected_version ob) \<noteq>
          (di_approval_id v, di_revision v, di_digest v, di_target v, di_attempt_id v, di_version v) \<or>
        \<not> (dr_authenticated_current ob \<and> dr_exact_repair_scope ob \<and> dr_native_readback ob \<and> dr_cleanup_proven ob) \<or>
        dr_definitively_absent ob = dr_attested_succeeded ob \<or>
        (dr_definitively_absent ob \<and> list_ex (\<lambda>f. rd_effect f = Some EffSucceeded) (dr_observed_reconciliations ob)) \<or>
        (dr_attested_succeeded ob \<and> \<not> di_claim_consumed v) \<or>
        \<not> digest_syntax (dr_evidence ob) \<or> \<not> safe_label 256 (dr_operator_event ob)
     then Inl ''dispatch-recovery-not-bound''
     else Inr (changed (\<lambda>v. v\<lparr>di_state := (if dr_attested_succeeded ob then DsSucceeded else DsFailed), di_settled := True,
            di_cleanup_proven := True, di_evidence := Some (dr_evidence ob),
            di_recovery_operator_event := Some (dr_operator_event ob)\<rparr>) v))"

section \<open>Reconciliation invocations\<close>

definition finish_reconciliation :: "dispatch_record \<Rightarrow> string \<Rightarrow> bool \<Rightarrow> effect_seen \<Rightarrow> bool \<Rightarrow> action_refusal + dispatch_record" where
  "finish_reconciliation v evidence cleanup seen effect_cleanup =
     (if di_kind v \<noteq> DkReconcile \<or> di_state v \<noteq> DsPreparing \<or> di_settled v \<or> di_claim_consumed v \<or> di_claim_hash v \<noteq> None \<or>
         \<not> cleanup \<or> \<not> digest_syntax evidence
      then Inl ''reconcile-cleanup-unproved''
      else Inr (changed (\<lambda>v. v\<lparr>di_state := DsFailed, di_settled := True, di_cleanup_proven := True, di_evidence := Some evidence,
             di_reconciliation_effect := Some seen, di_reconciliation_cleanup_proven := effect_cleanup\<rparr>) v))"

definition prepare_reconciliation :: "dispatch_record \<Rightarrow> string \<Rightarrow> string \<Rightarrow> action_clock \<Rightarrow> action_refusal + dispatch_record" where
  "prepare_reconciliation v attempt_id startup now =
     (if di_kind v \<noteq> DkInitial \<or> di_settled v \<or> di_state v \<notin> {DsUncertain, DsFailed} \<or> attempt_id = di_attempt_id v \<or>
         startup = di_startup_hash v \<or> Some startup = di_claim_hash v \<or> startup \<in> set (di_retired_startups v) \<or>
         startup \<in> set (di_retired_nonces v)
      then Inl ''reconcile-invocation-not-bound''
      else bind_result (prepare (di_approval_id v) (di_revision v) (di_digest v) (di_target v) attempt_id (di_resource v)
                          startup now True) (\<lambda>result.
           Inr (result\<lparr>di_kind := DkReconcile, di_parent_attempt_id := Some (di_attempt_id v),
             di_retired_startups := dict_fromkeys (di_retired_startups v @ [di_startup_hash v]),
             di_retired_nonces := dict_fromkeys (di_retired_nonces v @
               (case di_claim_hash v of None \<Rightarrow> [] | Some h \<Rightarrow> if h = [] then [] else [h]))\<rparr>)))"

end
