(* ===== verification/Dispatch_Advance.thy ===== *)
theory Dispatch_Advance
  imports Dispatch
begin

text \<open>
  Durable transitions of a dispatch: \<^verbatim>\<open>dispatch_transition\<close> of \<^verbatim>\<open>actions/transitions.py\<close>, which rebuilds a proposed
  record through the reducers from independent observations, and the part of \<^verbatim>\<open>Journal.transition\<close>
  (\<^verbatim>\<open>actions/journal.py\<close>) that accepts a dispatch. Over every run of accepted transitions an effect is claimed at
  most once, within its deadlines, and a settled dispatch never changes.
\<close>

section \<open>Observations\<close>

datatype dispatch_operation = OpReport | OpSettle | OpLookup | OpFinishReconciliation | OpReady | OpConsumeClaim
  | OpRestartPreparation | OpPreparationFailed | OpRetireUnconsumed | OpUncertain

record reconciliation_readback =
  rr_approval_id :: string
  rr_revision :: int
  rr_digest :: string
  rr_target :: string
  rr_attempt_id :: string
  rr_parent_attempt_id :: string
  rr_expected_version :: int
  rr_evidence :: string
  rr_effect :: effect_seen
  rr_read_only :: bool
  rr_invocation_finished :: bool
  rr_effect_cleanup_proven :: bool
  rr_cleanup_proven :: bool

record dispatch_readback =
  db_approval_id :: string
  db_revision :: int
  db_digest :: string
  db_target :: string
  db_attempt_id :: string
  db_claim_hash :: string
  db_expected_version :: int
  db_effect :: effect_seen
  db_evidence :: "string option"
  db_cleanup_proven :: bool

record launcher_readback =
  lr_approval_id :: string
  lr_attempt_id :: string
  lr_startup_hash :: string
  lr_expected_version :: int
  lr_launcher_exited :: bool
  lr_no_children :: bool

text \<open>The fields of \<^verbatim>\<open>TransitionObservation\<close> that a dispatch reads.\<close>

record dispatch_observation =
  ob_now :: "action_clock option"
  ob_operation :: "dispatch_operation option"
  ob_dispatch_recovery :: "dispatch_recovery option"
  ob_reconciliation_readback :: "reconciliation_readback option"
  ob_dispatch_readback :: "dispatch_readback option"
  ob_reconciliation_started :: "action_clock option"
  ob_launcher_readback :: "launcher_readback option"

definition need :: "'a option \<Rightarrow> action_refusal \<Rightarrow> action_refusal + 'a" where
  "need a why = (case a of None \<Rightarrow> Inl why | Some x \<Rightarrow> Inr x)"

definition observed_clock :: "dispatch_observation \<Rightarrow> action_refusal + action_clock" where
  "observed_clock ob = need (ob_now ob) ''dispatch-clock-observation-required''"

definition hash_or_empty :: "string option \<Rightarrow> string" where
  "hash_or_empty h = (case h of None \<Rightarrow> [] | Some x \<Rightarrow> x)"

section \<open>The proposed record, rebuilt\<close>

definition finish_candidate :: "dispatch_record \<Rightarrow> dispatch_observation \<Rightarrow> action_refusal + dispatch_record" where
  "finish_candidate old ob =
     (case ob_reconciliation_readback ob of
        None \<Rightarrow> Inl ''reconciliation-observation-required''
      | Some read \<Rightarrow>
          if (rr_approval_id read, rr_revision read, rr_digest read, rr_target read, rr_attempt_id read,
               Some (rr_parent_attempt_id read), rr_expected_version read) \<noteq> (di_approval_id old, di_revision old, di_digest old, di_target old, di_attempt_id old,
               di_parent_attempt_id old, di_version old) \<or> \<not> rr_read_only read \<or> \<not> rr_invocation_finished read
          then Inl ''reconciliation-observation-required''
          else finish_reconciliation old (rr_evidence read) (rr_cleanup_proven read) (rr_effect read) (rr_effect_cleanup_proven read))"

definition lookup_bound :: "dispatch_record \<Rightarrow> dispatch_record \<Rightarrow> bool" where
  "lookup_bound old child \<longleftrightarrow> di_settled child \<and> di_kind child = DkReconcile \<and> di_parent_attempt_id child = Some (di_attempt_id old) \<and>
     (di_approval_id child, di_revision child, di_digest child, di_target child, di_resource child) =
       (di_approval_id old, di_revision old, di_digest old, di_target old, di_resource old) \<and>
     di_attempt_id child \<notin> set (di_reconciliation_attempts old) \<and> di_cleanup_proven child \<and> di_reconciliation_effect child \<noteq> None"

definition lookup_candidate :: "dispatch_record \<Rightarrow> dispatch_observation \<Rightarrow> dispatch_record option \<Rightarrow> action_refusal + dispatch_record" where
  "lookup_candidate old ob reconciliation =
     (if di_lookups old \<ge> 3 then Inl ''dispatch-readback-exhausted''
      else bind_result (observed_clock ob) (\<lambda>now.
           bind_result (need (ob_reconciliation_started ob) ''reconciliation-clock-history-required'') (\<lambda>started.
           bind_result (clock_elapsed started now) (\<lambda>elapsed.
           case reconciliation of
             None \<Rightarrow> Inl ''settled-reconciliation-provenance-required''
           | Some child \<Rightarrow>
               if \<not> lookup_bound old child then Inl ''settled-reconciliation-provenance-required''
               else bind_result (need (di_reconciliation_effect child) ''settled-reconciliation-provenance-required'') (\<lambda>seen.
                    reconcile_lookup old elapsed seen (di_reconciliation_cleanup_proven child) (di_evidence child))))))"

definition launcher_candidate :: "dispatch_record \<Rightarrow> dispatch_observation \<Rightarrow> dispatch_operation \<Rightarrow> action_refusal + dispatch_record" where
  "launcher_candidate old ob operation =
     (case ob_launcher_readback ob of
        None \<Rightarrow> Inl ''launcher-cleanup-observation-required''
      | Some read \<Rightarrow>
          if (lr_approval_id read, lr_attempt_id read, lr_startup_hash read, lr_expected_version read) \<noteq>
               (di_approval_id old, di_attempt_id old, di_startup_hash old, di_version old)
          then Inl ''launcher-cleanup-observation-required''
          else if operation = OpPreparationFailed then preparation_failed old (lr_launcher_exited read) (lr_no_children read)
          else retire_unconsumed old (hash_or_empty (di_claim_hash old)) (lr_launcher_exited read) (lr_no_children read))"

definition report_candidate :: "dispatch_record \<Rightarrow> dispatch_observation \<Rightarrow> action_refusal + dispatch_record" where
  "report_candidate old ob =
     (case ob_dispatch_readback ob of
        None \<Rightarrow> Inl ''dispatch-report-observation-required''
      | Some read \<Rightarrow>
          if (db_approval_id read, db_revision read, db_digest read, db_target read, db_attempt_id read,
               Some (db_claim_hash read), db_expected_version read) \<noteq>
             (di_approval_id old, di_revision old, di_digest old, di_target old, di_attempt_id old, di_claim_hash old, di_version old)
          then Inl ''dispatch-report-observation-required''
          else report old (db_attempt_id read) (db_claim_hash read) (db_digest read) (db_target read) (db_effect read)
                 (db_evidence read) (db_cleanup_proven read))"

text \<open>\<open>Inr None\<close>: no operation of the contract, which no proposal can match.\<close>

definition dispatch_candidate :: "dispatch_record \<Rightarrow> dispatch_record \<Rightarrow> dispatch_observation \<Rightarrow> dispatch_record option \<Rightarrow>
    action_refusal + dispatch_record option" where
  "dispatch_candidate old v ob reconciliation =
     (let made = (\<lambda>r. bind_result r (\<lambda>c. Inr (Some c))) in
      case ob_operation ob of
        None \<Rightarrow> Inr None
      | Some OpFinishReconciliation \<Rightarrow> if di_kind old = DkReconcile then made (finish_candidate old ob) else Inr None
      | Some OpSettle \<Rightarrow> made (bind_result (need (ob_dispatch_recovery ob) ''dispatch-recovery-observation-required'') (settle_dispatch old))
      | Some OpLookup \<Rightarrow> made (lookup_candidate old ob reconciliation)
      | Some OpReady \<Rightarrow> made (bind_result (observed_clock ob) (\<lambda>now. ready old (hash_or_empty (di_claim_hash v)) now True True))
      | Some OpConsumeClaim \<Rightarrow> made (bind_result (observed_clock ob) (\<lambda>now. consume_claim old (hash_or_empty (di_claim_hash old)) now True))
      | Some OpRestartPreparation \<Rightarrow> made (bind_result (observed_clock ob) (restart_preparation old (di_startup_hash v)))
      | Some OpPreparationFailed \<Rightarrow> made (launcher_candidate old ob OpPreparationFailed)
      | Some OpRetireUnconsumed \<Rightarrow> made (launcher_candidate old ob OpRetireUnconsumed)
      | Some OpUncertain \<Rightarrow> made (dispatch_uncertain old)
      | Some OpReport \<Rightarrow> made (report_candidate old ob))"

definition dispatch_transition :: "dispatch_record \<Rightarrow> dispatch_record \<Rightarrow> dispatch_observation \<Rightarrow> dispatch_record option \<Rightarrow> action_refusal + unit" where
  "dispatch_transition old v ob reconciliation =
     bind_result (dispatch_candidate old v ob reconciliation) (\<lambda>c.
     guard_result (c = Some v) ''dispatch-transition-not-closed'')"

section \<open>Accepting a transition\<close>

definition dispatch_key :: "dispatch_record \<Rightarrow> string" where
  "dispatch_key v = (if di_kind v = DkInitial then di_approval_id v else di_approval_id v @ '':reconcile:'' @ di_attempt_id v)"

definition advance_dispatch :: "int \<Rightarrow> dispatch_record \<Rightarrow> dispatch_record \<Rightarrow> dispatch_observation \<Rightarrow> dispatch_record option \<Rightarrow>
    dispatch_record list \<Rightarrow> action_refusal + dispatch_record" where
  "advance_dispatch expected old v ob reconciliation children =
     (if v = old then Inr old
      else if di_version old \<noteq> expected then Inl ''stale-fixture-version''
      else if di_version v \<noteq> di_version old + 1 then Inl ''invalid-fixture-transition''
      else bind_result (dispatch_transition old v ob reconciliation) (\<lambda>_.
           bind_result (if di_lookups v \<noteq> di_lookups old
             then bind_result (need reconciliation ''reconciliation-record-required'') (\<lambda>child.
                  Inr (v\<lparr>di_reconciliation_attempts := di_reconciliation_attempts old @ [di_attempt_id child]\<rparr>))
             else Inr v) (\<lambda>v.
           if dispatch_key v \<noteq> dispatch_key old then Inl ''immutable-approval-binding''
           else if di_settled v \<and> di_kind v = DkInitial \<and> list_ex (\<lambda>c. \<not> di_settled c) children
           then Inl ''reconciliation-invocation-still-held''
           else Inr v)))"

section \<open>One operation of the contract\<close>

inductive dispatch_step :: "dispatch_record \<Rightarrow> dispatch_record \<Rightarrow> bool" where
  st_ready: "ready v h now g r = Inr w \<Longrightarrow> dispatch_step v w"
| st_restart: "restart_preparation v h now = Inr w \<Longrightarrow> dispatch_step v w"
| st_failed: "preparation_failed v e n = Inr w \<Longrightarrow> dispatch_step v w"
| st_consume: "consume_claim v h now g = Inr w \<Longrightarrow> dispatch_step v w"
| st_retire: "retire_unconsumed v h e n = Inr w \<Longrightarrow> dispatch_step v w"
| st_uncertain: "dispatch_uncertain v = Inr w \<Longrightarrow> dispatch_step v w"
| st_report: "report v a h d tg ef ev cl = Inr w \<Longrightarrow> dispatch_step v w"
| st_lookup: "reconcile_lookup v el ef cl ev = Inr w \<Longrightarrow> dispatch_step v w"
| st_settle: "settle_dispatch v ob = Inr w \<Longrightarrow> dispatch_step v w"
| st_finish: "finish_reconciliation v ev' cl ef cl' = Inr w \<Longrightarrow> dispatch_step v w"

lemma need_Inr [simp]: "need a why = Inr x \<longleftrightarrow> a = Some x"
  by (cases a) (simp_all add: need_def)

lemma finish_candidate_step: "finish_candidate v ob = Inr w \<Longrightarrow> dispatch_step v w"
  by (auto simp: finish_candidate_def split: option.split_asm if_split_asm intro: st_finish)

lemma lookup_candidate_step: "lookup_candidate v ob rec = Inr w \<Longrightarrow> dispatch_step v w"
  by (cases rec) (auto simp: lookup_candidate_def bind_result_eq_Inr split: if_split_asm intro: st_lookup)

lemma launcher_candidate_step: "launcher_candidate v ob k = Inr w \<Longrightarrow> dispatch_step v w"
  by (auto simp: launcher_candidate_def split: option.split_asm if_split_asm intro: st_failed st_retire)

lemma report_candidate_step: "report_candidate v ob = Inr w \<Longrightarrow> dispatch_step v w"
  by (auto simp: report_candidate_def split: option.split_asm if_split_asm intro: st_report)

lemmas candidate_steps = finish_candidate_step lookup_candidate_step launcher_candidate_step report_candidate_step

lemma candidate_step:
  assumes "dispatch_candidate old v ob rec = Inr (Some w)"
  shows "dispatch_step old w"
proof (cases "ob_operation ob")
  case None
  with assms show ?thesis by (simp add: dispatch_candidate_def)
next
  case (Some k)
  then show ?thesis using assms
    by (cases k) (auto simp: dispatch_candidate_def bind_result_eq_Inr split: if_split_asm intro: dispatch_step.intros candidate_steps)
qed

definition stored_as :: "dispatch_record \<Rightarrow> dispatch_record \<Rightarrow> dispatch_record \<Rightarrow> bool" where
  "stored_as old u w \<longleftrightarrow> (if di_lookups u = di_lookups old then w = u
     else \<exists>a. w = u\<lparr>di_reconciliation_attempts := di_reconciliation_attempts old @ [a]\<rparr>)"

lemma advance_cases:
  assumes "advance_dispatch expected old v ob rec ch = Inr w"
  shows "w = old \<or> (dispatch_candidate old v ob rec = Inr (Some v) \<and> di_version v = di_version old + 1 \<and>
    di_version old = expected \<and> dispatch_key w = dispatch_key old \<and> stored_as old v w)"
proof (cases "v = old")
  case True
  with assms show ?thesis by (simp add: advance_dispatch_def)
next
  case False
  have "(if a then Inl x else if b then Inl y else Inr z) = Inr w \<longleftrightarrow> \<not> a \<and> \<not> b \<and> z = w" for a b :: bool and x y :: action_refusal and z
    by simp
  with assms False show ?thesis
    by (auto simp: advance_dispatch_def dispatch_transition_def bind_result_eq_Inr stored_as_def split: if_split_asm)
qed

section \<open>Invariant\<close>

definition used_nonces :: "dispatch_record \<Rightarrow> string list" where
  "used_nonces v = di_startup_hash v # di_retired_startups v @ di_retired_nonces v @
     (case di_claim_hash v of None \<Rightarrow> [] | Some h \<Rightarrow> [h])"

definition dispatch_bounds :: "dispatch_record \<Rightarrow> bool" where
  "dispatch_bounds v \<longleftrightarrow> di_deadline_ns v = ck_mono_ns (di_started v) + DISPATCH_WINDOW_NS \<and>
     di_preparation_deadline_ns v \<le> di_deadline_ns v \<and> (\<forall>d. di_claim_deadline_ns v = Some d \<longrightarrow> d \<le> di_deadline_ns v) \<and>
     di_launch_attempts v \<le> 3 \<and> (di_kind v = DkInitial \<longrightarrow> di_launch_attempts v = 1 + length (di_retired_startups v)) \<and>
     di_lookups v \<le> 3 \<and> distinct (used_nonces v)"

definition dispatch_wf :: "dispatch_record \<Rightarrow> bool" where
  "dispatch_wf v \<longleftrightarrow> dispatch_bounds v \<and>
     (di_state v \<in> {DsPreparing, DsHeld} \<longrightarrow> di_claim_hash v = None \<and> \<not> di_claim_consumed v \<and> \<not> di_settled v) \<and>
     (di_state v = DsReady \<longrightarrow> di_claim_hash v \<noteq> None \<and> \<not> di_claim_consumed v \<and> \<not> di_settled v) \<and>
     (di_state v \<in> {DsExecuting, DsSucceeded} \<longrightarrow> di_claim_consumed v) \<and>
     (di_claim_consumed v \<longrightarrow> di_claim_hash v \<noteq> None) \<and> di_state v \<noteq> DsDenied \<and>
     (di_settled v \<longrightarrow> di_state v \<in> {DsSucceeded, DsFailed} \<and> di_cleanup_proven v \<and> some_digest (di_evidence v)) \<and>
     (di_state v = DsSucceeded \<longrightarrow> di_settled v)"

lemma changed_simps [simp]: "changed f v = (f v)\<lparr>di_version := di_version v + 1\<rparr>"
  by (simp add: changed_def)

lemmas reducer_defs = ready_def restart_preparation_def preparation_failed_def consume_claim_def retire_unconsumed_def
  dispatch_uncertain_def report_def reconcile_lookup_def settle_dispatch_def finish_reconciliation_def

lemma prepare_wf: "prepare ap rv dg tg att rs sh now fin = Inr v \<Longrightarrow> dispatch_wf v"
  by (auto simp: prepare_def bind_result_eq_Inr dispatch_wf_def dispatch_bounds_def used_nonces_def DISPATCH_WINDOW_NS_def
      PREPARATION_WINDOW_NS_def split: if_split_asm)

lemma bounds_update [simp]:
  "dispatch_bounds (v\<lparr>di_state := a\<rparr>) = dispatch_bounds v" "dispatch_bounds (v\<lparr>di_version := b\<rparr>) = dispatch_bounds v"
  "dispatch_bounds (v\<lparr>di_claim_consumed := c\<rparr>) = dispatch_bounds v" "dispatch_bounds (v\<lparr>di_evidence := d\<rparr>) = dispatch_bounds v"
  "dispatch_bounds (v\<lparr>di_cleanup_proven := e\<rparr>) = dispatch_bounds v" "dispatch_bounds (v\<lparr>di_settled := e\<rparr>) = dispatch_bounds v"
  "dispatch_bounds (v\<lparr>di_recovery_operator_event := d\<rparr>) = dispatch_bounds v"
  "dispatch_bounds (v\<lparr>di_reconciliation_attempts := f\<rparr>) = dispatch_bounds v"
  "dispatch_bounds (v\<lparr>di_reconciliation_effect := g\<rparr>) = dispatch_bounds v"
  "dispatch_bounds (v\<lparr>di_reconciliation_cleanup_proven := e\<rparr>) = dispatch_bounds v"
  by (simp_all add: dispatch_bounds_def used_nonces_def)

lemma bounds_lookup:
  assumes "dispatch_bounds v" "di_lookups v < 3"
  shows "dispatch_bounds (v\<lparr>di_lookups := Suc (di_lookups v)\<rparr>)"
  using assms by (auto simp: dispatch_bounds_def used_nonces_def)

lemma bounds_ready:
  assumes "dispatch_bounds v" "di_claim_hash v = None" "h \<noteq> di_startup_hash v" "h \<notin> set (di_retired_nonces v)"
    "h \<notin> set (di_retired_startups v)" "d \<le> di_deadline_ns v"
  shows "dispatch_bounds (v\<lparr>di_claim_hash := Some h, di_claim_deadline_ns := Some d\<rparr>)"
  using assms by (auto simp: dispatch_bounds_def used_nonces_def)

lemma bounds_retire:
  assumes "dispatch_bounds v" "di_claim_hash v = Some h" "ns = di_retired_nonces v"
  shows "dispatch_bounds (v\<lparr>di_claim_hash := None, di_claim_deadline_ns := None, di_retired_nonces := ns @ [h]\<rparr>)"
  using assms by (auto simp: dispatch_bounds_def used_nonces_def)

lemma bounds_restart:
  assumes "dispatch_bounds v" "di_launch_attempts v < 3" "di_claim_hash v = None" "h \<noteq> di_startup_hash v"
    "h \<notin> set (di_retired_nonces v)" "h \<notin> set (di_retired_startups v)" "d \<le> di_deadline_ns v"
    "old = di_startup_hash v" "hs = di_retired_startups v" "n = di_launch_attempts v"
  shows "dispatch_bounds (v\<lparr>di_startup_hash := h, di_retired_startups := hs @ [old], di_preparation_deadline_ns := d,
    di_launch_attempts := Suc n\<rparr>)"
  using assms by (auto simp: dispatch_bounds_def used_nonces_def)

text \<open>The rest of the invariant reads only these fields.\<close>

definition flags_ok :: "dispatch_state \<Rightarrow> bool \<Rightarrow> bool \<Rightarrow> bool \<Rightarrow> bool \<Rightarrow> bool \<Rightarrow> bool" where
  "flags_ok st claimed consumed settled clean proven \<longleftrightarrow>
     (st \<in> {DsPreparing, DsHeld} \<longrightarrow> \<not> claimed \<and> \<not> consumed \<and> \<not> settled) \<and>
     (st = DsReady \<longrightarrow> claimed \<and> \<not> consumed \<and> \<not> settled) \<and>
     (st \<in> {DsExecuting, DsSucceeded} \<longrightarrow> consumed) \<and> (consumed \<longrightarrow> claimed) \<and> st \<noteq> DsDenied \<and>
     (settled \<longrightarrow> st \<in> {DsSucceeded, DsFailed} \<and> clean \<and> proven) \<and> (st = DsSucceeded \<longrightarrow> settled)"

lemma dispatch_wf_iff: "dispatch_wf v \<longleftrightarrow> dispatch_bounds v \<and>
    flags_ok (di_state v) (di_claim_hash v \<noteq> None) (di_claim_consumed v) (di_settled v) (di_cleanup_proven v) (some_digest (di_evidence v))"
  unfolding dispatch_wf_def flags_ok_def by auto

lemma ready_wf: "ready v h now g r = Inr w \<Longrightarrow> dispatch_wf v \<Longrightarrow> dispatch_wf w"
  by (auto simp: ready_def bind_result_eq_Inr dispatch_wf_iff flags_ok_def intro!: bounds_ready split: if_split_asm)

lemma restart_wf: "restart_preparation v h now = Inr w \<Longrightarrow> dispatch_wf v \<Longrightarrow> dispatch_wf w"
  by (auto simp: restart_preparation_def bind_result_eq_Inr dispatch_wf_iff flags_ok_def intro!: bounds_restart split: if_split_asm)

lemma preparation_failed_wf: "preparation_failed v e n = Inr w \<Longrightarrow> dispatch_wf v \<Longrightarrow> dispatch_wf w"
  by (auto simp: preparation_failed_def dispatch_wf_iff flags_ok_def split: if_split_asm)

lemma consume_wf: "consume_claim v h now g = Inr w \<Longrightarrow> dispatch_wf v \<Longrightarrow> dispatch_wf w"
  by (auto simp: consume_claim_def bind_result_eq_Inr dispatch_wf_iff flags_ok_def split: if_split_asm)

lemma retire_wf: "retire_unconsumed v h e n = Inr w \<Longrightarrow> dispatch_wf v \<Longrightarrow> dispatch_wf w"
  by (auto simp: retire_unconsumed_def dispatch_wf_iff flags_ok_def intro!: bounds_retire split: if_split_asm)

lemma uncertain_wf: "dispatch_uncertain v = Inr w \<Longrightarrow> dispatch_wf v \<Longrightarrow> dispatch_wf w"
  by (cases "di_state v"; cases "di_settled v"; clarsimp simp: dispatch_uncertain_def dispatch_wf_iff flags_ok_def)

lemma report_wf: "report v a h d tg ef ev cl = Inr w \<Longrightarrow> dispatch_wf v \<Longrightarrow> dispatch_wf w"
  by (cases "di_state v"; cases "di_settled v"; cases ev; clarsimp simp: report_def dispatch_wf_iff flags_ok_def some_digest_def split: if_split_asm)

lemma lookup_guards:
  assumes "reconcile_lookup v el ef cl ev = Inr w"
  shows "di_kind v = DkInitial" "di_state v \<in> {DsUncertain, DsFailed}" "\<not> di_settled v" "di_lookups v < 3"
  using assms unfolding reconcile_lookup_def by (simp_all only: not_le [symmetric]) (metis Inr_Inl_False)+

lemma lookup_result:
  assumes "reconcile_lookup v el ef cl ev = Inr w"
  shows "\<exists>st sd b k. w = v\<lparr>di_lookups := Suc (di_lookups v), di_state := st, di_settled := sd, di_evidence := b, di_cleanup_proven := k,
        di_version := di_version v + 1\<rparr> \<and>
    (st \<in> {DsUncertain, DsFailed} \<and> \<not> sd \<or> st = DsSucceeded \<and> sd \<and> di_claim_consumed v \<and> some_digest b \<and> k)"
proof -
  note g = lookup_guards [OF assms]
  have due: "\<not> el < LOOKUP_DUE ! di_lookups v" using assms unfolding reconcile_lookup_def by (metis Inr_Inl_False)
  note r = assms [unfolded reconcile_lookup_def]
  have guard: "\<not> (di_kind v \<noteq> DkInitial \<or> di_state v \<notin> {DsUncertain, DsFailed} \<or> di_settled v \<or> di_lookups v \<ge> 3)"
    using g by simp
  note r = r [unfolded if_not_P [OF guard] if_not_P [OF due]]
  let ?w = "\<lambda>st sd b k. v\<lparr>di_lookups := Suc (di_lookups v), di_state := st, di_settled := sd, di_evidence := b, di_cleanup_proven := k,
        di_version := di_version v + 1\<rparr>"
  show ?thesis
  proof (cases "ef = EffSucceeded \<and> \<not> di_claim_consumed v")
    case True
    have "w = ?w (di_state v) (di_settled v) (di_evidence v) (di_cleanup_proven v)"
      using r [unfolded if_P [OF True]] by simp
    then show ?thesis using g(2,3) by blast
  next
    case False
    note r = r [unfolded if_not_P [OF False]]
    have nf: "\<not> (di_state v = DsFailed \<and> ef = EffSucceeded)" using r by (metis Inr_Inl_False)
    note r = r [unfolded if_not_P [OF nf]]
    show ?thesis
    proof (cases "ef = EffSucceeded \<and> cl \<and> some_digest ev")
      case True
      have "w = ?w DsSucceeded True ev True" using r [unfolded if_P [OF True]] by simp
      then show ?thesis using True False by blast
    next
      case False
      have "w = ?w (if di_state v = DsFailed \<or> (ef = EffAbsent \<and> cl \<and> some_digest ev) then DsFailed else DsUncertain) (di_settled v)
          (if di_state v = DsFailed then di_evidence v else ev) (if di_state v = DsFailed then di_cleanup_proven v else cl)"
        unfolding r [unfolded if_not_P [OF False] sum.inject changed_simps, symmetric]
        by (rule dispatch_record.equality) (simp_all split del: if_split)
      moreover have "(if di_state v = DsFailed \<or> (ef = EffAbsent \<and> cl \<and> some_digest ev) then DsFailed else DsUncertain) \<in> {DsUncertain, DsFailed}"
        by simp
      ultimately show ?thesis using g(3) by blast
    qed
  qed
qed

lemma lookup_wf:
  assumes "reconcile_lookup v el ef cl ev = Inr w" "dispatch_wf v"
  shows "dispatch_wf w"
proof -
  from lookup_result [OF assms(1)] obtain st sd b k where w: "w = v\<lparr>di_lookups := Suc (di_lookups v), di_state := st, di_settled := sd,
      di_evidence := b, di_cleanup_proven := k, di_version := di_version v + 1\<rparr>"
    and st: "st \<in> {DsUncertain, DsFailed} \<and> \<not> sd \<or> st = DsSucceeded \<and> sd \<and> di_claim_consumed v \<and> some_digest b \<and> k"
    by blast
  have b: "dispatch_bounds (v\<lparr>di_lookups := Suc (di_lookups v)\<rparr>)"
    using assms(2) lookup_guards(4) [OF assms(1)] by (intro bounds_lookup) (simp_all add: dispatch_wf_iff)
  have "di_claim_consumed v \<longrightarrow> di_claim_hash v \<noteq> None" using assms(2) by (simp add: dispatch_wf_def)
  then have "flags_ok st (di_claim_hash v \<noteq> None) (di_claim_consumed v) sd k (some_digest b)"
    using st unfolding flags_ok_def by auto
  then show ?thesis unfolding w dispatch_wf_iff using b by simp
qed

lemma settle_result:
  assumes "settle_dispatch v ob = Inr w"
  shows "w = v\<lparr>di_state := (if dr_attested_succeeded ob then DsSucceeded else DsFailed), di_settled := True, di_cleanup_proven := True,
      di_evidence := Some (dr_evidence ob), di_recovery_operator_event := Some (dr_operator_event ob), di_version := di_version v + 1\<rparr>"
    "\<not> di_settled v" "di_state v \<in> {DsHeld, DsUncertain, DsFailed}" "dr_attested_succeeded ob \<Longrightarrow> di_claim_consumed v"
    "digest_syntax (dr_evidence ob)"
proof -
  obtain x where "clock_discontinuous v ob = Inr x" using assms by (cases "clock_discontinuous v ob") (simp_all add: settle_dispatch_def)
  note r = assms [unfolded settle_dispatch_def this bind_result_simps Let_def]
  have branch: "b = False \<and> z = w" if "(if b then Inl y else Inr z) = (Inr w :: action_refusal + dispatch_record)" for b y z
    using that by (cases b) simp_all
  note c = branch [OF r]
  show "w = v\<lparr>di_state := (if dr_attested_succeeded ob then DsSucceeded else DsFailed), di_settled := True, di_cleanup_proven := True,
      di_evidence := Some (dr_evidence ob), di_recovery_operator_event := Some (dr_operator_event ob), di_version := di_version v + 1\<rparr>"
    using c [THEN conjunct2] unfolding changed_simps by (rule sym)
  show "\<not> di_settled v" "di_state v \<in> {DsHeld, DsUncertain, DsFailed}" "dr_attested_succeeded ob \<Longrightarrow> di_claim_consumed v"
    "digest_syntax (dr_evidence ob)" using c [THEN conjunct1] by blast+
qed

lemma settle_wf:
  assumes "settle_dispatch v ob = Inr w" "dispatch_wf v"
  shows "dispatch_wf w"
proof -
  note r = settle_result [OF assms(1)]
  have b: "dispatch_bounds w" unfolding r(1) using assms(2) by (simp add: dispatch_wf_def)
  have "di_claim_consumed v \<longrightarrow> di_claim_hash v \<noteq> None" using assms(2) by (simp add: dispatch_wf_def)
  then have "flags_ok (if dr_attested_succeeded ob then DsSucceeded else DsFailed) (di_claim_hash v \<noteq> None) (di_claim_consumed v) True True
      (some_digest (Some (dr_evidence ob)))"
    using r(4,5) by (auto simp: flags_ok_def some_digest_def)
  then show ?thesis unfolding dispatch_wf_iff using b by (simp add: r(1) split del: if_split)
qed

lemma finish_wf: "finish_reconciliation v ev cl ef cl' = Inr w \<Longrightarrow> dispatch_wf v \<Longrightarrow> dispatch_wf w"
  by (auto simp: finish_reconciliation_def dispatch_wf_iff flags_ok_def some_digest_def split: if_split_asm)

lemmas reducers_wf = ready_wf restart_wf preparation_failed_wf consume_wf retire_wf uncertain_wf report_wf lookup_wf settle_wf finish_wf

lemma step_wf:
  assumes "dispatch_step v w" "dispatch_wf v"
  shows "dispatch_wf w"
  using assms(1) by cases (erule reducers_wf [OF _ assms(2)])+

lemma consumed_states: "dispatch_wf v \<Longrightarrow> di_claim_consumed v \<Longrightarrow> di_state v \<in> {DsExecuting, DsUncertain, DsSucceeded, DsFailed}"
  by (cases "di_state v") (auto simp: dispatch_wf_def)

lemma settled_states: "dispatch_wf v \<Longrightarrow> di_settled v \<Longrightarrow> di_state v \<in> {DsSucceeded, DsFailed}"
  by (simp add: dispatch_wf_def)

lemma settled_final:
  assumes "dispatch_step v w" "dispatch_wf v" "di_settled v"
  shows "w = v"
proof -
  have s: "di_state v \<noteq> DsPreparing" "di_state v \<noteq> DsHeld" "di_state v \<noteq> DsReady"
    using settled_states [OF assms(2,3)] by auto
  from assms(1) show ?thesis
    by cases (use s assms(3) in \<open>simp_all add: ready_def restart_preparation_def preparation_failed_def consume_claim_def
      retire_unconsumed_def dispatch_uncertain_def report_def reconcile_lookup_def settle_dispatch_def finish_reconciliation_def
      bind_result_eq_Inr Let_def split: if_split_asm\<close>)
qed

text \<open>The reducers leave the identity of a dispatch alone, and never undo a consumed claim.\<close>

definition same_dispatch :: "dispatch_record \<Rightarrow> dispatch_record \<Rightarrow> bool" where
  "same_dispatch v w \<longleftrightarrow> di_approval_id w = di_approval_id v \<and> di_revision w = di_revision v \<and> di_digest w = di_digest v \<and>
     di_target w = di_target v \<and> di_attempt_id w = di_attempt_id v \<and> di_resource w = di_resource v \<and> di_started w = di_started v \<and>
     di_kind w = di_kind v \<and> (di_claim_consumed v \<longrightarrow> di_claim_consumed w \<and> di_claim_hash w = di_claim_hash v)"

lemma same_lookup: "reconcile_lookup v el ef cl ev = Inr w \<Longrightarrow> same_dispatch v w"
  by (drule lookup_result) (auto simp: same_dispatch_def)

lemma same_report: "report v a h d tg ef ev cl = Inr w \<Longrightarrow> same_dispatch v w"
  by (clarsimp simp: report_def same_dispatch_def split: if_split_asm)

lemma same_settle: "settle_dispatch v ob = Inr w \<Longrightarrow> same_dispatch v w"
  by (drule settle_result(1)) (simp add: same_dispatch_def)

lemma same_rest:
  "ready v h now g r = Inr w \<Longrightarrow> same_dispatch v w" "restart_preparation v h now = Inr w \<Longrightarrow> same_dispatch v w"
  "preparation_failed v e n = Inr w \<Longrightarrow> same_dispatch v w" "consume_claim v h now g = Inr w \<Longrightarrow> same_dispatch v w"
  "retire_unconsumed v h e n = Inr w \<Longrightarrow> same_dispatch v w" "dispatch_uncertain v = Inr w \<Longrightarrow> same_dispatch v w"
  "finish_reconciliation v ev cl ef cl' = Inr w \<Longrightarrow> same_dispatch v w"
  by (clarsimp simp: ready_def restart_preparation_def preparation_failed_def consume_claim_def retire_unconsumed_def
      dispatch_uncertain_def finish_reconciliation_def same_dispatch_def bind_result_eq_Inr split: if_split_asm)+

lemma step_same: "dispatch_step v w \<Longrightarrow> same_dispatch v w"
  by (erule dispatch_step.cases; clarify) (erule same_rest same_report same_lookup same_settle)+

section \<open>Runs of accepted transitions\<close>

inductive advance_step :: "dispatch_record \<Rightarrow> dispatch_record \<Rightarrow> bool" where
  advance: "advance_dispatch expected v p ob rec ch = Inr w \<Longrightarrow> advance_step v w"

lemma stored_as_eq:
  assumes "stored_as v p w"
  obtains as where "w = p\<lparr>di_reconciliation_attempts := as\<rparr>"
proof (cases "di_lookups p = di_lookups v")
  case True
  with assms have "w = p\<lparr>di_reconciliation_attempts := di_reconciliation_attempts p\<rparr>" by (simp add: stored_as_def)
  then show thesis by (rule that)
next
  case False
  with assms that show thesis by (auto simp: stored_as_def)
qed

lemma advance_step_cases:
  assumes "advance_step v w"
  obtains "w = v" | p as where "dispatch_step v p" "w = p\<lparr>di_reconciliation_attempts := as\<rparr>" "di_version p = di_version v + 1"
  using assms
proof cases
  case (advance expected p ob rec ch)
  from advance_cases [OF this] show thesis
  proof
    assume p: "dispatch_candidate v p ob rec = Inr (Some p) \<and> di_version p = di_version v + 1 \<and>
      di_version v = expected \<and> dispatch_key w = dispatch_key v \<and> stored_as v p w"
    then obtain as where "w = p\<lparr>di_reconciliation_attempts := as\<rparr>" using stored_as_eq by blast
    then show thesis using p candidate_step that(2) by blast
  qed (rule that(1))
qed

lemma attempts_wf [simp]: "dispatch_wf (v\<lparr>di_reconciliation_attempts := as\<rparr>) = dispatch_wf v"
  by (simp add: dispatch_wf_def)

lemma attempts_same [simp]: "same_dispatch v (w\<lparr>di_reconciliation_attempts := as\<rparr>) = same_dispatch v w"
  by (simp add: same_dispatch_def)

lemma same_refl [simp]: "same_dispatch v v"
  by (simp add: same_dispatch_def)

lemma same_trans: "same_dispatch u v \<Longrightarrow> same_dispatch v w \<Longrightarrow> same_dispatch u w"
  by (auto simp: same_dispatch_def)

interpretation advance_inv: step_invariant advance_step dispatch_wf
  by unfold_locales (auto elim!: advance_step_cases dest: step_wf)

lemma advance_same: "advance_step v w \<Longrightarrow> same_dispatch v w"
  by (auto elim!: advance_step_cases dest: step_same)

interpretation advance_hist: step_history advance_step "\<lambda>v. v" same_dispatch
  by unfold_locales (simp, erule (1) same_trans, erule advance_same)

lemmas run_same = advance_hist.run_le

lemma advance_settled: "advance_step v w \<Longrightarrow> dispatch_wf v \<Longrightarrow> di_settled v \<Longrightarrow> w = v"
proof (erule advance_step_cases)
  fix p as
  assume "dispatch_wf v" "di_settled v" "dispatch_step v p" "di_version p = di_version v + 1"
  then show "w = v" using settled_final by fastforce
qed

lemma run_settled:
  assumes "advance_step\<^sup>*\<^sup>* v w" "dispatch_wf v" "di_settled v"
  shows "w = v"
  using assms by (induction rule: rtranclp_induct) (auto dest: advance_settled)

lemma prepare_same: "prepare ap rv dg tg att rs sh now fin = Inr v \<Longrightarrow>
    di_approval_id v = ap \<and> di_revision v = rv \<and> di_digest v = dg \<and> di_target v = tg \<and> di_attempt_id v = att \<and> di_started v = now \<and>
    di_kind v = DkInitial \<and> \<not> di_claim_consumed v"
  by (auto simp: prepare_def bind_result_eq_Inr split: if_split_asm)

text \<open>
  C9. An approved effect is executed at most once: over any run of transitions the action journal accepts, once a
  dispatch has consumed its claim it keeps that claim, its approval, revision, digest, target and attempt, it
  never again prepares, waits for or offers a claim, and no further claim can be made ready or consumed,
  whatever the reports, lookups and recoveries say. A settled dispatch never changes at all.
\<close>

theorem dispatch_effect_once:
  assumes "prepare ap rv dg tg att rs sh now fin = Inr v" and "advance_step\<^sup>*\<^sup>* v s" and "advance_step\<^sup>*\<^sup>* s t" and "di_claim_consumed s"
  shows "di_claim_consumed t \<and> di_claim_hash t = di_claim_hash s \<and>
    (di_approval_id t, di_revision t, di_digest t, di_target t, di_attempt_id t) = (ap, rv, dg, tg, att) \<and>
    di_state t \<in> {DsExecuting, DsUncertain, DsSucceeded, DsFailed} \<and>
    (\<forall>h k g r. \<exists>why. ready t h k g r = Inl why) \<and> (\<forall>h k g. \<exists>why. consume_claim t h k g = Inl why) \<and>
    (\<forall>h k. \<exists>why. restart_preparation t h k = Inl why) \<and> (di_settled s \<longrightarrow> t = s)"
proof -
  have wf: "dispatch_wf s" "dispatch_wf t"
    using advance_inv.run_invar [OF assms(2) prepare_wf [OF assms(1)]] advance_inv.run_invar [OF assms(3)] by blast+
  have "same_dispatch v t" using same_trans [OF run_same [OF assms(2)] run_same [OF assms(3)]] .
  moreover have c: "di_claim_consumed t" "di_claim_hash t = di_claim_hash s"
    using run_same [OF assms(3)] assms(4) by (simp_all add: same_dispatch_def)
  moreover have "\<exists>why. ready t h k g r = Inl why" for h k g r
    using c(1) by (cases "within_deadline t k") (simp_all add: ready_def)
  moreover have "\<exists>why. consume_claim t h k g = Inl why" for h k g
    using c(1) by (cases "within_deadline t k") (simp_all add: consume_claim_def)
  moreover have "\<exists>why. restart_preparation t h k = Inl why" for h k
    using c(1) by (cases "within_deadline t k") (simp_all add: restart_preparation_def)
  ultimately show ?thesis
    using prepare_same [OF assms(1)] consumed_states [OF wf(2) c(1)] run_settled [OF assms(3) wf(1)]
    by (auto simp: same_dispatch_def)
qed

text \<open>An example: a dispatch is prepared, made ready, claimed and reported as done.\<close>

definition ex_hash :: "char \<Rightarrow> string" where "ex_hash c = replicate 64 c"

definition ex_clock :: "int \<Rightarrow> action_clock" where
  "ex_clock n = \<lparr>ck_boot_id = ''boot'', ck_mono_ns = n, ck_utc_ns = n\<rparr>"

definition ex_prepared :: dispatch_record where
  "ex_prepared = \<lparr>di_approval_id = ''act-12345'', di_revision = 1, di_digest = ex_hash CHR ''d'', di_target = ex_hash CHR ''e'',
     di_attempt_id = ''a1'', di_resource = ''repo'', di_startup_hash = ex_hash CHR ''1'', di_started = ex_clock 0,
     di_deadline_ns = 60000000000, di_preparation_deadline_ns = 30000000000, di_state = DsPreparing, di_version = 0,
     di_claim_hash = None, di_claim_deadline_ns = None, di_claim_consumed = False, di_launch_attempts = 1,
     di_retired_startups = [], di_retired_nonces = [], di_lookups = 0, di_evidence = None, di_cleanup_proven = False,
     di_settled = False, di_recovery_operator_event = None, di_kind = DkInitial, di_parent_attempt_id = None,
     di_reconciliation_attempts = [], di_reconciliation_effect = None, di_reconciliation_cleanup_proven = False\<rparr>"

definition ex_ready :: dispatch_record where
  "ex_ready = ex_prepared\<lparr>di_state := DsReady, di_claim_hash := Some (ex_hash CHR ''2''), di_claim_deadline_ns := Some 6000000000, di_version := 1\<rparr>"

definition ex_claimed :: dispatch_record where
  "ex_claimed = ex_ready\<lparr>di_state := DsExecuting, di_claim_consumed := True, di_version := 2\<rparr>"

definition ex_done :: dispatch_record where
  "ex_done = ex_claimed\<lparr>di_state := DsSucceeded, di_evidence := Some (ex_hash CHR ''f''), di_cleanup_proven := True, di_settled := True,
     di_version := 3\<rparr>"

definition ex_observed :: "dispatch_operation \<Rightarrow> int \<Rightarrow> dispatch_observation" where
  "ex_observed k n = \<lparr>ob_now = Some (ex_clock n), ob_operation = Some k, ob_dispatch_recovery = None, ob_reconciliation_readback = None,
     ob_dispatch_readback = Some \<lparr>db_approval_id = ''act-12345'', db_revision = 1, db_digest = ex_hash CHR ''d'', db_target = ex_hash CHR ''e'',
       db_attempt_id = ''a1'', db_claim_hash = ex_hash CHR ''2'', db_expected_version = 2, db_effect = EffSucceeded,
       db_evidence = Some (ex_hash CHR ''f''), db_cleanup_proven = True\<rparr>,
     ob_reconciliation_started = None, ob_launcher_readback = None\<rparr>"

lemma ex_hash_simps [simp]: "digest_syntax (ex_hash c) = (between 48 57 c \<or> between 97 102 c)" "ex_hash c = ex_hash d \<longleftrightarrow> c = d"
  by (simp_all add: digest_syntax_def ex_hash_def list_all_iff)

lemma ex_clock_ok: "0 \<le> n \<Longrightarrow> n < 2 ^ 63 \<Longrightarrow> action_clock_ok (ex_clock n) = Inr ()"
proof -
  have "list_all (\<lambda>c. ascii_alnum c \<or> c \<in> {CHR ''-'', CHR ''_'', CHR ''.''}) ''boot''" by code_simp
  then show "0 \<le> n \<Longrightarrow> n < 2 ^ 63 \<Longrightarrow> action_clock_ok (ex_clock n) = Inr ()" by (simp add: action_clock_ok_def ex_clock_def)
qed

lemma ex_hex: "between 97 102 CHR ''d''" "between 97 102 CHR ''e''" "between 97 102 CHR ''f''" "between 48 57 CHR ''1''" "between 48 57 CHR ''2''"
  by code_simp+

lemma ex_prepares: "prepare ''act-12345'' 1 (ex_hash CHR ''d'') (ex_hash CHR ''e'') ''a1'' ''repo'' (ex_hash CHR ''1'') (ex_clock 0) True = Inr ex_prepared"
proof -
  have "bead_id_syntax ''act-12345''"
    "list_all (\<lambda>c. ascii_alnum c \<or> c \<in> {CHR ''-'', CHR ''_'', CHR ''.'', CHR '':''}) (''a1'' @ ''repo'')" by code_simp+
  then show ?thesis
    by (simp add: prepare_def ex_clock_ok ex_hex ex_prepared_def DISPATCH_WINDOW_NS_def PREPARATION_WINDOW_NS_def) (simp add: ex_clock_def)
qed

lemma ex_reduces:
  "ready ex_prepared (ex_hash CHR ''2'') (ex_clock 1000000000) True True = Inr ex_ready"
  "consume_claim ex_ready (ex_hash CHR ''2'') (ex_clock 2000000000) True = Inr ex_claimed"
  "report ex_claimed ''a1'' (ex_hash CHR ''2'') (ex_hash CHR ''d'') (ex_hash CHR ''e'') EffSucceeded (Some (ex_hash CHR ''f'')) True = Inr ex_done"
proof -
  have clock: "clock_elapsed (ex_clock 0) (ex_clock n) = Inr (n div 1000000000)" if "0 \<le> n" "n < 2 ^ 63" for n
    using that by (simp add: clock_elapsed_def ex_clock_ok) (simp add: ex_clock_def)
  note defs = within_deadline_def elapsed_seconds_def clock ex_prepared_def ex_ready_def ex_claimed_def ex_done_def ex_hex
  show "ready ex_prepared (ex_hash CHR ''2'') (ex_clock 1000000000) True True = Inr ex_ready"
    by (simp add: ready_def defs) (simp add: ex_clock_def)
  show "consume_claim ex_ready (ex_hash CHR ''2'') (ex_clock 2000000000) True = Inr ex_claimed"
    by (simp add: consume_claim_def defs) (simp add: ex_clock_def)
  show "report ex_claimed ''a1'' (ex_hash CHR ''2'') (ex_hash CHR ''d'') (ex_hash CHR ''e'') EffSucceeded (Some (ex_hash CHR ''f'')) True = Inr ex_done"
    by (simp add: report_def defs)
qed

lemma ex_versions: "di_version ex_prepared = 0" "di_version ex_ready = 1" "di_version ex_claimed = 2" "di_version ex_done = 3"
  by (simp_all add: ex_prepared_def ex_ready_def ex_claimed_def ex_done_def)

lemma ex_accepted:
  assumes "dispatch_candidate v p ob None = Inr (Some p)" "di_version p = di_version v + 1" "di_lookups p = di_lookups v"
    "dispatch_key p = dispatch_key v"
  shows "advance_dispatch (di_version v) v p ob None [] = Inr p"
  using assms by (auto simp: advance_dispatch_def dispatch_transition_def)

lemma ex_advances:
  "advance_dispatch 0 ex_prepared ex_ready (ex_observed OpReady 1000000000) None [] = Inr ex_ready"
  "advance_dispatch 1 ex_ready ex_claimed (ex_observed OpConsumeClaim 2000000000) None [] = Inr ex_claimed"
  "advance_dispatch 2 ex_claimed ex_done (ex_observed OpReport 3000000000) None [] = Inr ex_done"
proof -
  have keys: "di_lookups ex_ready = di_lookups ex_prepared" "dispatch_key ex_ready = dispatch_key ex_prepared"
    "di_lookups ex_claimed = di_lookups ex_ready" "dispatch_key ex_claimed = dispatch_key ex_ready"
    "di_lookups ex_done = di_lookups ex_claimed" "dispatch_key ex_done = dispatch_key ex_claimed"
    by (simp_all add: ex_ready_def ex_claimed_def ex_done_def dispatch_key_def)
  have hash: "di_claim_hash ex_ready = Some (ex_hash CHR ''2'')" "di_claim_hash ex_claimed = Some (ex_hash CHR ''2'')"
    by (simp_all add: ex_claimed_def ex_ready_def)
  have ids: "di_approval_id ex_claimed = ''act-12345''" "di_revision ex_claimed = 1" "di_digest ex_claimed = ex_hash CHR ''d''"
    "di_target ex_claimed = ex_hash CHR ''e''" "di_attempt_id ex_claimed = ''a1''"
    using prepare_same [OF ex_prepares] by (simp_all add: ex_claimed_def ex_ready_def)
  note defs = dispatch_candidate_def ex_observed_def observed_clock_def need_def hash_or_empty_def report_candidate_def
  show "advance_dispatch 0 ex_prepared ex_ready (ex_observed OpReady 1000000000) None [] = Inr ex_ready"
    using ex_accepted [of ex_prepared ex_ready] by (simp add: ex_versions keys hash defs ex_reduces(1))
  show "advance_dispatch 1 ex_ready ex_claimed (ex_observed OpConsumeClaim 2000000000) None [] = Inr ex_claimed"
    using ex_accepted [of ex_ready ex_claimed] by (simp add: ex_versions keys hash defs ex_reduces(2))
  show "advance_dispatch 2 ex_claimed ex_done (ex_observed OpReport 3000000000) None [] = Inr ex_done"
    using ex_accepted [of ex_claimed ex_done] by (simp add: ex_versions keys hash ids defs ex_reduces(3))
qed

lemma ex_runs: "advance_step\<^sup>*\<^sup>* ex_prepared ex_ready" "advance_step\<^sup>*\<^sup>* ex_prepared ex_claimed" "advance_step\<^sup>*\<^sup>* ex_claimed ex_done"
  using advance [OF ex_advances(1)] advance [OF ex_advances(2)] advance [OF ex_advances(3)]
  by (auto intro: rtranclp.rtrancl_into_rtrancl)

theorem dispatch_effect_once_witness:
  "advance_step\<^sup>*\<^sup>* ex_claimed ex_done \<and> di_settled ex_done \<and> di_claim_hash ex_done = di_claim_hash ex_claimed \<and>
   (\<forall>h k g. \<exists>why. consume_claim ex_done h k g = Inl why)"
proof -
  have "di_claim_consumed ex_claimed" "di_settled ex_done" by (simp_all add: ex_claimed_def ex_done_def)
  with dispatch_effect_once [OF ex_prepares ex_runs(2,3)] ex_runs(3) show ?thesis by blast
qed

text \<open>Of the operations only a consumption consumes.\<close>

lemma unconsumed_stays:
  assumes "\<not> di_claim_consumed v"
  shows "ready v h now g r = Inr w \<Longrightarrow> \<not> di_claim_consumed w" "restart_preparation v h now = Inr w \<Longrightarrow> \<not> di_claim_consumed w"
    "preparation_failed v e n = Inr w \<Longrightarrow> \<not> di_claim_consumed w" "retire_unconsumed v h e n = Inr w \<Longrightarrow> \<not> di_claim_consumed w"
    "dispatch_uncertain v = Inr w \<Longrightarrow> \<not> di_claim_consumed w" "finish_reconciliation v ev cl ef cl' = Inr w \<Longrightarrow> \<not> di_claim_consumed w"
    "report v a h d tg ef ev' cl = Inr w \<Longrightarrow> \<not> di_claim_consumed w"
  using assms
  by (clarsimp simp: ready_def restart_preparation_def preparation_failed_def retire_unconsumed_def
      dispatch_uncertain_def finish_reconciliation_def report_def bind_result_eq_Inr split: if_split_asm)+

lemma unconsumed_recovered:
  assumes "\<not> di_claim_consumed v"
  shows "reconcile_lookup v el ef cl ev = Inr w \<Longrightarrow> \<not> di_claim_consumed w" "settle_dispatch v rec = Inr w \<Longrightarrow> \<not> di_claim_consumed w"
  using assms lookup_result [of v el ef cl ev w] settle_result(1) [of v rec w] by auto

lemma consuming_candidate:
  assumes "dispatch_candidate v p ob rec = Inr (Some w)" and "\<not> di_claim_consumed v" and "di_claim_consumed w"
  shows "\<exists>h k. ob_now ob = Some k \<and> consume_claim v h k True = Inr w"
proof (cases "ob_operation ob")
  case None
  with assms show ?thesis by (simp add: dispatch_candidate_def)
next
  case (Some k)
  have parts: "\<not> finish_candidate v ob = Inr w" "\<not> lookup_candidate v ob rec = Inr w" "\<not> launcher_candidate v ob k' = Inr w"
      "\<not> report_candidate v ob = Inr w" for k'
    using unconsumed_stays [OF assms(2)] unconsumed_recovered [OF assms(2)] assms(3)
    by (auto simp: finish_candidate_def lookup_candidate_def launcher_candidate_def report_candidate_def bind_result_eq_Inr
        split: option.split_asm if_split_asm)
  then show ?thesis using Some assms unconsumed_stays [OF assms(2)] unconsumed_recovered [OF assms(2)]
    by (cases k) (auto simp: dispatch_candidate_def bind_result_eq_Inr observed_clock_def split: if_split_asm)
qed

text \<open>
  C10. A claim is consumed in time: when an accepted transition consumes a claim, the independently sampled clock
  is on the boot of the preparation, lies less than sixty seconds after it and before the claim's own
  deadline; at most three launchers were prepared, and no startup or claim nonce was used twice.
\<close>

theorem dispatch_claim_in_time:
  assumes "prepare ap rv dg tg att rs sh now fin = Inr v0" and "advance_step\<^sup>*\<^sup>* v0 v"
    and "advance_dispatch expected v p ob rec ch = Inr w" and "\<not> di_claim_consumed v" and "di_claim_consumed w"
  shows "\<exists>k d. ob_now ob = Some k \<and> ck_boot_id k = ck_boot_id now \<and> ck_mono_ns now \<le> ck_mono_ns k \<and>
    ck_mono_ns k < ck_mono_ns now + 60000000000 \<and> di_claim_deadline_ns v = Some d \<and> ck_mono_ns k < d \<and>
    di_launch_attempts v \<le> 3 \<and> distinct (used_nonces v)"
proof -
  have wf: "dispatch_wf v" using advance_inv.run_invar [OF assms(2) prepare_wf [OF assms(1)]] .
  have started: "di_started v = now" using run_same [OF assms(2)] prepare_same [OF assms(1)] by (simp add: same_dispatch_def)
  have "w \<noteq> v" using assms(4,5) by blast
  then have c: "dispatch_candidate v p ob rec = Inr (Some p)" "stored_as v p w" using advance_cases [OF assms(3)] by simp_all
  have p: "di_claim_consumed p" using c(2) assms(5) by (auto elim!: stored_as_eq)
  obtain h k where k: "ob_now ob = Some k" "consume_claim v h k True = Inr p"
    using consuming_candidate [OF c(1) assms(4) p] by blast
  from k(2) obtain e where e: "elapsed_seconds v k = Inr e" "ck_mono_ns k < di_deadline_ns v"
    by (auto simp: consume_claim_def within_deadline_def bind_result_eq_Inr)
  from k(2) obtain d where "di_claim_deadline_ns v = Some d" "ck_mono_ns k < d"
    by (auto simp: consume_claim_def bind_result_eq_Inr split: if_split_asm option.split_asm)
  moreover have "ck_boot_id k = ck_boot_id now" "ck_mono_ns now \<le> ck_mono_ns k"
    using e(1) by (auto simp: elapsed_seconds_def clock_elapsed_def started bind_result_eq_Inr split: if_split_asm)
  moreover have "di_deadline_ns v = ck_mono_ns now + 60000000000" "di_launch_attempts v \<le> 3" "distinct (used_nonces v)"
    using wf by (simp_all add: dispatch_wf_def dispatch_bounds_def DISPATCH_WINDOW_NS_def started)
  ultimately show ?thesis using k(1) e(2) by auto
qed

theorem dispatch_claim_in_time_witness:
  "advance_step\<^sup>*\<^sup>* ex_prepared ex_ready \<and> di_claim_consumed ex_claimed \<and> (\<exists>k d. ob_now (ex_observed OpConsumeClaim 2000000000) = Some k \<and>
    ck_mono_ns k < ck_mono_ns (ex_clock 0) + 60000000000 \<and> di_claim_deadline_ns ex_ready = Some d \<and> ck_mono_ns k < d) \<and>
   distinct (used_nonces ex_ready)"
proof -
  have "\<not> di_claim_consumed ex_ready" "di_claim_consumed ex_claimed" by (simp_all add: ex_prepared_def ex_ready_def ex_claimed_def)
  with dispatch_claim_in_time [OF ex_prepares ex_runs(1) ex_advances(2)] ex_runs(1) show ?thesis by blast
qed

section \<open>Success rests on evidence\<close>

text \<open>What makes a dispatch succeeded: the executor's report, a reconciliation's lookup, or an operator's recovery.\<close>

definition reported_success :: "dispatch_record \<Rightarrow> dispatch_observation \<Rightarrow> dispatch_record \<Rightarrow> bool" where
  "reported_success v ob w \<longleftrightarrow> ob_operation ob = Some OpReport \<and> (\<exists>read. ob_dispatch_readback ob = Some read \<and>
     (db_approval_id read, db_revision read, db_digest read, db_target read, db_attempt_id read, Some (db_claim_hash read), db_expected_version read) =
       (di_approval_id v, di_revision v, di_digest v, di_target v, di_attempt_id v, di_claim_hash v, di_version v) \<and>
     db_effect read = EffSucceeded \<and> db_cleanup_proven read \<and> di_evidence w = db_evidence read)"

definition looked_up_success :: "dispatch_record \<Rightarrow> dispatch_observation \<Rightarrow> dispatch_record option \<Rightarrow> dispatch_record \<Rightarrow> bool" where
  "looked_up_success v ob rec w \<longleftrightarrow> ob_operation ob = Some OpLookup \<and> di_lookups v < 3 \<and> (\<exists>child. rec = Some child \<and> di_settled child \<and>
     di_kind child = DkReconcile \<and> di_parent_attempt_id child = Some (di_attempt_id v) \<and>
     (di_approval_id child, di_revision child, di_digest child, di_target child, di_resource child) =
       (di_approval_id v, di_revision v, di_digest v, di_target v, di_resource v) \<and>
     di_attempt_id child \<notin> set (di_reconciliation_attempts v) \<and>
     di_reconciliation_attempts w = di_reconciliation_attempts v @ [di_attempt_id child] \<and>
     di_reconciliation_effect child = Some EffSucceeded \<and> di_reconciliation_cleanup_proven child \<and> di_cleanup_proven child \<and>
     di_evidence w = di_evidence child)"

definition attested_success :: "dispatch_record \<Rightarrow> dispatch_observation \<Rightarrow> dispatch_record \<Rightarrow> bool" where
  "attested_success v ob w \<longleftrightarrow> ob_operation ob = Some OpSettle \<and> (\<exists>rcv. ob_dispatch_recovery ob = Some rcv \<and>
     (dr_approval_id rcv, dr_revision rcv, dr_digest rcv, dr_target rcv, dr_attempt_id rcv, dr_expected_version rcv) =
       (di_approval_id v, di_revision v, di_digest v, di_target v, di_attempt_id v, di_version v) \<and>
     dr_authenticated_current rcv \<and> dr_exact_repair_scope rcv \<and> dr_native_readback rcv \<and> dr_cleanup_proven rcv \<and>
     dr_attested_succeeded rcv \<and> \<not> dr_definitively_absent rcv \<and> di_evidence w = Some (dr_evidence rcv) \<and>
     di_recovery_operator_event w = Some (dr_operator_event rcv))"

lemma report_succeeds:
  assumes "report v a h d tg ef ev cl = Inr w" "di_state v \<noteq> DsSucceeded" "di_state w = DsSucceeded"
  shows "ef = EffSucceeded \<and> cl \<and> di_evidence w = ev \<and> di_claim_consumed v"
  using assms by (clarsimp simp: report_def split: if_split_asm)

lemma lookup_succeeds:
  assumes "reconcile_lookup v el ef cl ev = Inr w" "di_state w = DsSucceeded"
  shows "ef = EffSucceeded \<and> cl \<and> di_evidence w = ev \<and> di_claim_consumed v \<and> di_lookups w \<noteq> di_lookups v"
proof -
  have "di_state v \<noteq> DsSucceeded" using lookup_guards(2) [OF assms(1)] by auto
  then show ?thesis using assms unfolding reconcile_lookup_def
    by (cases "di_state v"; cases ef; cases cl; clarsimp split: if_split_asm)
qed

lemma settle_succeeds:
  assumes "settle_dispatch v rcv = Inr w" "di_state w = DsSucceeded"
  shows "dr_attested_succeeded rcv \<and> \<not> dr_definitively_absent rcv \<and>
    (dr_approval_id rcv, dr_revision rcv, dr_digest rcv, dr_target rcv, dr_attempt_id rcv, dr_expected_version rcv) =
      (di_approval_id v, di_revision v, di_digest v, di_target v, di_attempt_id v, di_version v) \<and>
    dr_authenticated_current rcv \<and> dr_exact_repair_scope rcv \<and> dr_native_readback rcv \<and> dr_cleanup_proven rcv"
proof -
  have at: "dr_attested_succeeded rcv" using assms(2) settle_result(1) [OF assms(1)] by (simp split: if_split_asm)
  obtain x where "clock_discontinuous v rcv = Inr x"
    using assms(1) by (cases "clock_discontinuous v rcv") (simp_all add: settle_dispatch_def)
  note r = assms(1) [unfolded settle_dispatch_def this bind_result_simps Let_def]
  have branch: "\<not> b" if "(if b then Inl y else Inr z) = (Inr w :: action_refusal + dispatch_record)" for b y z
    using that by (cases b) simp_all
  show ?thesis using branch [OF r] at by blast
qed

lemma others_not_succeed:
  "ready v h now g r = Inr w \<Longrightarrow> di_state w \<noteq> DsSucceeded" "restart_preparation v h now = Inr w \<Longrightarrow> di_state w \<noteq> DsSucceeded"
  "preparation_failed v e n = Inr w \<Longrightarrow> di_state w \<noteq> DsSucceeded" "consume_claim v h now g = Inr w \<Longrightarrow> di_state w \<noteq> DsSucceeded"
  "retire_unconsumed v h e n = Inr w \<Longrightarrow> di_state w \<noteq> DsSucceeded" "dispatch_uncertain v = Inr w \<Longrightarrow> di_state w \<noteq> DsSucceeded"
  "finish_reconciliation v ev cl ef cl' = Inr w \<Longrightarrow> di_state w \<noteq> DsSucceeded"
  by (clarsimp simp: ready_def restart_preparation_def preparation_failed_def consume_claim_def retire_unconsumed_def
      dispatch_uncertain_def finish_reconciliation_def bind_result_eq_Inr split: if_split_asm)+

lemma succeeding_candidate:
  assumes "dispatch_candidate v p ob rec = Inr (Some w)" "di_state v \<noteq> DsSucceeded" "di_state w = DsSucceeded"
  shows "ob_operation ob = Some OpReport \<and> report_candidate v ob = Inr w \<or>
    ob_operation ob = Some OpLookup \<and> lookup_candidate v ob rec = Inr w \<or>
    ob_operation ob = Some OpSettle \<and> (\<exists>rcv. ob_dispatch_recovery ob = Some rcv \<and> settle_dispatch v rcv = Inr w)"
proof (cases "ob_operation ob")
  case None
  with assms show ?thesis by (simp add: dispatch_candidate_def)
next
  case (Some k)
  have parts: "finish_candidate v ob \<noteq> Inr w" "launcher_candidate v ob k' \<noteq> Inr w" for k'
    using assms(3) by (auto simp: finish_candidate_def launcher_candidate_def split: option.split_asm if_split_asm dest: others_not_succeed)
  then show ?thesis using Some assms(1,3)
    by (cases k) (auto simp: dispatch_candidate_def bind_result_eq_Inr split: if_split_asm dest: others_not_succeed)
qed

text \<open>What is stored of a proposal that became succeeded; and the children that must be settled.\<close>

lemma advance_stored:
  assumes "advance_dispatch expected v p ob rec ch = Inr w" "w \<noteq> v"
  shows "dispatch_candidate v p ob rec = Inr (Some p) \<and> expected = di_version v \<and>
    (di_lookups p = di_lookups v \<and> w = p \<or> (\<exists>child. di_lookups p \<noteq> di_lookups v \<and> rec = Some child \<and>
       w = p\<lparr>di_reconciliation_attempts := di_reconciliation_attempts v @ [di_attempt_id child]\<rparr>)) \<and>
    (di_settled w \<and> di_kind w = DkInitial \<longrightarrow> list_all di_settled ch)"
proof -
  have "v \<noteq> p" using assms by (auto simp: advance_dispatch_def)
  have stored: "(if a then Inl x else if b then Inl y else Inr z) = Inr w \<longleftrightarrow> \<not> a \<and> \<not> b \<and> z = w"
    for a b :: bool and x y :: action_refusal and z
    by simp
  from assms(1) \<open>v \<noteq> p\<close> show ?thesis
    by (cases "di_lookups p = di_lookups v")
      (auto simp: advance_dispatch_def dispatch_transition_def bind_result_eq_Inr stored list_ex_iff list_all_iff split: if_split_asm)
qed

text \<open>
  C11. Success rests on bound evidence. When a transition the action journal accepts makes a dispatch succeeded, its
  claim had been consumed, no reconciliation of it is still held, it is settled with its cleanup proven and a
  digest of its evidence, and that evidence is one of three: the executor's report for this very approval,
  revision, digest, target, attempt, claim and version, saying that the effect succeeded; a settled
  reconciliation of this very attempt, target and resource, not used before, that saw the effect; or an
  authenticated operator's recovery bound to this very attempt and version, attesting it.
\<close>

theorem dispatch_success_evidenced:
  assumes "prepare ap rv dg tg att rs sh now fin = Inr v0" and "advance_step\<^sup>*\<^sup>* v0 v"
    and "advance_dispatch expected v p ob rec ch = Inr w" and "di_state v \<noteq> DsSucceeded" and "di_state w = DsSucceeded"
  shows "expected = di_version v \<and> di_claim_consumed v \<and> list_all di_settled ch \<and>
    di_settled w \<and> di_cleanup_proven w \<and> some_digest (di_evidence w) \<and>
    (reported_success v ob w \<or> looked_up_success v ob rec w \<or> attested_success v ob w)"
proof -
  have wf: "dispatch_wf w"
    using advance_inv.run_invar [OF assms(2) prepare_wf [OF assms(1)]] advance_inv.step_invar [OF advance [OF assms(3)]] by blast
  have kind: "di_kind w = DkInitial"
    using same_trans [OF run_same [OF assms(2)] advance_same [OF advance [OF assms(3)]]] prepare_same [OF assms(1)]
    by (simp add: same_dispatch_def)
  have "w \<noteq> v" using assms(4,5) by blast
  note st = advance_stored [OF assms(3) this]
  then have c: "dispatch_candidate v p ob rec = Inr (Some p)" and p: "di_state p = DsSucceeded" using assms(5) by auto
  have eq: "di_evidence w = di_evidence p" "di_recovery_operator_event w = di_recovery_operator_event p" using st by auto
  have "di_claim_consumed v \<and> (reported_success v ob w \<or> looked_up_success v ob rec w \<or> attested_success v ob w)"
    using succeeding_candidate [OF c assms(4) p]
  proof (elim disjE conjE exE)
    assume r: "ob_operation ob = Some OpReport" "report_candidate v ob = Inr p"
    then obtain read where read: "ob_dispatch_readback ob = Some read"
      and b: "(db_approval_id read, db_revision read, db_digest read, db_target read, db_attempt_id read, Some (db_claim_hash read),
          db_expected_version read) = (di_approval_id v, di_revision v, di_digest v, di_target v, di_attempt_id v, di_claim_hash v, di_version v)"
      and s: "report v (db_attempt_id read) (db_claim_hash read) (db_digest read) (db_target read) (db_effect read) (db_evidence read)
          (db_cleanup_proven read) = Inr p"
      by (auto simp: report_candidate_def split: option.split_asm if_split_asm)
    show ?thesis using report_succeeds [OF s assms(4) p] read b r(1) by (simp add: reported_success_def eq)
  next
    assume r: "ob_operation ob = Some OpLookup" "lookup_candidate v ob rec = Inr p"
    then obtain child el ef where l: "rec = Some child" "lookup_bound v child" "di_reconciliation_effect child = Some ef"
      "reconcile_lookup v el ef (di_reconciliation_cleanup_proven child) (di_evidence child) = Inr p"
      by (auto simp: lookup_candidate_def bind_result_eq_Inr split: option.split_asm if_split_asm)
    note s = lookup_succeeds [OF l(4) p]
    then have "di_reconciliation_attempts w = di_reconciliation_attempts v @ [di_attempt_id child]" using st l(1) by auto
    then show ?thesis using s l r(1) lookup_guards(4) [OF l(4)] by (simp add: looked_up_success_def lookup_bound_def eq)
  next
    fix rcv
    assume r: "ob_operation ob = Some OpSettle" "ob_dispatch_recovery ob = Some rcv" "settle_dispatch v rcv = Inr p"
    note s = settle_succeeds [OF r(3) p] settle_result(1) [OF r(3)] settle_result(4) [OF r(3)]
    then show ?thesis using r(1,2) by (simp add: attested_success_def eq)
  qed
  then show ?thesis using st kind wf assms(5) by (auto simp: dispatch_wf_def)
qed

theorem dispatch_success_evidenced_witness:
  "advance_dispatch 2 ex_claimed ex_done (ex_observed OpReport 3000000000) None [] = Inr ex_done \<and>
   di_state ex_done = DsSucceeded \<and> some_digest (di_evidence ex_done) \<and>
   reported_success ex_claimed (ex_observed OpReport 3000000000) ex_done"
proof -
  have s: "di_state ex_claimed \<noteq> DsSucceeded" "di_state ex_done = DsSucceeded" by (simp_all add: ex_claimed_def ex_done_def)
  have op: "ob_operation (ex_observed OpReport 3000000000) = Some OpReport" by (simp add: ex_observed_def)
  from dispatch_success_evidenced [OF ex_prepares ex_runs(2) ex_advances(3) s] op ex_advances(3) s(2) show ?thesis
    by (simp add: looked_up_success_def attested_success_def)
qed

end
