(* ===== verification/Spec2Isabelle.thy ===== *)
theory Spec2Isabelle
  imports Prelude States Decimal Ids Launches Accounts Headroom Journal_Props Clamp Usage Delivery_Props Config_Guard Chunk Gate Sweep Daemon_Props Dispatch_Advance
begin

text \<open>
  \<^bold>\<open>A verification of the heterodyne-metaharness control plane.\<close> The program (\<^verbatim>\<open>src/src/heterodyne/\<close>) runs
  coding agents on beads (tasks). \<^verbatim>\<open>wsd\<close> is its deterministic daemon: it claims beads, launches one session per
  bead and role, parks, defers and resumes them, and keeps its operational state in a SQLite journal. The
  configuration package decides what a workstream may do. \<^verbatim>\<open>delivery.py\<close> is the reducer that decides whether a
  message part may be sent again. \<^verbatim>\<open>admind\<close> is the operator's separate channel.

  \<^bold>\<open>Conventions.\<close> A Python class is a record, an enum a datatype, a dictionary or a SQL table an association
  list in insertion order (\<^verbatim>\<open>AList.update\<close> for an upsert), an exception the left side of a sum, a stateful
  method a function from a state to a result and a state. Integers are \<open>int\<close>, as Python's and SQLite's
  are; where SQLite's 64-bit bound matters (\<^verbatim>\<open>usage_seq\<close>) it is written out. Text is \<open>string\<close>, or a list of
  code points where encodings matter (\<open>Utf8\<close>). Code outside the repository is a parameter: the SHA-256 and
  uuid5 functions, the JSON library of the bead copies, the file system, the login resolver, the queue (btq and bd) and the agent runtime.

  \<^bold>\<open>Theories, in the order of their dependencies.\<close>
  \<^item> \<open>Prelude\<close>, \<open>Decimal\<close>, \<open>Floats\<close>, \<open>Utf8\<close>, \<open>Json\<close>, \<open>Toml\<close>: results, keyed tables, the locales
    \<open>step_invariant\<close> and \<open>step_history\<close>, decimal and UTF-8 codecs, JSON encoding, TOML values and merging.
  \<^item> \<open>States\<close> (\<^verbatim>\<open>wsd/states.py\<close>): the transition table, moves that are checked or adopted; what each workstream
    state means. \<open>Ids\<close> (\<^verbatim>\<open>wsd/ids.py\<close>): the names that session identities hash, which sessions never share;
    role resolution.
  \<^item> \<open>Launches\<close> (\<^verbatim>\<open>wsd/launches.py\<close>): launch entries, set-once fields, the copies on a bead and their round
    trip. \<open>Accounts\<close> (\<^verbatim>\<open>wsd/accounts.py\<close>, \<^verbatim>\<open>config/capabilities.py\<close>), \<open>Headroom\<close> (\<^verbatim>\<open>wsd/headroom.py\<close>):
    the quota gate chooses the first unblocked permitted account, or a deadline at which one is free.
  \<^item> \<open>Journal\<close>, \<open>Journal_Launch\<close>, \<open>Journal_Usage\<close> (\<^verbatim>\<open>wsd/journal.py\<close>): the tables and one definition per
    method. \<open>Journal_Steps\<close> makes them a step relation \<open>jstep\<close> (each method is one transaction under the
    journal's lock, so any threads give a sequence of steps); \<open>Journal_Props\<close> and \<open>Clamp\<close> prove what every
    reachable journal satisfies, how a bead came to run, and what no step takes back.
  \<^item> \<open>Usage\<close> (\<^verbatim>\<open>wsd/usage.py\<close>): an agent's own reports never move the gate, exhaustion marks hold, trusted
    readings are what the gate sees, hints are bounded.
  \<^item> \<open>Delivery\<close>, \<open>Delivery_Attempts\<close>, \<open>Bounded_Ids\<close>, \<open>Delivery_Valid\<close>, \<open>Delivery_Runs\<close>,
    \<open>Delivery_Props\<close> (\<^verbatim>\<open>delivery.py\<close>): the reducer's data with its checks, its calls, the invariant every
    call keeps, when each call succeeds, and the finality of confirmations and contradictions over every run.
  \<^item> \<open>Secrets\<close>, \<open>Config_Policy\<close>, \<open>Config_Layers\<close>, \<open>Config_Accounts\<close>, \<open>Config_Rules\<close>, \<open>Config\<close>,
    \<open>Config_Guard\<close> (\<^verbatim>\<open>config/\<close>): the secret scan, tiers, layers, accounts and \<^verbatim>\<open>load\<close>; a loaded configuration
    refines its stack of layers at its leaves, and its accounts are isolated from each other.
  \<^item> \<open>Chunk\<close> (\<^verbatim>\<open>admind/chunk.py\<close>): splitting replies and packing cards.
  \<^item> \<open>Gate\<close> (\<^verbatim>\<open>wsd/gate.py\<close>): pause, resume and claim as an interleaving of processes over one lock.
  \<^item> \<open>Beads\<close> (\<^verbatim>\<open>wsd/beads.py\<close>, part of \<^verbatim>\<open>wsd/park.py\<close>), \<open>Sweep\<close> (\<^verbatim>\<open>wsd/sweep.py\<close>): the reconciliation sweep with
    every exit and exception.
  \<^item> \<open>Services\<close>, \<open>Park\<close>, \<open>Defer\<close>, \<open>Guard\<close>, \<open>Release\<close> (\<^verbatim>\<open>wsd/park.py\<close>, the owned writes of
    \<^verbatim>\<open>wsd/beads.py\<close>, \<^verbatim>\<open>wsd/runtime.py\<close>'s data, \<^verbatim>\<open>place\<close> and \<^verbatim>\<open>record\<close> of \<^verbatim>\<open>wsd/workstream.py\<close>): the parker. An
    operation is a function from a state (journal, call counter, attempted external effects) to an exception
    or a value and a state; every external answer, and whether the process dies at a checkpoint, is a
    function of the call counter, so a property holds for every behaviour of the world between calls.
    \<open>Park_Rules\<close> walks every operation once for any relation its primitives keep; \<open>Park_Props\<close> and
    \<open>Park_Runs\<close> prove that the guard launches only as pinned and as the gate admits it at that moment, only when
    nothing else runs, and what a started launch leaves in the journal.
  \<^item> \<open>Scheduler\<close> (\<^verbatim>\<open>wsd/scheduler.py\<close>), \<open>Recovery\<close> (\<^verbatim>\<open>wsd/recovery.py\<close>): one definition per method, in the
    parker's style of actions: pickup composes the quota gate, the sweep, the claim gate, the parker and the
    launch guard; recovery composes the sweep and the replays that never launch. \<open>Sched_Rules\<close> and
    \<open>Sched_Props\<close> extend the rules of \<open>Park_Rules\<close> to them. \<open>Daemon_Runs\<close> makes pickups, recoveries, re-gates,
    operator calls and journal calls one step relation and proves that over every run a generation is
    launched at most once; \<open>Daemon_Props\<close> proves that a pickup claims only free, listed work of an idle
    workstream and that recovery starts nothing.
  \<^item> \<open>Dispatch\<close> (\<^verbatim>\<open>actions/dispatch.py\<close>), \<open>Dispatch_Advance\<close> (the dispatch part of \<^verbatim>\<open>actions/transitions.py\<close> and of
    \<^verbatim>\<open>Journal.transition\<close> in \<^verbatim>\<open>actions/journal.py\<close>): the contract of an approved outward effect. An effect is claimed
    at most once, in time and with fresh nonces, a settled dispatch is final, and a success rests on a
    report, a reconciliation or a recovery bound to that very attempt.
  \<^item> This theory: properties that span components.

  \<^bold>\<open>Interfaces.\<close> \<open>step_invariant\<close> (an invariant every step keeps holds along every run) and \<open>step_history\<close> (a
  view of the state that only ever grows) are interpreted on the journal, the delivery reducer, the claim
  gate, the daemon's runs and the action journal's dispatches; \<open>gate_store\<close> on the usage store the gate reads; \<open>sweep_relation\<close> on the
  sweep's actions; \<open>effect_relation\<close> and its extension \<open>action_relation\<close> on the parker's actions;
  \<open>start_relation\<close>, for what pickups and launches may start, on at-most-once launching and on the claims of
  a pickup. The properties rest on the facts of those interpretations.

  \<^bold>\<open>Bounds and loops.\<close> No definition uses fuel: loops over lists are structural, and the two loops of
  \<open>Chunk\<close> have termination proofs by a measure; the guard's loop over two pins is written out. The
  services of a sweep, in a pickup too, are fixed functions for its duration; a property quantifies over all
  of them.

  \<^bold>\<open>Not modelled.\<close> SQLite itself (opening, migrating and backing up the file), threads inside one journal call,
  the agent runtime, sandbox, harness and tmux processes, git and btq subprocesses, the admind event loop
  and stores, action requests and decisions and the deployment authority, the acceptance and gatekeeper
  documents, the command lines and unit files. Those are I/O around the modelled logic or separate state machines.

  Of the parker, the scheduler and recovery, the process lock around a call, the texts of exceptions inside a
  detail, log lines and the session's display label are left out. \<^verbatim>\<open>Scheduler.reconfigure\<close> swaps the settings
  between calls: every call of the model has settings of its own. A crash inside a sweep is not a
  checkpoint of the model; each of its journal calls is a step of \<open>jstep\<close>. The daemon around them
  (\<^verbatim>\<open>wsd/daemon.py\<close>: threads, sockets, timers, the inbox) is left to the runs, which allow every order of calls.

  \<^bold>\<open>Plan.\<close> Next: the inbox and the timers of \<^verbatim>\<open>wsd/daemon.py\<close>, then the requests and decisions of \<^verbatim>\<open>actions/\<close>.
\<close>

section \<open>Properties that span components\<close>

text \<open>C40. What a configuration that loads guarantees of the quota gate: its usage settings are in range, and
  whatever reset an agent's own untrusted report claims, the deferral it causes lies strictly in the future
  and never past the longest window the settings allow.\<close>

theorem loaded_usage_bounds:
  assumes "load fs sha defaults read workstream env caps = Inr cfg"
  shows "\<exists>t. table_at (cf_values cfg) ''usage'' = Inr t \<and> usage_sound (usage_from_table t) \<and>
    (\<forall>h now. now < untrusted_defer_until h now (usage_from_table t) \<and>
       untrusted_defer_until h now (usage_from_table t) \<le> clamp_bound now (usage_from_table t))"
proof -
  from check_usage_sound [OF load_checked(3) [OF assms]] obtain t where
    t: "table_at (cf_values cfg) ''usage'' = Inr t" and s: "usage_sound (usage_from_table t)" by blast
  have "now < untrusted_defer_until h now (usage_from_table t) \<and>
       untrusted_defer_until h now (usage_from_table t) \<le> clamp_bound now (usage_from_table t)" for h now
    using hint_within [of "usage_from_table t" now h] s by (auto simp: usage_sound_def clamp_bound_def)
  with t s show ?thesis by blast
qed

theorem loaded_usage_bounds_witness:
  "\<exists>cfg t. example_load = Inr cfg \<and> table_at (cf_values cfg) ''usage'' = Inr t \<and> usage_sound (usage_from_table t)"
proof -
  from example_loads obtain cfg where l: "example_load = Inr cfg" by blast
  from loaded_usage_bounds [OF l [unfolded example_load_def]] l show ?thesis by blast
qed

end
